(* ===== verification/Go_Prelude.thy ===== *)
theory Go_Prelude
  imports Main "HOL-Library.Word" "HOL-Library.Signed_Division"
begin

text \<open>
  What the Go programs of this repository use of the language and of the small string and
  number routines of its standard library, shared by every component theory.

  A Go string is a sequence of bytes, so it is an Isabelle \<^typ>\<open>string\<close>: a \<^typ>\<open>char\<close> is
  exactly one byte.  A \<open>[]byte\<close> whose elements are computed with is a list of \<open>8 word\<close>.
  Reading outside a slice is a run-time panic in Go, so \<open>index\<close> and \<open>slice\<close> return
  a value of type \<open>result\<close> whose third constructor is that panic: that code never panics is
  then a theorem, not an assumption.
\<close>

named_theorems wire_simps \<open>unfolding rules of the byte-level encoders\<close>
named_theorems strconv_simps \<open>unfolding rules of the string and number routines\<close>

type_synonym byte = "8 word"
type_synonym u16 = "16 word"
type_synonym u32 = "32 word"

subsection \<open>Results, index expressions and slice expressions\<close>

datatype ('e, 'a) result = Ok 'a | Err 'e | Panic

definition index :: "'a list \<Rightarrow> nat \<Rightarrow> ('e, 'a) result" where
  "index xs i = (if i < length xs then Ok (xs ! i) else Panic)"

text \<open>
  \<open>xs[lo:hi]\<close>.  Go compares \<open>hi\<close> with the capacity, which is at least the length; the
  stricter comparison with the length is used here, so a proof that this function does not
  panic also shows that no byte beyond the length is read.
\<close>

definition slice :: "'a list \<Rightarrow> nat \<Rightarrow> nat \<Rightarrow> ('e, 'a list) result" where
  "slice xs lo hi =
     (if lo \<le> hi \<and> hi \<le> length xs then Ok (take (hi - lo) (drop lo xs)) else Panic)"

lemma index_Ok [simp]: "i < length xs \<Longrightarrow> index xs i = Ok (xs ! i)"
  by (simp add: index_def)

lemma slice_Ok [simp]:
  "lo \<le> hi \<Longrightarrow> hi \<le> length xs \<Longrightarrow> slice xs lo hi = Ok (take (hi - lo) (drop lo xs))"
  by (simp add: slice_def)

text \<open>
  The other run-time panics of the code under \<open>src\<close>: \<open>make([]byte, n)\<close> and \<open>strings.Repeat(s, n)\<close> with a
  negative count, and an integer division by zero.
\<close>

definition makeBytes :: "int \<Rightarrow> ('e, string) result" where
  "makeBytes n = (if n < 0 then Panic else Ok (replicate (nat n) (CHR 0x00)))"

definition repeatString :: "string \<Rightarrow> int \<Rightarrow> ('e, string) result" where
  "repeatString s n = (if n < 0 then Panic else Ok (concat (replicate (nat n) s)))"

definition quo :: "int \<Rightarrow> int \<Rightarrow> ('e, int) result" where
  "quo a b = (if b = 0 then Panic else Ok (a sdiv b))"

lemma makeBytes_Ok [simp]: "0 \<le> n \<Longrightarrow> makeBytes n = Ok (replicate (nat n) (CHR 0x00))"
  by (simp add: makeBytes_def)

lemma repeatString_Ok [simp]: "0 \<le> n \<Longrightarrow> repeatString [c] n = Ok (replicate (nat n) c)"
proof -
  have "concat (replicate k [c]) = replicate k c" for k by (induction k) simp_all
  then show "0 \<le> n \<Longrightarrow> repeatString [c] n = Ok (replicate (nat n) c)" by (simp add: repeatString_def)
qed

lemma quo_Ok [simp]: "b \<noteq> 0 \<Longrightarrow> quo a b = Ok (a sdiv b)"
  by (simp add: quo_def)

text \<open>Sequencing: the first \<open>return err\<close>, fatal log or panic ends the rest.\<close>

definition bindR :: "('e, 'a) result \<Rightarrow> ('a \<Rightarrow> ('e, 'b) result) \<Rightarrow> ('e, 'b) result" where
  "bindR m f = (case m of Ok a \<Rightarrow> f a | Err e \<Rightarrow> Err e | Panic \<Rightarrow> Panic)"

lemma bindR_simps [simp]:
  "bindR (Ok a) f = f a" "bindR (Err e) f = Err e" "bindR Panic f = Panic"
  by (simp_all add: bindR_def)

lemma bindR_Ok: "bindR m f = Ok b \<longleftrightarrow> (\<exists>a. m = Ok a \<and> f a = Ok b)"
  by (cases m) simp_all

subsection \<open>Bytes and characters\<close>

definition byte_of_char :: "char \<Rightarrow> byte" where
  "byte_of_char c = word_of_nat (of_char c)"

definition char_of_byte :: "byte \<Rightarrow> char" where
  "char_of_byte b = char_of (unat b)"

definition bytes_of :: "string \<Rightarrow> byte list" where
  "bytes_of s = map byte_of_char s"

definition string_of :: "byte list \<Rightarrow> string" where
  "string_of bs = map char_of_byte bs"

lemma of_char_less_256: "(of_char c :: nat) < 256"
  by simp

lemma unat_byte_of_char [simp]: "unat (byte_of_char c) = of_char c"
  by (simp add: byte_of_char_def unat_of_nat)

lemma char_of_byte_inverse [simp]: "char_of_byte (byte_of_char c) = c"
  by (simp add: char_of_byte_def)

lemma byte_of_char_inverse [simp]: "byte_of_char (char_of_byte b) = b"
proof -
  have "unat b < 256" using unsigned_less [of b] by simp
  then show ?thesis
    by (simp add: byte_of_char_def char_of_byte_def)
qed

lemma string_of_bytes_of [simp]: "string_of (bytes_of s) = s"
  by (simp add: string_of_def bytes_of_def o_def)

lemma bytes_of_string_of [simp]: "bytes_of (string_of bs) = bs"
  by (simp add: string_of_def bytes_of_def o_def)

lemma length_bytes_of [simp]: "length (bytes_of s) = length s"
  by (simp add: bytes_of_def)

lemma length_string_of [simp]: "length (string_of bs) = length bs"
  by (simp add: string_of_def)

lemma bytes_of_append [simp]: "bytes_of (s @ t) = bytes_of s @ bytes_of t"
  by (simp add: bytes_of_def)

lemma bytes_of_Nil [simp]: "bytes_of [] = []"
  by (simp add: bytes_of_def)

lemma string_of_eq_Nil [simp]: "string_of bs = [] \<longleftrightarrow> bs = []"
  by (simp add: string_of_def)

lemma bytes_of_eq_Nil [simp]: "bytes_of s = [] \<longleftrightarrow> s = []"
  by (simp add: bytes_of_def)

lemma bytes_of_inject [simp]: "bytes_of s = bytes_of t \<longleftrightarrow> s = t"
  by (metis string_of_bytes_of)

subsection \<open>Decimal digits: \<open>strconv.Itoa\<close>, \<open>strconv.Atoi\<close>, \<open>strconv.ParseUint\<close>\<close>

definition isDigit :: "char \<Rightarrow> bool" where
  "isDigit c \<longleftrightarrow> 48 \<le> (of_char c :: nat) \<and> (of_char c :: nat) \<le> 57"

definition digitValue :: "char \<Rightarrow> nat" where
  "digitValue c = of_char c - 48"

definition digitChar :: "nat \<Rightarrow> char" where
  "digitChar d = char_of (48 + d)"

fun formatNat :: "nat \<Rightarrow> string" where
  "formatNat n = (if n < 10 then [digitChar n] else formatNat (n div 10) @ [digitChar (n mod 10)])"

declare formatNat.simps [simp del]

definition itoa :: "int \<Rightarrow> string" where
  "itoa i = (if i < 0 then ''-'' @ formatNat (nat (- i)) else formatNat (nat i))"

definition digitsValue :: "string \<Rightarrow> nat" where
  "digitsValue s = foldl (\<lambda>n c. n * 10 + digitValue c) 0 s"

definition allDigits :: "string \<Rightarrow> bool" where
  "allDigits s \<longleftrightarrow> s \<noteq> [] \<and> list_all isDigit s"

text \<open>
  \<open>strconv.ParseUint(s, 10, bits)\<close>: one or more decimal digits, no sign and no underscore,
  in range.  Both kinds of failure are the one value \<^const>\<open>None\<close>: every caller here only
  compares the error with \<open>nil\<close>.
\<close>

definition parseUint :: "nat \<Rightarrow> string \<Rightarrow> nat option" where
  "parseUint bits s =
     (if allDigits s \<and> digitsValue s < 2 ^ bits then Some (digitsValue s) else None)"

text \<open>\<open>strconv.Atoi\<close> on a 64-bit platform: an optional sign, then digits, in the range of \<open>int64\<close>.\<close>

definition atoi :: "string \<Rightarrow> int option" where
  "atoi s =
     (let neg = (case s of c # _ \<Rightarrow> c = CHR ''-'' | [] \<Rightarrow> False);
          ds = (case s of c # cs \<Rightarrow> if c = CHR ''-'' \<or> c = CHR ''+'' then cs else s | [] \<Rightarrow> [])
      in if \<not> allDigits ds then None
         else if neg then (if digitsValue ds \<le> 2 ^ 63 then Some (- int (digitsValue ds)) else None)
         else (if digitsValue ds < 2 ^ 63 then Some (int (digitsValue ds)) else None))"

lemma isDigit_digitChar: "d < 10 \<Longrightarrow> isDigit (digitChar d)"
  by (simp add: isDigit_def digitChar_def)

lemma digitValue_digitChar: "d < 10 \<Longrightarrow> digitValue (digitChar d) = d"
  by (simp add: digitValue_def digitChar_def)

lemma digitsValue_snoc [simp]: "digitsValue (s @ [c]) = digitsValue s * 10 + digitValue c"
  by (simp add: digitsValue_def)

lemma formatNat_not_Nil [simp]: "formatNat n \<noteq> []"
  by (subst formatNat.simps) simp

lemma list_all_isDigit_formatNat: "list_all isDigit (formatNat n)"
proof (induction n rule: formatNat.induct)
  case (1 n)
  then show ?case
    by (cases "n < 10") (simp_all add: formatNat.simps [of n] isDigit_digitChar)
qed

lemma digitsValue_formatNat [simp]: "digitsValue (formatNat n) = n"
proof (induction n rule: formatNat.induct)
  case (1 n)
  show ?case
  proof (cases "n < 10")
    case True
    then show ?thesis
      by (simp add: formatNat.simps [of n] digitsValue_def digitValue_digitChar)
  next
    case False
    with 1 show ?thesis
      by (simp add: formatNat.simps [of n] digitValue_digitChar)
  qed
qed

lemma allDigits_formatNat [simp]: "allDigits (formatNat n)"
  by (simp add: allDigits_def list_all_isDigit_formatNat)

lemma parseUint_formatNat: "n < 2 ^ bits \<Longrightarrow> parseUint bits (formatNat n) = Some n"
  by (simp add: parseUint_def)

lemma isDigit_not_sign: "isDigit c \<Longrightarrow> c \<noteq> CHR ''-'' \<and> c \<noteq> CHR ''+''"
  by (auto simp: isDigit_def)

lemma formatNat_hd_not_sign:
  obtains c cs where "formatNat n = c # cs" "c \<noteq> CHR ''-''" "c \<noteq> CHR ''+''"
proof -
  obtain c cs where eq: "formatNat n = c # cs"
    by (cases "formatNat n") auto
  with list_all_isDigit_formatNat [of n] have "isDigit c" by simp
  with isDigit_not_sign eq that show thesis by blast
qed

lemma atoi_formatNat: "n < 2 ^ 63 \<Longrightarrow> atoi (formatNat n) = Some (int n)"
  by (rule formatNat_hd_not_sign [of n])
    (auto simp: atoi_def Let_def dest: arg_cong [of _ _ digitsValue] arg_cong [of _ _ allDigits])

text \<open>What \<open>strconv.Itoa\<close> prints, \<open>strconv.Atoi\<close> reads back, over the whole range of \<open>int\<close>.\<close>

lemma atoi_itoa: "- (2 ^ 63) \<le> i \<Longrightarrow> i < 2 ^ 63 \<Longrightarrow> atoi (itoa i) = Some i"
proof (cases "i < 0")
  case True
  assume "- (2 ^ 63) \<le> i"
  then have "nat (- i) \<le> 2 ^ 63" by simp
  with True show ?thesis by (simp add: itoa_def atoi_def Let_def)
next
  case False
  assume "i < 2 ^ 63"
  with False have "nat i < 2 ^ 63" by (simp add: nat_less_iff)
  then have "atoi (formatNat (nat i)) = Some (int (nat i))" by (rule atoi_formatNat)
  with False show ?thesis by (simp add: itoa_def)
qed

lemma atoi_bounds: "atoi s = Some i \<Longrightarrow> - (2 ^ 63) \<le> i \<and> i < 2 ^ 63"
proof -
  assume a: "atoi s = Some i"
  have le: "int n \<le> 2 ^ 63" if "n \<le> 2 ^ 63" for n :: nat
    using that by (metis of_nat_le_iff of_nat_numeral of_nat_power)
  have less: "int n < 2 ^ 63" if "n < 2 ^ 63" for n :: nat
    using that by (metis of_nat_less_iff of_nat_numeral of_nat_power)
  from a le less show ?thesis
    by (fastforce simp: atoi_def Let_def split: if_splits list.splits)
qed

lemmas parse_simps [strconv_simps] =
  atoi_def parseUint_def allDigits_def digitsValue_def digitValue_def isDigit_def Let_def

subsection \<open>\<open>strings\<close>: \<open>Join\<close>, \<open>Split\<close>, \<open>SplitN\<close>, \<open>TrimSpace\<close>, \<open>ToLower\<close>\<close>

fun join :: "string \<Rightarrow> string list \<Rightarrow> string" where
  "join sep [] = []"
| "join sep [x] = x"
| "join sep (x # y # ys) = x @ sep @ join sep (y # ys)"

text \<open>\<open>strings.Split(s, sep)\<close> for a one-byte separator.\<close>

fun split :: "char \<Rightarrow> string \<Rightarrow> string list" where
  "split c [] = [[]]"
| "split c (x # xs) =
     (if x = c then [] # split c xs
      else (case split c xs of [] \<Rightarrow> [[x]] | w # ws \<Rightarrow> (x # w) # ws))"

text \<open>\<open>strings.SplitN(s, sep, n)\<close> for a one-byte separator and \<open>n > 0\<close>: at most \<open>n\<close> pieces.\<close>

fun splitN :: "char \<Rightarrow> nat \<Rightarrow> string \<Rightarrow> string list" where
  "splitN c 0 s = []"
| "splitN c (Suc 0) s = [s]"
| "splitN c (Suc (Suc n)) s =
     (if c \<in> set s
      then takeWhile (\<lambda>x. x \<noteq> c) s # splitN c (Suc n) (tl (dropWhile (\<lambda>x. x \<noteq> c) s))
      else [s])"

lemma split_not_Nil [simp]: "split c s \<noteq> []"
  by (induction s) (auto split: list.splits)

lemma split_no_sep: "c \<notin> set s \<Longrightarrow> split c s = [s]"
  by (induction s) (auto split: list.splits)

lemma split_append_sep: "c \<notin> set s \<Longrightarrow> split c (s @ c # t) = s # split c t"
  by (induction s) (auto split: list.splits)

lemma split_join:
  "ws \<noteq> [] \<Longrightarrow> \<forall>w \<in> set ws. c \<notin> set w \<Longrightarrow> split c (join [c] ws) = ws"
  by (induction "[c]" ws rule: join.induct) (simp_all add: split_no_sep split_append_sep)

lemma join_split: "join [c] (split c s) = s"
proof (induction s)
  case (Cons x xs)
  obtain w ws where eq: "split c xs = w # ws"
    by (cases "split c xs") auto
  with Cons show ?case
    by (cases ws) auto
qed simp

lemma split_pieces_no_sep: "w \<in> set (split c s) \<Longrightarrow> c \<notin> set w"
  by (induction s arbitrary: w) (auto split: if_splits list.splits)

lemma splitN_append_sep:
  "c \<notin> set s \<Longrightarrow> splitN c (Suc (Suc n)) (s @ c # t) = s # splitN c (Suc n) t"
  by (induction s) auto

lemma splitN_three_append:
  "c \<notin> set a \<Longrightarrow> c \<notin> set b \<Longrightarrow> splitN c 3 (a @ c # b @ c # d) = [a, b, d]"
  unfolding numeral_3_eq_3 by (simp only: splitN_append_sep splitN.simps(2) not_False_eq_True)

lemma sep_decomp: "c \<in> set s \<Longrightarrow> s = takeWhile (\<lambda>x. x \<noteq> c) s @ c # tl (dropWhile (\<lambda>x. x \<noteq> c) s)"
  by (induction s) auto

lemma splitN_three: "splitN c 3 s = [a, b, d] \<Longrightarrow> s = a @ c # b @ c # d"
  using sep_decomp [of c s] sep_decomp [of c "tl (dropWhile (\<lambda>x. x \<noteq> c) s)"]
  by (auto simp: numeral_3_eq_3 split: if_splits)

text \<open>
  \<open>strings.TrimSpace\<close>: the characters of \<open>unicode.IsSpace\<close>, as the bytes of their UTF-8 encodings, are
  taken off both sides.
\<close>

definition unicodeSpaces :: "string list" where
  "unicodeSpaces =
    [[CHR 0x09], [CHR 0x0A], [CHR 0x0B], [CHR 0x0C], [CHR 0x0D], [CHR 0x20],
     [CHR 0xC2, CHR 0x85], [CHR 0xC2, CHR 0xA0], [CHR 0xE1, CHR 0x9A, CHR 0x80]]
    @ map (\<lambda>n. [CHR 0xE2, CHR 0x80, char_of n]) ([0x80..<0x8B] @ [0xA8, 0xA9, 0xAF :: nat])
    @ [[CHR 0xE2, CHR 0x81, CHR 0x9F], [CHR 0xE3, CHR 0x80, CHR 0x80]]"

function trimLeft :: "string list \<Rightarrow> string \<Rightarrow> string" where
  "trimLeft spaces s =
     (case find (\<lambda>e. e \<noteq> [] \<and> take (length e) s = e) spaces of
        None \<Rightarrow> s
      | Some e \<Rightarrow> trimLeft spaces (drop (length e) s))"
  by pat_completeness auto
termination
proof (relation "measure (\<lambda>(spaces, s). length s)", simp)
  fix spaces :: "string list" and s e
  assume "find (\<lambda>e. e \<noteq> [] \<and> take (length e) s = e) spaces = Some e"
  then have "e \<noteq> []" "take (length e) s = e" by (auto simp: find_Some_iff)
  then show "((spaces, drop (length e) s), spaces, s) \<in> measure (\<lambda>(spaces, s). length s)"
    by (cases s) auto
qed

declare trimLeft.simps [simp del]

definition trimSpace :: "string \<Rightarrow> string" where
  "trimSpace s = rev (trimLeft (map rev unicodeSpaces) (rev (trimLeft unicodeSpaces s)))"

lemma trimLeft_Nil [simp]: "trimLeft spaces [] = []"
proof -
  have "find (\<lambda>e. e \<noteq> [] \<and> take (length e) [] = e) spaces = None" by (auto simp: find_None_iff)
  then show ?thesis by (subst trimLeft.simps) simp
qed

lemma trimSpace_Nil [simp]: "trimSpace [] = []"
  by (simp add: trimSpace_def)

text \<open>Nothing that begins with a space is left at the front, and only spaces have gone.\<close>

lemma trimLeft_trimmed: "e \<in> set spaces \<Longrightarrow> e \<noteq> [] \<Longrightarrow> take (length e) (trimLeft spaces s) \<noteq> e"
proof (induction spaces s rule: trimLeft.induct)
  case (1 spaces s)
  show ?case
  proof (cases "find (\<lambda>e. e \<noteq> [] \<and> take (length e) s = e) spaces")
    case None
    then have "trimLeft spaces s = s" by (subst trimLeft.simps) simp
    with None "1.prems" show ?thesis by (auto simp: find_None_iff)
  next
    case (Some f)
    then have "trimLeft spaces s = trimLeft spaces (drop (length f) s)" by (subst trimLeft.simps) simp
    with "1.IH" [OF Some "1.prems"] show ?thesis by simp
  qed
qed

text \<open>
  \<open>strings.ToLower\<close> maps the ASCII letters of an ASCII string; any other string goes through
  \<open>strings.Map(unicode.ToLower, s)\<close>, which is the argument \<open>mapLower\<close>.
\<close>

definition isASCII :: "string \<Rightarrow> bool" where
  "isASCII s \<longleftrightarrow> list_all (\<lambda>c. (of_char c :: nat) < 128) s"

definition isUpper :: "char \<Rightarrow> bool" where
  "isUpper c \<longleftrightarrow> 65 \<le> (of_char c :: nat) \<and> (of_char c :: nat) \<le> 90"

definition lowerChar :: "char \<Rightarrow> char" where
  "lowerChar c = (if isUpper c then char_of ((of_char c :: nat) + 32) else c)"

definition toLower :: "(string \<Rightarrow> string) \<Rightarrow> string \<Rightarrow> string" where
  "toLower mapLower s = (if isASCII s then map lowerChar s else mapLower s)"

definition lowerASCII :: "string \<Rightarrow> bool" where
  "lowerASCII s \<longleftrightarrow> isASCII s \<and> list_all (\<lambda>c. \<not> isUpper c) s"

lemma lowerChar_id [simp]: "\<not> isUpper c \<Longrightarrow> lowerChar c = c"
  by (simp add: lowerChar_def)

lemma toLower_id: "lowerASCII s \<Longrightarrow> toLower f s = s"
  by (simp add: toLower_def lowerASCII_def list_all_iff map_idI)

lemma not_isUpper_lowerChar: "\<not> isUpper (lowerChar c)"
  by (auto simp: lowerChar_def isUpper_def)

lemma of_char_lowerChar: "(of_char c :: nat) < 128 \<Longrightarrow> (of_char (lowerChar c) :: nat) < 128"
  by (auto simp: lowerChar_def isUpper_def)

lemma lowerASCII_toLower: "isASCII s \<Longrightarrow> lowerASCII (toLower f s)"
  by (simp add: lowerASCII_def toLower_def isASCII_def list_all_iff not_isUpper_lowerChar
      of_char_lowerChar)

end
