(* ===== verification/Wire.thy ===== *)
theory Wire
  imports Go_Prelude
begin

text \<open>
  The append-style encoders of the ECH fixture (\<open>appendUint16\<close>, \<open>appendUint32\<close>,
  \<open>appendUint16Length\<close>) and the interface every format built from them satisfies: a decoder
  that reads one encoded value off the front of a byte string and hands back the rest.
  Everything that follows from that law alone, such as injectivity, unique decodability and
  the decoding of a sequence, is proved once in the locale \<open>prefix_code\<close>.
\<close>

subsection \<open>The encoders\<close>

definition appendUint16 :: "byte list \<Rightarrow> u16 \<Rightarrow> byte list" where
  "appendUint16 dst v = dst @ [ucast (drop_bit 8 v), ucast v]"

definition appendUint32 :: "byte list \<Rightarrow> u32 \<Rightarrow> byte list" where
  "appendUint32 dst v =
     dst @ [ucast (drop_bit 24 v), ucast (drop_bit 16 v), ucast (drop_bit 8 v), ucast v]"

text \<open>The conversion \<open>uint16(len(value))\<close> keeps the low sixteen bits of the length.\<close>

definition appendUint16Length :: "byte list \<Rightarrow> byte list \<Rightarrow> byte list" where
  "appendUint16Length dst value = appendUint16 dst (word_of_nat (length value)) @ value"

text \<open>\<open>binary.BigEndian.Uint16\<close> and \<open>Uint32\<close> on exactly two and four bytes.\<close>

definition uint16 :: "byte \<Rightarrow> byte \<Rightarrow> u16" where
  "uint16 hi lo = or (ucast lo) (push_bit 8 (ucast hi))"

definition uint32 :: "byte \<Rightarrow> byte \<Rightarrow> byte \<Rightarrow> byte \<Rightarrow> u32" where
  "uint32 b3 b2 b1 b0 =
     or (ucast b0) (or (push_bit 8 (ucast b1)) (or (push_bit 16 (ucast b2)) (push_bit 24 (ucast b3))))"

lemma appendUint16_dst: "appendUint16 dst v = dst @ appendUint16 [] v"
  by (simp add: appendUint16_def)

lemma appendUint32_dst: "appendUint32 dst v = dst @ appendUint32 [] v"
  by (simp add: appendUint32_def)

lemma appendUint16Length_dst:
  "appendUint16Length dst value = dst @ appendUint16Length [] value"
  by (simp add: appendUint16Length_def appendUint16_def)

text \<open>As simplification rules these are kept from rewriting their own right-hand sides.\<close>

lemma append_dst_simps [wire_simps]:
  "NO_MATCH [] dst \<Longrightarrow> appendUint16 dst v = dst @ appendUint16 [] v"
  "NO_MATCH [] dst \<Longrightarrow> appendUint32 dst w = dst @ appendUint32 [] w"
  "NO_MATCH [] dst \<Longrightarrow> appendUint16Length dst value = dst @ appendUint16Length [] value"
  by (rule appendUint16_dst appendUint32_dst appendUint16Length_dst)+

lemma length_appendUint16 [simp]: "length (appendUint16 dst v) = length dst + 2"
  by (simp add: appendUint16_def)

lemma length_appendUint32 [simp]: "length (appendUint32 dst v) = length dst + 4"
  by (simp add: appendUint32_def)

lemma length_appendUint16Length [simp]:
  "length (appendUint16Length dst value) = length dst + 2 + length value"
  by (simp add: appendUint16Length_def)

lemma uint16_bytes [simp]: "uint16 (ucast (drop_bit 8 v)) (ucast v) = v"
  unfolding uint16_def by (rule bit_word_eqI) (auto simp: bit_simps)

lemma uint32_bytes [simp]:
  "uint32 (ucast (drop_bit 24 v)) (ucast (drop_bit 16 v)) (ucast (drop_bit 8 v)) (ucast v) = v"
  unfolding uint32_def
proof (rule bit_word_eqI, goal_cases)
  case (1 n)
  then show ?case by (cases "24 \<le> n"; cases "16 \<le> n") (auto simp: bit_simps)
qed

lemma uint16_inverse:
  "ucast (drop_bit 8 (uint16 hi lo)) = hi"
  "ucast (uint16 hi lo) = lo"
proof -
  show "ucast (drop_bit 8 (uint16 hi lo)) = hi"
    unfolding uint16_def by (rule bit_word_eqI) (auto simp: bit_simps dest: bit_imp_le_length)
  show "ucast (uint16 hi lo) = lo"
    unfolding uint16_def by (rule bit_word_eqI) (auto simp: bit_simps)
qed

lemma take_two_bytes: "2 \<le> length bs \<Longrightarrow> take 2 bs = appendUint16 [] (uint16 (bs ! 0) (bs ! 1))"
  by (cases bs; cases "tl bs") (auto simp: appendUint16_def uint16_inverse)

subsection \<open>The decoders of RFC 1035, 8446 and 9460 presentation: one value off the front\<close>

type_synonym 'a decoder = "byte list \<Rightarrow> ('a \<times> byte list) option"

fun readUint8 :: "byte decoder" where
  "readUint8 (b # rest) = Some (b, rest)"
| "readUint8 [] = None"

fun readUint16 :: "u16 decoder" where
  "readUint16 (hi # lo # rest) = Some (uint16 hi lo, rest)"
| "readUint16 _ = None"

fun readUint32 :: "u32 decoder" where
  "readUint32 (b3 # b2 # b1 # b0 # rest) = Some (uint32 b3 b2 b1 b0, rest)"
| "readUint32 _ = None"

definition readBytes :: "nat \<Rightarrow> byte list decoder" where
  "readBytes n bs = (if n \<le> length bs then Some (take n bs, drop n bs) else None)"

definition readOpaque8 :: "byte list decoder" where
  "readOpaque8 bs =
     (case readUint8 bs of None \<Rightarrow> None | Some (n, rest) \<Rightarrow> readBytes (unat n) rest)"

definition readOpaque16 :: "byte list decoder" where
  "readOpaque16 bs =
     (case readUint16 bs of None \<Rightarrow> None | Some (n, rest) \<Rightarrow> readBytes (unat n) rest)"

lemma readBytes_append [simp]: "n = length xs \<Longrightarrow> readBytes n (xs @ rest) = Some (xs, rest)"
  by (simp add: readBytes_def)

lemma readUint16_append [simp]: "readUint16 (appendUint16 [] v @ rest) = Some (v, rest)"
  by (simp add: appendUint16_def)

lemma readUint32_append [simp]: "readUint32 (appendUint32 [] v @ rest) = Some (v, rest)"
  by (simp add: appendUint32_def)

lemma unat_length_u16: "n < 65536 \<Longrightarrow> unat (word_of_nat n :: u16) = n"
  by (simp add: unat_of_nat)

lemma unat_length_byte: "n < 256 \<Longrightarrow> unat (word_of_nat n :: byte) = n"
  by (simp add: unat_of_nat)

lemma readOpaque16_append [simp]:
  "length v < 65536 \<Longrightarrow> readOpaque16 (appendUint16Length [] v @ rest) = Some (v, rest)"
  by (simp add: readOpaque16_def appendUint16Length_def unat_length_u16)

lemma readOpaque8_append [simp]:
  "length v < 256 \<Longrightarrow> readOpaque8 (word_of_nat (length v) # v @ rest) = Some (v, rest)"
  by (simp add: readOpaque8_def unat_length_byte)

text \<open>A sequence of values that fills its byte string; the fuel is the length of that string.\<close>

fun decodeAll :: "'a decoder \<Rightarrow> nat \<Rightarrow> byte list \<Rightarrow> 'a list option" where
  "decodeAll dec 0 bs = (if bs = [] then Some [] else None)"
| "decodeAll dec (Suc n) bs =
     (if bs = [] then Some []
      else (case dec bs of
              None \<Rightarrow> None
            | Some (x, rest) \<Rightarrow> map_option (\<lambda>xs. x # xs) (decodeAll dec n rest)))"

lemma decodeAll_single: "dec bs = Some (x, []) \<Longrightarrow> bs \<noteq> [] \<Longrightarrow> 0 < n \<Longrightarrow> decodeAll dec n bs = Some [x]"
  by (cases n; cases "n - 1") simp_all

subsection \<open>The interface: prefix codes\<close>

locale prefix_code =
  fixes encode :: "'a \<Rightarrow> byte list"
    and decode :: "'a decoder"
    and valid :: "'a \<Rightarrow> bool"
  assumes decode_encode: "valid x \<Longrightarrow> decode (encode x @ rest) = Some (x, rest)"
    and encode_not_Nil: "valid x \<Longrightarrow> encode x \<noteq> []"
begin

lemma decode_encode_Nil: "valid x \<Longrightarrow> decode (encode x) = Some (x, [])"
  using decode_encode [of x "[]"] by simp

lemma unique_decodability:
  "valid x \<Longrightarrow> valid y \<Longrightarrow> encode x @ r = encode y @ s \<Longrightarrow> x = y \<and> r = s"
  by (metis decode_encode option.inject prod.inject)

lemma encode_inject: "valid x \<Longrightarrow> valid y \<Longrightarrow> encode x = encode y \<Longrightarrow> x = y"
  using unique_decodability [of x y "[]" "[]"] by simp

lemma decodeAll_concat:
  "\<forall>x \<in> set xs. valid x \<Longrightarrow> length (concat (map encode xs)) \<le> n \<Longrightarrow>
   decodeAll decode n (concat (map encode xs)) = Some xs"
proof (induction xs arbitrary: n)
  case Nil
  then show ?case by (cases n) simp_all
next
  case (Cons x xs)
  then have x: "encode x \<noteq> []" by (simp add: encode_not_Nil)
  with Cons.prems(2) obtain m where n: "n = Suc m"
    by (cases n) auto
  from x have "1 \<le> length (encode x)" by (cases "encode x") auto
  with Cons.prems(2) n have "length (concat (map encode xs)) \<le> m" by simp
  with Cons have "decodeAll decode m (concat (map encode xs)) = Some xs" by simp
  with Cons.prems(1) x n show ?case by (simp add: decode_encode)
qed

end

interpretation u16_code: prefix_code "appendUint16 []" readUint16 "\<lambda>_. True"
  by unfold_locales (simp_all add: appendUint16_def)

interpretation u32_code: prefix_code "appendUint32 []" readUint32 "\<lambda>_. True"
  by unfold_locales (simp_all add: appendUint32_def)

interpretation opaque16_code: prefix_code "appendUint16Length []" readOpaque16 "\<lambda>v. length v < 65536"
  by unfold_locales (simp_all add: appendUint16Length_def appendUint16_def,
      simp add: readOpaque16_def unat_length_u16)

end
