(* ===== verification/Ech_Config.thy ===== *)
theory Ech_Config
  imports Wire
begin

text \<open>
  Encrypted Client Hello configurations as \<open>ech-fixture/main.go\<close> writes them: \<open>marshalECHConfig\<close>,
  \<open>newECHKey\<close> and \<open>configList\<close>.  The specification is a decoder of the \<open>ECHConfigList\<close> of RFC 9849;
  one configuration is a prefix code in the sense of the locale \<open>prefix_code\<close>.
\<close>

subsection \<open>The encoder\<close>

record echKey =
  echConfig :: "byte list"
  echPrivate :: "byte list"
  echRetryable :: bool

definition marshalECHConfig :: "byte \<Rightarrow> byte list \<Rightarrow> string \<Rightarrow> byte \<Rightarrow> byte list" where
  "marshalECHConfig ident publicKey publicName maxNameLength =
     (let contents = [ident];
          contents = appendUint16 contents 0x0020;
          contents = appendUint16Length contents publicKey;
          cipherSuites = appendUint16 [] 0x0001;
          cipherSuites = appendUint16 cipherSuites 0x0001;
          contents = appendUint16Length contents cipherSuites;
          contents = contents @ [maxNameLength, word_of_nat (length publicName)];
          contents = contents @ bytes_of publicName;
          contents = appendUint16 contents 0;
          config = appendUint16 [] 0xfe0d
      in appendUint16Length config contents)"

text \<open>
  \<open>draw\<close> is the outcome of \<open>ecdh.X25519().GenerateKey\<close>: the public and the private key, or the error
  that \<open>must\<close> logs before it ends the program.
\<close>

type_synonym x25519 = "(string, byte list \<times> byte list) result"

definition newECHKey :: "x25519 \<Rightarrow> byte \<Rightarrow> string \<Rightarrow> bool \<Rightarrow> (string, echKey) result" where
  "newECHKey draw ident publicName retryable =
     bindR draw (\<lambda>(public, private_key).
       Ok \<lparr>echConfig = marshalECHConfig ident public publicName 64,
           echPrivate = private_key, echRetryable = retryable\<rparr>)"

definition configList :: "echKey \<Rightarrow> byte list" where
  "configList key = appendUint16Length [] (echConfig key)"

subsection \<open>Specification: decoding an \<open>ECHConfigList\<close>\<close>

record echContents =
  configId :: byte
  kemId :: u16
  echPublicKey :: "byte list"
  suites :: "(u16 \<times> u16) list"
  maximumNameLength :: byte
  publicName :: string
  echExtensions :: "byte list"

definition readSuite :: "(u16 \<times> u16) decoder" where
  "readSuite bs =
     Option.bind (readUint16 bs) (\<lambda>(kdf, r). Option.bind (readUint16 r) (\<lambda>(aead, r). Some ((kdf, aead), r)))"

definition decodeContents :: "byte list \<Rightarrow> echContents option" where
  "decodeContents bs =
     Option.bind (readUint8 bs) (\<lambda>(i, r).
     Option.bind (readUint16 r) (\<lambda>(kem, r).
     Option.bind (readOpaque16 r) (\<lambda>(pk, r).
     Option.bind (readOpaque16 r) (\<lambda>(ss, r).
     Option.bind (decodeAll readSuite (length ss) ss) (\<lambda>css.
     Option.bind (readUint8 r) (\<lambda>(m, r).
     Option.bind (readOpaque8 r) (\<lambda>(name, r).
     Option.bind (readOpaque16 r) (\<lambda>(exts, r).
     if r = [] then Some \<lparr>configId = i, kemId = kem, echPublicKey = pk, suites = css, maximumNameLength = m,
                          publicName = string_of name, echExtensions = exts\<rparr>
     else None))))))))"

definition readECHConfig :: "echContents decoder" where
  "readECHConfig bs =
     Option.bind (readUint16 bs) (\<lambda>(version, r).
     Option.bind (readOpaque16 r) (\<lambda>(c, r).
     if version \<noteq> 0xfe0d then None else map_option (\<lambda>x. (x, r)) (decodeContents c)))"

definition decodeConfigList :: "byte list \<Rightarrow> echContents list option" where
  "decodeConfigList bs =
     Option.bind (readOpaque16 bs) (\<lambda>(cs, r).
     if r = [] then decodeAll readECHConfig (length cs) cs else None)"

text \<open>What the fixture puts into a configuration.\<close>

definition fixtureContents :: "byte \<Rightarrow> byte list \<Rightarrow> string \<Rightarrow> byte \<Rightarrow> echContents" where
  "fixtureContents i pk name m =
     \<lparr>configId = i, kemId = 0x0020, echPublicKey = pk, suites = [(1, 1)], maximumNameLength = m,
      publicName = name, echExtensions = []\<rparr>"

definition validConfig :: "byte list \<Rightarrow> string \<Rightarrow> bool" where
  "validConfig pk name \<longleftrightarrow> length name < 256 \<and> length pk + length name + 15 < 65536"

subsection \<open>Round trip\<close>

lemma suites_decode: "decodeAll readSuite 4 (appendUint16 [] 1 @ appendUint16 [] 1) = Some [(1, 1)]"
  by (rule decodeAll_single) (simp_all add: readSuite_def u16_code.decode_encode_Nil u16_code.encode_not_Nil)

lemma suites_decode': "n = 4 \<Longrightarrow> decodeAll readSuite n (appendUint16 [] 1 @ appendUint16 [] 1) = Some [(1, 1)]"
  by (simp only: suites_decode)

lemma readOpaque16_Nil: "readOpaque16 (appendUint16 [] 0) = Some ([], [])"
  using opaque16_code.decode_encode_Nil [of "[]"] by (simp add: appendUint16Length_def)

lemma readUint8_Cons_append [simp]: "readUint8 ([b] @ rest) = Some (b, rest)"
  by simp

lemma decodeContents_fixture:
  assumes "validConfig pk name"
  shows "decodeContents ([i] @ appendUint16 [] 0x0020 @ appendUint16Length [] pk
      @ appendUint16Length [] (appendUint16 [] 1 @ appendUint16 [] 1)
      @ [m] @ word_of_nat (length name) # bytes_of name @ appendUint16 [] 0) = Some (fixtureContents i pk name m)"
  using assms readOpaque8_append [of "bytes_of name" "appendUint16 [] 0"]
  by (simp add: decodeContents_def validConfig_def suites_decode' readOpaque16_Nil fixtureContents_def
      del: decodeAll.simps)

lemma marshalECHConfig_eq:
  "marshalECHConfig i pk name m =
     appendUint16 [] 0xfe0d @ appendUint16Length [] ([i] @ appendUint16 [] 0x0020 @ appendUint16Length [] pk
      @ appendUint16Length [] (appendUint16 [] 1 @ appendUint16 [] 1)
      @ [m] @ word_of_nat (length name) # bytes_of name @ appendUint16 [] 0)"
  by (simp add: marshalECHConfig_def Let_def wire_simps)

interpretation ech_config_code: prefix_code
  "\<lambda>(i, pk, name, m). marshalECHConfig i pk name m"
  "\<lambda>bs. map_option (\<lambda>(c, r). ((configId c, echPublicKey c, publicName c, maximumNameLength c), r)) (readECHConfig bs)"
  "\<lambda>(i, pk, name, m). validConfig pk name"
proof (unfold_locales, goal_cases)
  case (1 x rest)
  obtain i pk name m where x: "x = (i, pk, name, m)" by (cases x)
  with 1 have v: "validConfig pk name" by simp
  then show ?case
    by (simp add: x marshalECHConfig_eq readECHConfig_def decodeContents_fixture [simplified] fixtureContents_def
        validConfig_def)
next
  case (2 x)
  then show ?case by (auto simp: marshalECHConfig_eq appendUint16_def)
qed

lemma readECHConfig_marshal:
  "validConfig pk name \<Longrightarrow> readECHConfig (marshalECHConfig i pk name m @ rest) = Some (fixtureContents i pk name m, rest)"
  by (simp add: marshalECHConfig_eq readECHConfig_def decodeContents_fixture [simplified] validConfig_def)

lemma length_marshalECHConfig: "length (marshalECHConfig i pk name m) = length pk + length name + 19"
  by (simp add: marshalECHConfig_eq)

lemma configList_decodes:
  assumes "newECHKey (Ok (pk, sk)) i name retry = Ok key"
    and "length name < 256" "length pk + length name + 19 < 65536"
  shows "decodeConfigList (configList key) = Some [fixtureContents i pk name 64] \<and>
    echPrivate key = sk \<and> echRetryable key = retry"
proof -
  have v: "validConfig pk name" using assms by (simp add: validConfig_def)
  have key: "echConfig key = marshalECHConfig i pk name 64" "echPrivate key = sk" "echRetryable key = retry"
    using assms(1) by (auto simp: newECHKey_def)
  have "decodeAll readECHConfig (length (echConfig key)) (echConfig key) = Some [fixtureContents i pk name 64]"
    using readECHConfig_marshal [OF v, of i 64 "[]"] length_marshalECHConfig [of i pk name 64]
    by (intro decodeAll_single) (auto simp: key)
  moreover have "length (echConfig key) < 65536"
    using assms(3) by (simp add: key length_marshalECHConfig)
  ultimately show ?thesis
    using key by (simp add: decodeConfigList_def configList_def opaque16_code.decode_encode_Nil)
qed

text \<open>
  C19: an ECH configuration list the fixture publishes decodes, under the grammar of RFC 9849, to
  exactly one configuration with the identifier, X25519 public key and public name it was made
  from, the suite HKDF-SHA256 with AES-128-GCM, and no extensions.
\<close>

theorem config_list_decodes:
  assumes "newECHKey (Ok (pk, sk)) i name retry = Ok key"
    and "length name < 256" "length pk + length name + 19 < 65536"
  shows "decodeConfigList (configList key) = Some [fixtureContents i pk name 64] \<and>
    echPrivate key = sk \<and> echRetryable key = retry"
  using assms by (rule configList_decodes)

lemma config_list_decodes_witness:
  "\<exists>key. newECHKey (Ok (replicate 32 7, replicate 32 9)) 1 ''green.public.test'' True = Ok key \<and>
     decodeConfigList (configList key) = Some [fixtureContents 1 (replicate 32 7) ''green.public.test'' 64]"
proof -
  obtain key where k: "newECHKey (Ok (replicate 32 7, replicate 32 9)) 1 ''green.public.test'' True = Ok key"
    by (simp add: newECHKey_def)
  from config_list_decodes [OF k] k show ?thesis by auto
qed

end
