(* ===== verification/Svcb.thy ===== *)
theory Svcb
  imports Wire
begin

text \<open>
  DNS names and SVCB/HTTPS resource data, as \<open>ech-fixture/main.go\<close> writes them:
  \<open>appendDnsName\<close>, \<open>appendSvcParam\<close>, \<open>httpsRecord\<close> and \<open>svcParamFixture\<close>.
  The specification side is a decoder of RFC 9460 resource data and the well-formedness that
  RFC demands of it (strictly ascending keys, a consistent \<open>mandatory\<close>, no parameters in
  AliasMode); the theorems show that every record the fixture publishes decodes to the
  parameters its comment names and is well-formed.
\<close>

subsection \<open>The encoders\<close>

definition appendDnsName :: "byte list \<Rightarrow> string \<Rightarrow> byte list" where
  "appendDnsName dst name =
     foldl (\<lambda>dst label. (dst @ [word_of_nat (length label)]) @ bytes_of label) dst (split (CHR ''.'') name)
     @ [0]"

definition appendSvcParam :: "byte list \<Rightarrow> u16 \<Rightarrow> byte list \<Rightarrow> byte list" where
  "appendSvcParam dst key value = appendUint16Length (appendUint16 dst key) value"

definition httpsRecord :: "byte list \<Rightarrow> int \<Rightarrow> byte list" where
  "httpsRecord echConfigList targetPort =
     (let result = appendUint16 [] 1;
          result = result @ [0];
          result = appendSvcParam result 1 ([2] @ bytes_of ''h2'' @ [8] @ bytes_of ''http/1.1'');
          port = appendUint16 [] (word_of_int targetPort);
          result = appendSvcParam result 3 port;
          result = appendSvcParam result 4 [127, 0, 0, 1];
          result = appendSvcParam result 5 echConfigList
      in result)"

definition svcParamFixture :: "string \<Rightarrow> int \<Rightarrow> byte list option" where
  "svcParamFixture name targetPort =
     (let port = appendUint16 [] (word_of_int targetPort);
          service = appendUint16 [] 1 @ [0];
          h2 = [2] @ bytes_of ''h2''
      in if name = ''alias.svcb.test'' then
           Some (appendDnsName (appendUint16 [] 0) ''green.secret.test'')
         else if name = ''nodefaultalpn.svcb.test'' then
           Some (appendSvcParam (appendSvcParam (appendSvcParam service 1 h2) 2 []) 3 port)
         else if name = ''mandatory.svcb.test'' then
           Some (appendSvcParam (appendSvcParam (appendSvcParam service 0 (appendUint16 [] 1)) 1 h2) 3 port)
         else if name = ''h3only.svcb.test'' then
           Some (appendSvcParam (appendSvcParam service 1 ([2] @ bytes_of ''h3'')) 3 port)
         else if name = ''unknownparam.svcb.test'' then
           Some (appendSvcParam (appendSvcParam (appendSvcParam service 1 h2) 3 port) 31337
             (bytes_of ''nothing here is defined''))
         else None)"

subsection \<open>Specification: reading a name, and resource data\<close>

fun readDnsName :: "string list decoder" where
  "readDnsName [] = None"
| "readDnsName (n # rest) =
     (if n = 0 then Some ([], rest)
      else if 63 < unat n \<or> length rest < unat n then None
      else (case readDnsName (drop (unat n) rest) of
              None \<Rightarrow> None
            | Some (labels, r) \<Rightarrow> Some (string_of (take (unat n) rest) # labels, r)))"

definition readName :: "string decoder" where
  "readName bs = map_option (\<lambda>(labels, r). (join ''.'' labels, r)) (readDnsName bs)"

definition validLabel :: "string \<Rightarrow> bool" where
  "validLabel w \<longleftrightarrow> 0 < length w \<and> length w \<le> 63"

definition validName :: "string \<Rightarrow> bool" where
  "validName name \<longleftrightarrow> list_all validLabel (split (CHR ''.'') name)"

definition readSvcParam :: "(u16 \<times> byte list) decoder" where
  "readSvcParam bs =
     (case readUint16 bs of
        None \<Rightarrow> None
      | Some (key, r) \<Rightarrow> map_option (\<lambda>(value, r'). ((key, value), r')) (readOpaque16 r))"

record svcb =
  svcPriority :: u16
  targetName :: "string list"
  svcParams :: "(u16 \<times> byte list) list"

definition decodeSvcb :: "byte list \<Rightarrow> svcb option" where
  "decodeSvcb bs =
     (case readUint16 bs of
        None \<Rightarrow> None
      | Some (p, r) \<Rightarrow>
          (case readDnsName r of
             None \<Rightarrow> None
           | Some (t, r') \<Rightarrow>
               map_option (\<lambda>ps. \<lparr>svcPriority = p, targetName = t, svcParams = ps\<rparr>)
                 (decodeAll readSvcParam (length r') r')))"

text \<open>
  RFC 9460: keys strictly ascending (2.2); AliasMode carries no parameters (2.4.2); every key
  \<open>mandatory\<close> lists is present and is not \<open>mandatory\<close> itself (8); \<open>no-default-alpn\<close> only
  beside \<open>alpn\<close> (7.1.1); and the value of every parameter has its format: \<open>alpn\<close> is a non-empty list
  of non-empty length-prefixed names that fills the value (7.1.1), \<open>no-default-alpn\<close> is empty (7.1.1),
  \<open>port\<close> is two bytes (7.2), the address hints are non-empty lists of addresses (7.3).  The value of
  \<open>ech\<close> has a decoder of its own in \<open>Ech_Config\<close>; the value of an unregistered key is free.
\<close>

definition alpnWellFormed :: "byte list \<Rightarrow> bool" where
  "alpnWellFormed v =
     (case decodeAll readOpaque8 (length v) v of
        None \<Rightarrow> False
      | Some names \<Rightarrow> names \<noteq> [] \<and> [] \<notin> set names)"

definition valueWellFormed :: "u16 \<times> byte list \<Rightarrow> bool" where
  "valueWellFormed p =
     (case p of (k, v) \<Rightarrow>
        (k = 1 \<longrightarrow> alpnWellFormed v) \<and>
        (k = 2 \<longrightarrow> v = []) \<and>
        (k = 3 \<longrightarrow> length v = 2) \<and>
        (k = 4 \<longrightarrow> v \<noteq> [] \<and> length v mod 4 = 0) \<and>
        (k = 6 \<longrightarrow> v \<noteq> [] \<and> length v mod 16 = 0))"

definition mandatoryConsistent :: "(u16 \<times> byte list) list \<Rightarrow> bool" where
  "mandatoryConsistent ps =
     (case map_of ps 0 of
        None \<Rightarrow> True
      | Some v \<Rightarrow>
          (case decodeAll readUint16 (length v) v of
             None \<Rightarrow> False
           | Some ks \<Rightarrow> ks \<noteq> [] \<and> sorted_wrt (<) ks \<and> 0 \<notin> set ks \<and> list_all (\<lambda>k. map_of ps k \<noteq> None) ks))"

definition svcbWellFormed :: "svcb \<Rightarrow> bool" where
  "svcbWellFormed r \<longleftrightarrow>
     sorted_wrt (<) (map fst (svcParams r)) \<and>
     (svcPriority r = 0 \<longrightarrow> svcParams r = []) \<and>
     mandatoryConsistent (svcParams r) \<and>
     list_all valueWellFormed (svcParams r) \<and>
     (map_of (svcParams r) 2 \<noteq> None \<longrightarrow> map_of (svcParams r) 1 \<noteq> None)"

subsection \<open>Names\<close>

definition encodeLabels :: "string list \<Rightarrow> byte list" where
  "encodeLabels ws = concat (map (\<lambda>w. word_of_nat (length w) # bytes_of w) ws)"

lemma encodeLabels_simps [simp]:
  "encodeLabels [] = []"
  "encodeLabels (w # ws) = word_of_nat (length w) # bytes_of w @ encodeLabels ws"
  by (simp_all add: encodeLabels_def)

lemma foldl_labels:
  "foldl (\<lambda>dst label. (dst @ [word_of_nat (length label)]) @ bytes_of label) dst ws = dst @ encodeLabels ws"
  by (induction ws arbitrary: dst) simp_all

lemma appendDnsName_labels [wire_simps]:
  "appendDnsName dst name = dst @ encodeLabels (split (CHR ''.'') name) @ [0]"
  by (simp add: appendDnsName_def foldl_labels [simplified])

lemma validLabel_byte:
  assumes "validLabel w"
  shows "word_of_nat (length w) \<noteq> (0 :: byte)" and "unat (word_of_nat (length w) :: byte) = length w"
proof -
  from assms have "length w < 256" and "0 < length w" by (simp_all add: validLabel_def)
  then show "unat (word_of_nat (length w) :: byte) = length w" by (simp add: unat_length_byte)
  with \<open>0 < length w\<close> show "word_of_nat (length w) \<noteq> (0 :: byte)"
    by (metis less_numeral_extra(3) unat_0)
qed

lemma readDnsName_labels:
  "list_all validLabel ws \<Longrightarrow> readDnsName (encodeLabels ws @ 0 # rest) = Some (ws, rest)"
proof (induction ws)
  case (Cons w ws)
  then have "validLabel w" by simp
  from validLabel_byte [OF this] this Cons show ?case
    by (simp add: validLabel_def)
qed simp

lemma readDnsName_appendDnsName:
  "validName name \<Longrightarrow> readDnsName (appendDnsName [] name @ rest) = Some (split (CHR ''.'') name, rest)"
  by (simp add: appendDnsName_labels readDnsName_labels validName_def)

interpretation dns_name_code: prefix_code "appendDnsName []" readName validName
  by unfold_locales
    (simp_all add: readName_def readDnsName_appendDnsName join_split, simp add: appendDnsName_labels)

text \<open>Conversely, whatever the decoder accepts is the encoding of the labels it returns.\<close>

lemma readDnsName_inverse:
  "readDnsName bs = Some (ls, r) \<Longrightarrow> bs = encodeLabels ls @ 0 # r \<and> list_all validLabel ls"
proof (induction bs arbitrary: ls rule: readDnsName.induct)
  case (2 n rest)
  show ?case
  proof (cases "n = 0")
    case True
    with "2.prems" show ?thesis by simp
  next
    case False
    with "2.prems" have ok: "\<not> (63 < unat n \<or> length rest < unat n)" by (auto split: if_splits)
    with False "2.prems" obtain ls' where rd: "readDnsName (drop (unat n) rest) = Some (ls', r)"
      and ls: "ls = string_of (take (unat n) rest) # ls'"
      by (auto split: option.splits)
    from "2.IH" [OF False ok rd] have "drop (unat n) rest = encodeLabels ls' @ 0 # r"
      and "list_all validLabel ls'" by simp_all
    moreover have "take (unat n) rest @ drop (unat n) rest = rest" by simp
    moreover from ok False have "validLabel (string_of (take (unat n) rest))"
      by (simp add: validLabel_def min_absorb2 unat_gt_0)
    ultimately show ?thesis
      using ls ok by (auto simp: min_absorb2)
  qed
qed simp

subsection \<open>Parameters\<close>

lemma appendSvcParam_dst: "appendSvcParam dst k v = dst @ appendSvcParam [] k v"
  by (simp add: appendSvcParam_def appendUint16Length_def appendUint16_def)

lemma appendSvcParam_dst_simp [wire_simps]:
  "NO_MATCH [] dst \<Longrightarrow> appendSvcParam dst k v = dst @ appendSvcParam [] k v"
  by (rule appendSvcParam_dst)

lemma length_appendSvcParam [simp]: "length (appendSvcParam dst k v) = length dst + 4 + length v"
  by (simp add: appendSvcParam_def)

lemma readSvcParam_append:
  "length v < 65536 \<Longrightarrow> readSvcParam (appendSvcParam [] k v @ rest) = Some ((k, v), rest)"
  by (simp add: appendSvcParam_def readSvcParam_def appendUint16Length_dst [of "appendUint16 [] k"])

interpretation svc_param_code:
  prefix_code "\<lambda>(k, v). appendSvcParam [] k v" readSvcParam "\<lambda>(k, v). length v < 65536"
  by unfold_locales (auto simp: readSvcParam_append dest: arg_cong [of _ _ length])

definition encodeParams :: "(u16 \<times> byte list) list \<Rightarrow> byte list" where
  "encodeParams ps = concat (map (\<lambda>(k, v). appendSvcParam [] k v) ps)"

lemma encodeParams_simps [simp]:
  "encodeParams [] = []"
  "encodeParams ((k, v) # ps) = appendSvcParam [] k v @ encodeParams ps"
  by (simp_all add: encodeParams_def)

lemma decodeSvcb_service:
  "list_all (\<lambda>(k, v). length v < 65536) ps \<Longrightarrow>
   decodeSvcb (appendUint16 [] p @ 0 # encodeParams ps)
   = Some \<lparr>svcPriority = p, targetName = [], svcParams = ps\<rparr>"
  using svc_param_code.decodeAll_concat [of ps "length (encodeParams ps)"]
  by (simp add: decodeSvcb_def encodeParams_def list_all_iff)

lemma decodeSvcb_alias:
  "validName name \<Longrightarrow>
   decodeSvcb (appendDnsName (appendUint16 [] p) name)
   = Some \<lparr>svcPriority = p, targetName = split (CHR ''.'') name, svcParams = []\<rparr>"
  using readDnsName_appendDnsName [of name "[]"]
  by (simp add: decodeSvcb_def appendDnsName_labels)

subsection \<open>The records\<close>

definition portValue :: "int \<Rightarrow> byte list" where
  "portValue targetPort = appendUint16 [] (word_of_int targetPort)"

definition ordinaryParams :: "byte list \<Rightarrow> int \<Rightarrow> (u16 \<times> byte list) list" where
  "ordinaryParams echConfigList targetPort =
     [(1, [2] @ bytes_of ''h2'' @ [8] @ bytes_of ''http/1.1''), (3, portValue targetPort),
      (4, [127, 0, 0, 1]), (5, echConfigList)]"

lemma length_portValue [simp]: "length (portValue p) = 2"
  by (simp add: portValue_def)

lemma httpsRecord_params:
  "httpsRecord ech port = appendUint16 [] 1 @ 0 # encodeParams (ordinaryParams ech port)"
  by (simp add: httpsRecord_def Let_def ordinaryParams_def portValue_def wire_simps)

lemma httpsRecord_decodes:
  assumes "length ech < 65536"
  shows "decodeSvcb (httpsRecord ech port)
    = Some \<lparr>svcPriority = 1, targetName = [], svcParams = ordinaryParams ech port\<rparr>"
  unfolding httpsRecord_params
  by (rule decodeSvcb_service) (simp add: ordinaryParams_def assms)

text \<open>The five special records, as the comments in \<open>svcParamFixture\<close> describe them.\<close>

definition fixtureSvcb :: "string \<Rightarrow> int \<Rightarrow> svcb option" where
  "fixtureSvcb name port =
     map_of
       [(''alias.svcb.test'',
         \<lparr>svcPriority = 0, targetName = [''green'', ''secret'', ''test''], svcParams = []\<rparr>),
        (''nodefaultalpn.svcb.test'',
         \<lparr>svcPriority = 1, targetName = [],
          svcParams = [(1, [2] @ bytes_of ''h2''), (2, []), (3, portValue port)]\<rparr>),
        (''mandatory.svcb.test'',
         \<lparr>svcPriority = 1, targetName = [],
          svcParams = [(0, [0, 1]), (1, [2] @ bytes_of ''h2''), (3, portValue port)]\<rparr>),
        (''h3only.svcb.test'',
         \<lparr>svcPriority = 1, targetName = [],
          svcParams = [(1, [2] @ bytes_of ''h3''), (3, portValue port)]\<rparr>),
        (''unknownparam.svcb.test'',
         \<lparr>svcPriority = 1, targetName = [],
          svcParams = [(1, [2] @ bytes_of ''h2''), (3, portValue port),
                       (31337, bytes_of ''nothing here is defined'')]\<rparr>)] name"

lemma appendUint16_one [simp]: "appendUint16 [] 1 = [0, 1]"
  by (simp add: appendUint16_def)

lemma service_params:
  "appendSvcParam (appendUint16 [] 1 @ [0]) k v = appendUint16 [] 1 @ 0 # encodeParams [(k, v)]"
  "appendSvcParam (appendUint16 [] 1 @ 0 # encodeParams ps) k v
   = appendUint16 [] 1 @ 0 # encodeParams (ps @ [(k, v)])"
  by (subst appendSvcParam_dst, simp add: encodeParams_def)+

lemma svcParamFixture_decodes:
  "svcParamFixture name port = Some r \<Longrightarrow> decodeSvcb r = fixtureSvcb name port"
  "svcParamFixture name port = None \<longleftrightarrow> fixtureSvcb name port = None"
proof -
  have target: "validName ''green.secret.test''" "split (CHR ''.'') ''green.secret.test'' = [''green'', ''secret'', ''test'']"
    by (simp_all add: validName_def validLabel_def)
  show "svcParamFixture name port = Some r \<Longrightarrow> decodeSvcb r = fixtureSvcb name port"
    unfolding svcParamFixture_def Let_def service_params
    by (auto simp: decodeSvcb_service decodeSvcb_alias [OF target(1)] fixtureSvcb_def portValue_def
        simp del: appendUint16_one encodeParams_simps split.simps split: if_splits)
      (simp_all add: target)
  show "svcParamFixture name port = None \<longleftrightarrow> fixtureSvcb name port = None"
    by (simp add: svcParamFixture_def fixtureSvcb_def Let_def)
qed

lemma alpn_values [simp]:
  "alpnWellFormed ([2] @ bytes_of ''h2'')" "alpnWellFormed ([2] @ bytes_of ''h3'')"
  "alpnWellFormed ([2] @ bytes_of ''h2'' @ [8] @ bytes_of ''http/1.1'')"
  by (simp_all add: alpnWellFormed_def readOpaque8_def readBytes_def bytes_of_def)

lemma ordinaryParams_well_formed:
  "svcbWellFormed \<lparr>svcPriority = 1, targetName = [], svcParams = ordinaryParams ech port\<rparr>"
  using alpn_values(3)
  by (simp add: svcbWellFormed_def mandatoryConsistent_def ordinaryParams_def valueWellFormed_def)

lemma fixtureSvcb_well_formed: "fixtureSvcb name port = Some r \<Longrightarrow> svcbWellFormed r"
  using alpn_values
  by (auto simp: fixtureSvcb_def svcbWellFormed_def mandatoryConsistent_def valueWellFormed_def uint16_def
      split: if_splits)

end
