(* ===== verification/Dns.thy ===== *)
theory Dns
  imports Svcb
begin

text \<open>
  The DNS side of the ECH fixture: \<open>dnsQuestion\<close>, \<open>stripAttrleafPort\<close> and \<open>dnsResponse\<close> of
  \<open>ech-fixture/main.go\<close>.  Every index and slice expression of the source is an \<open>index\<close> or
  \<open>slice\<close> here, so that "no query makes the resolver panic" is proved rather than built in.
  The parser is related to the name decoder of \<open>Svcb\<close>, and the response to a decoder of DNS
  messages that is independent of the code.
\<close>

datatype dnsError =
    ShortQuery
  | InvalidName
  | InvalidLabel
  | ShortQuestion
  | NoFixture string

subsection \<open>\<open>dnsQuestion\<close>\<close>

function dnsLabels :: "byte list \<Rightarrow> nat \<Rightarrow> string list \<Rightarrow> (dnsError, nat \<times> string list) result" where
  "dnsLabels query position labels =
     (if length query \<le> position then Err InvalidName
      else (case index query position of
              Err e \<Rightarrow> Err e
            | Panic \<Rightarrow> Panic
            | Ok b \<Rightarrow>
                (let len = unat b; position = position + 1
                 in if len = 0 then Ok (position, labels)
                    else if 63 < len \<or> length query < position + len then Err InvalidLabel
                    else (case slice query position (position + len) of
                            Err e \<Rightarrow> Err e
                          | Panic \<Rightarrow> Panic
                          | Ok l \<Rightarrow> dnsLabels query (position + len) (labels @ [string_of l])))))"
  by pat_completeness auto
termination
  by (relation "measure (\<lambda>(query, position, labels). length query - position)") auto

declare dnsLabels.simps [simp del]

definition dnsQuestion :: "(string \<Rightarrow> string) \<Rightarrow> byte list \<Rightarrow> (dnsError, nat \<times> string) result" where
  "dnsQuestion mapLower query =
     (case dnsLabels query 12 [] of
        Err e \<Rightarrow> Err e
      | Panic \<Rightarrow> Panic
      | Ok (position, labels) \<Rightarrow>
          (if length query < position + 4 then Err ShortQuestion
           else Ok (position + 4, toLower mapLower (join ''.'' labels))))"

subsection \<open>\<open>stripAttrleafPort\<close>\<close>

definition stripAttrleafPort :: "string \<Rightarrow> ('e, string) result" where
  "stripAttrleafPort name =
     (let labels = splitN (CHR ''.'') 3 name
      in if length labels < 3 then Ok name
         else bindR (index labels 1) (\<lambda>label1.
              if label1 \<noteq> ''_https'' then Ok name
              else bindR (index labels 0) (\<lambda>label0.
              if length label0 < 2 then Ok name
              else bindR (index label0 0) (\<lambda>c.
              if c \<noteq> CHR ''_'' then Ok name
              else bindR (slice label0 1 (length label0)) (\<lambda>port.
              if parseUint 16 port = None then Ok name
              else index labels 2)))))"

text \<open>The name that comes out; that there always is one is \<open>stripAttrleafPort_Ok\<close> below.\<close>

definition bareName :: "string \<Rightarrow> string" where
  "bareName name = (case (stripAttrleafPort name :: (unit, string) result) of Ok n \<Rightarrow> n | _ \<Rightarrow> name)"

lemma splitN_three_cases:
  "length (splitN c 3 s) < 3 \<or> (\<exists>a b d. splitN c 3 s = [a, b, d])"
  by (auto simp: numeral_3_eq_3)

lemma stripAttrleafPort_cases:
  "stripAttrleafPort name =
     Ok (case splitN (CHR ''.'') 3 name of
           [l0, l1, l2] \<Rightarrow>
             (if l1 \<noteq> ''_https'' \<or> length l0 < 2 \<or> hd l0 \<noteq> CHR ''_'' then name
              else if parseUint 16 (tl l0) = None then name
              else l2)
         | _ \<Rightarrow> name)"
proof (cases "length (splitN (CHR ''.'') 3 name) < 3")
  case True
  then show ?thesis by (auto simp: stripAttrleafPort_def split: list.splits)
next
  case False
  then obtain a b d where s: "splitN (CHR ''.'') 3 name = [a, b, d]"
    using splitN_three_cases [of "CHR ''.''" name] by blast
  then show ?thesis
    by (cases a) (auto simp: stripAttrleafPort_def Let_def)
qed

lemma bareName_def':
  "bareName name =
     (case splitN (CHR ''.'') 3 name of
        [l0, l1, l2] \<Rightarrow>
          (if l1 \<noteq> ''_https'' \<or> length l0 < 2 \<or> hd l0 \<noteq> CHR ''_'' then name
           else if parseUint 16 (tl l0) = None then name
           else l2)
      | _ \<Rightarrow> name)"
  by (simp add: bareName_def stripAttrleafPort_cases)

lemma stripAttrleafPort_Ok [simp]: "stripAttrleafPort name = Ok (bareName name)"
  unfolding stripAttrleafPort_cases bareName_def' ..

subsection \<open>\<open>dnsResponse\<close>\<close>

text \<open>The \<open>switch qtype\<close> of \<open>dnsResponse\<close>: the resource data, or none.\<close>

definition dnsRdata ::
    "u16 \<Rightarrow> string \<Rightarrow> (string \<rightharpoonup> byte list) \<Rightarrow> int \<Rightarrow> (dnsError, byte list option) result" where
  "dnsRdata qtype questionName echConfigs targetPort =
     (if qtype = 1 then Ok (Some [127, 0, 0, 1])
      else if qtype = 65 then
        bindR (stripAttrleafPort questionName) (\<lambda>serviceName.
          case svcParamFixture serviceName targetPort of
            Some rec \<Rightarrow> Ok (Some rec)
          | None \<Rightarrow>
              (case echConfigs serviceName of
                 None \<Rightarrow> Err (NoFixture questionName)
               | Some echConfigList \<Rightarrow> Ok (Some (httpsRecord echConfigList targetPort))))
      else if qtype = 28 then Ok None
      else Ok None)"

text \<open>\<open>binary.BigEndian.Uint16\<close> panics on fewer than two bytes.\<close>

definition uint16At :: "byte list \<Rightarrow> ('e, u16) result" where
  "uint16At bs = (case bs of hi # lo # _ \<Rightarrow> Ok (uint16 hi lo) | _ \<Rightarrow> Panic)"

definition dnsMessage :: "byte list \<Rightarrow> byte list \<Rightarrow> u16 \<Rightarrow> byte list option \<Rightarrow> byte list" where
  "dnsMessage ident question qtype rdata =
     (let answerCount = (if rdata \<noteq> None then 1 else 0);
          response = ident @ appendUint16 [] 0x8180 @ appendUint16 [] 1 @ appendUint16 [] answerCount
                     @ [0, 0, 0, 0];
          response = response @ question
      in case rdata of
           None \<Rightarrow> response
         | Some rdata \<Rightarrow>
             (let response = response @ [0xc0, 0x0c];
                  response = appendUint16 response qtype;
                  response = appendUint16 response 1;
                  response = appendUint32 response 60
              in appendUint16Length response rdata))"

definition dnsResponse ::
    "(string \<Rightarrow> string) \<Rightarrow> byte list \<Rightarrow> (string \<rightharpoonup> byte list) \<Rightarrow> int \<Rightarrow> (dnsError, byte list) result" where
  "dnsResponse mapLower query echConfigs targetPort =
     (if length query < 17 then Err ShortQuery
      else (case dnsQuestion mapLower query of
              Err e \<Rightarrow> Err e
            | Panic \<Rightarrow> Panic
            | Ok (questionEnd, questionName) \<Rightarrow>
      (case slice query (questionEnd - 4) (questionEnd - 2) of
         Err e \<Rightarrow> Err e
       | Panic \<Rightarrow> Panic
       | Ok bs \<Rightarrow>
      (case uint16At bs of
         Err e \<Rightarrow> Err e
       | Panic \<Rightarrow> Panic
       | Ok qtype \<Rightarrow>
      (case dnsRdata qtype questionName echConfigs targetPort of
         Err e \<Rightarrow> Err e
       | Panic \<Rightarrow> Panic
       | Ok rdata \<Rightarrow>
      (case slice query 0 2 of
         Err e \<Rightarrow> Err e
       | Panic \<Rightarrow> Panic
       | Ok ident \<Rightarrow>
      (case slice query 12 questionEnd of
         Err e \<Rightarrow> Err e
       | Panic \<Rightarrow> Panic
       | Ok question \<Rightarrow> Ok (dnsMessage ident question qtype rdata))))))))"

subsection \<open>The label loop and the name decoder\<close>

lemma dnsLabels_step:
  "position < length query \<Longrightarrow>
   dnsLabels query position labels =
     (let len = unat (query ! position)
      in if len = 0 then Ok (position + 1, labels)
         else if 63 < len \<or> length query < position + 1 + len then Err InvalidLabel
         else dnsLabels query (position + 1 + len)
                (labels @ [string_of (take len (drop (position + 1) query))]))"
  by (subst dnsLabels.simps) (simp add: Let_def)

lemma dnsLabels_end: "length query \<le> position \<Longrightarrow> dnsLabels query position labels = Err InvalidName"
  by (subst dnsLabels.simps) simp

lemma readDnsName_at:
  assumes "position < length query"
  shows "readDnsName (drop position query) =
     (let len = unat (query ! position)
      in if len = 0 then Some ([], drop (position + 1) query)
         else if 63 < len \<or> length query < position + 1 + len then None
         else (case readDnsName (drop (position + 1 + len) query) of
                 None \<Rightarrow> None
               | Some (ls, r) \<Rightarrow> Some (string_of (take len (drop (position + 1) query)) # ls, r)))"
proof -
  have "drop position query = query ! position # drop (position + 1) query"
    using assms by (simp add: Cons_nth_drop_Suc)
  then show ?thesis
    using assms by (auto simp: Let_def unat_eq_zero add.commute split: option.splits)
qed

text \<open>The loop computes what the name decoder reads at that position, and never panics.\<close>

definition labelsRefine ::
    "byte list \<Rightarrow> nat \<Rightarrow> string list \<Rightarrow> (dnsError, nat \<times> string list) result \<Rightarrow> bool" where
  "labelsRefine query position acc r =
     (case r of
        Ok (p, labels) \<Rightarrow>
          position < p \<and> p \<le> length query \<and>
          (\<exists>ls. labels = acc @ ls \<and> readDnsName (drop position query) = Some (ls, drop p query))
      | Err e \<Rightarrow> readDnsName (drop position query) = None
      | Panic \<Rightarrow> False)"

lemma dnsLabels_refines: "labelsRefine query position labels (dnsLabels query position labels)"
proof (induction query position labels rule: dnsLabels.induct)
  case (1 query position labels)
  show ?case
  proof (cases "position < length query")
    case False
    then show ?thesis by (simp add: labelsRefine_def dnsLabels_end)
  next
    case True
    let ?len = "unat (query ! position)"
    let ?l = "string_of (take ?len (drop (position + 1) query))"
    show ?thesis
    proof (cases "?len = 0 \<or> 63 < ?len \<or> length query < position + 1 + ?len")
      case stop: True
      with True show ?thesis
        by (auto simp: labelsRefine_def dnsLabels_step readDnsName_at Let_def)
    next
      case go: False
      with True have "labelsRefine query (position + 1 + ?len) (labels @ [?l])
          (dnsLabels query (position + 1 + ?len) (labels @ [?l]))"
        by (intro "1.IH") (auto simp: Let_def)
      moreover from True go have
        "dnsLabels query position labels = dnsLabels query (position + 1 + ?len) (labels @ [?l])"
        by (simp add: dnsLabels_step Let_def)
      ultimately show ?thesis
        using True go by (auto simp: labelsRefine_def readDnsName_at [OF True] Let_def
            split: result.splits)
    qed
  qed
qed

lemma dnsLabels_Ok:
  assumes "dnsLabels query position [] = Ok (p, ls)"
  shows "position < p" "p \<le> length query" "readDnsName (drop position query) = Some (ls, drop p query)"
  using dnsLabels_refines [of query position "[]"] assms by (auto simp: labelsRefine_def)

lemma dnsLabels_no_panic: "dnsLabels query position labels \<noteq> Panic"
  using dnsLabels_refines [of query position labels] by (auto simp: labelsRefine_def)

lemma dnsLabels_complete:
  assumes "readDnsName (drop position query) = Some (ls, r)"
  shows "dnsLabels query position [] = Ok (length query - length r, ls)"
proof (cases "dnsLabels query position []")
  case (Ok pl)
  obtain p l where pl: "pl = (p, l)" by (cases pl)
  from dnsLabels_Ok [OF Ok [unfolded pl]] assms have "l = ls" "r = drop p query" "p \<le> length query"
    by simp_all
  with Ok pl show ?thesis by simp
next
  case (Err e)
  with dnsLabels_refines [of query position "[]"] assms show ?thesis
    by (simp add: labelsRefine_def)
next
  case Panic
  with dnsLabels_no_panic show ?thesis by blast
qed

lemma dnsQuestion_Ok:
  assumes "dnsQuestion f query = Ok (questionEnd, name)"
  obtains ls where "readDnsName (drop 12 query) = Some (ls, drop (questionEnd - 4) query)"
    "name = toLower f (join ''.'' ls)" "16 < questionEnd" "questionEnd \<le> length query"
proof -
  from assms obtain p ls where l: "dnsLabels query 12 [] = Ok (p, ls)"
    and *: "p + 4 \<le> length query" "questionEnd = p + 4" "name = toLower f (join ''.'' ls)"
    by (auto simp: dnsQuestion_def split: result.splits if_splits)
  from dnsLabels_Ok [OF l] * show thesis by (intro that) auto
qed

lemma dnsQuestion_no_panic: "dnsQuestion f query \<noteq> Panic"
  by (auto simp: dnsQuestion_def dnsLabels_no_panic split: result.splits)

subsection \<open>Specification: decoding a DNS message\<close>

record dnsMsg =
  ident :: u16
  flags :: u16
  counts :: "u16 list"
  qname :: "string list"
  qtype :: u16
  qclass :: u16
  answers :: "(u16 \<times> u16 \<times> u32 \<times> byte list) list"

definition readQuestion :: "(string list \<times> u16 \<times> u16) decoder" where
  "readQuestion bs =
     Option.bind (readDnsName bs) (\<lambda>(ls, r).
     Option.bind (readUint16 r) (\<lambda>(t, r).
     Option.bind (readUint16 r) (\<lambda>(c, r). Some ((ls, t, c), r))))"

text \<open>An answer whose owner name is the pointer to the question at offset 12.\<close>

definition readAnswer :: "(u16 \<times> u16 \<times> u32 \<times> byte list) decoder" where
  "readAnswer bs =
     Option.bind (readUint16 bs) (\<lambda>(p, r).
     if p \<noteq> 0xc00c then None else
     Option.bind (readUint16 r) (\<lambda>(t, r).
     Option.bind (readUint16 r) (\<lambda>(c, r).
     Option.bind (readUint32 r) (\<lambda>(ttl, r).
     Option.bind (readOpaque16 r) (\<lambda>(d, r). Some ((t, c, ttl, d), r))))))"

definition decodeMsg :: "byte list \<Rightarrow> dnsMsg option" where
  "decodeMsg bs =
     Option.bind (readUint16 bs) (\<lambda>(i, r).
     Option.bind (readUint16 r) (\<lambda>(f, r).
     Option.bind (readUint16 r) (\<lambda>(qd, r).
     Option.bind (readUint16 r) (\<lambda>(an, r).
     Option.bind (readUint16 r) (\<lambda>(ns, r).
     Option.bind (readUint16 r) (\<lambda>(ar, r).
     Option.bind (readQuestion r) (\<lambda>((ls, t, c), r).
     Option.bind (decodeAll readAnswer (length r) r) (\<lambda>as.
       Some \<lparr>ident = i, flags = f, counts = [qd, an, ns, ar], qname = ls, qtype = t, qclass = c,
             answers = as\<rparr>))))))))"

subsection \<open>Reading the response back\<close>

lemma readQuestion_append:
  "list_all validLabel ls \<Longrightarrow>
   readQuestion (encodeLabels ls @ 0 # appendUint16 [] t @ appendUint16 [] c @ rest)
   = Some ((ls, t, c), rest)"
  by (simp add: readQuestion_def readDnsName_labels)

lemma readAnswer_append:
  "length d < 65536 \<Longrightarrow>
   readAnswer (0xc0 # 0x0c # appendUint16 [] t @ appendUint16 [] c @ appendUint32 [] ttl
     @ appendUint16Length [] d @ rest) = Some ((t, c, ttl, d), rest)"
  by (simp add: readAnswer_def uint16_def)

lemma decodeMsg_dnsMessage:
  assumes "list_all validLabel ls" and "\<And>d. rdata = Some d \<Longrightarrow> length d < 65536"
  shows "decodeMsg (dnsMessage (appendUint16 [] i)
           (encodeLabels ls @ 0 # appendUint16 [] t @ appendUint16 [] c) t rdata)
    = Some \<lparr>ident = i, flags = 0x8180, counts = [1, if rdata = None then 0 else 1, 0, 0],
            qname = ls, qtype = t, qclass = c,
            answers = (case rdata of None \<Rightarrow> [] | Some d \<Rightarrow> [(t, 1, 60, d)])\<rparr>"
proof (cases rdata)
  case None
  with assms(1) show ?thesis
    using readQuestion_append [of ls t c "[]"]
    by (simp add: decodeMsg_def dnsMessage_def uint16_def)
next
  case (Some d)
  with assms show ?thesis
    using readAnswer_append [of d t 1 60 "[]"] decodeAll_single [of readAnswer]
    by (simp add: decodeMsg_def dnsMessage_def uint16_def wire_simps readQuestion_append Let_def)
qed

text \<open>
  What a successful \<open>dnsResponse\<close> has read from the query: the question \<open>(ls, t, c)\<close> and the
  resource data chosen for it.
\<close>

lemma question_bytes:
  assumes "readDnsName (drop 12 query) = Some (ls, drop (questionEnd - 4) query)"
    and "16 < questionEnd" "questionEnd \<le> length query"
  obtains t c where "take (questionEnd - 12) (drop 12 query)
      = encodeLabels ls @ 0 # appendUint16 [] t @ appendUint16 [] c"
    "take 2 (drop (questionEnd - 4) query) = appendUint16 [] t"
    "list_all validLabel ls"
proof -
  let ?tail = "drop (questionEnd - 4) query"
  have inv: "drop 12 query = encodeLabels ls @ 0 # ?tail" "list_all validLabel ls"
    using readDnsName_inverse [OF assms(1)] by simp_all
  from assms(2,3) have tail: "length ?tail \<ge> 4" by simp
  from inv(1) have "length query - 12 = length (encodeLabels ls) + 1 + length ?tail"
    by (metis Suc_eq_plus1 add_Suc_right add_Suc length_Cons length_append length_drop)
  with assms(2,3) have len: "questionEnd - 12 = length (encodeLabels ls @ [0]) + 4" by simp
  from tail obtain t where t: "take 2 ?tail = appendUint16 [] t"
    using take_two_bytes [of ?tail] by auto
  from tail obtain c where c: "take 2 (drop 2 ?tail) = appendUint16 [] c"
    using take_two_bytes [of "drop 2 ?tail"] by auto
  have "take 4 ?tail = take 2 ?tail @ take 2 (drop 2 ?tail)"
    by (metis numeral_Bit0 take_add)
  then have "take (questionEnd - 12) (drop 12 query) = encodeLabels ls @ 0 # appendUint16 [] t @ appendUint16 [] c"
    unfolding inv(1) len using t c by simp
  with t inv(2) show thesis by (intro that)
qed

lemma dnsResponse_question:
  assumes "drop 12 query = encodeLabels ls @ 0 # appendUint16 [] t @ appendUint16 [] c @ rest"
    and "list_all validLabel ls"
  shows "dnsResponse f query cfg port =
    (case dnsRdata t (toLower f (join ''.'' ls)) cfg port of
       Err e \<Rightarrow> Err e
     | Panic \<Rightarrow> Panic
     | Ok rdata \<Rightarrow> Ok (dnsMessage (appendUint16 [] (uint16 (query ! 0) (query ! 1)))
         (encodeLabels ls @ 0 # appendUint16 [] t @ appendUint16 [] c) t rdata))"
proof -
  let ?q = "encodeLabels ls @ 0 # appendUint16 [] t @ appendUint16 [] c"
  let ?stop = "12 + length ?q"
  from assms(1) have dl: "length query - 12 = length ?q + length rest"
    by (metis (no_types, lifting) append.assoc append_Cons length_append length_drop)
  then have len: "?stop \<le> length query" by simp
  have "length ?q = length (encodeLabels ls) + 5" by simp
  with len have "17 \<le> length query" by linarith
  have "readDnsName (drop 12 query) = Some (ls, appendUint16 [] t @ appendUint16 [] c @ rest)"
    unfolding assms(1) using assms(2) by (rule readDnsName_labels)
  from dnsLabels_complete [OF this] dl have
    "dnsLabels query 12 [] = Ok (?stop - 4, ls)" using \<open>17 \<le> length query\<close> by simp
  with len have q: "dnsQuestion f query = Ok (?stop, toLower f (join ''.'' ls))"
    by (simp add: dnsQuestion_def)
  have "drop (?stop - 4) query = drop (length (encodeLabels ls @ [0])) (drop 12 query)"
    by (simp add: add.commute)
  then have t: "take 2 (drop (?stop - 4) query) = appendUint16 [] t"
    unfolding assms(1) by simp
  have qb: "take (?stop - 12) (drop 12 query) = ?q"
    unfolding assms(1) by simp
  have slices: "slice query (?stop - 4) (?stop - 2) = (Ok (appendUint16 [] t) :: (dnsError, _) result)"
      "slice query 0 2 = (Ok (appendUint16 [] (uint16 (query ! 0) (query ! 1))) :: (dnsError, _) result)"
      "slice query 12 ?stop = (Ok ?q :: (dnsError, _) result)"
    using len \<open>17 \<le> length query\<close> t qb take_two_bytes [of query] by (simp_all add: slice_def)
  have "uint16At (appendUint16 [] t) = (Ok t :: (dnsError, u16) result)"
    by (simp add: uint16At_def appendUint16_def)
  with \<open>17 \<le> length query\<close> q slices show ?thesis
    by (simp only: dnsResponse_def not_less [symmetric] if_False result.case prod.case)
qed

lemma dnsResponse_cases:
  obtains (Malformed) e where "dnsResponse f query cfg port = Err e"
      "\<nexists>ls t c rest. drop 12 query = encodeLabels ls @ 0 # appendUint16 [] t @ appendUint16 [] c @ rest
        \<and> list_all validLabel ls"
  | (Question) ls t c rest where
      "drop 12 query = encodeLabels ls @ 0 # appendUint16 [] t @ appendUint16 [] c @ rest"
      "list_all validLabel ls"
proof (cases "\<exists>ls t c rest. drop 12 query = encodeLabels ls @ 0 # appendUint16 [] t @ appendUint16 [] c @ rest
        \<and> list_all validLabel ls")
  case True
  with Question show thesis by blast
next
  case False
  have "\<exists>e. dnsResponse f query cfg port = Err e"
  proof (cases "length query < 17 \<or> (\<exists>e. dnsQuestion f query = Err e)")
    case True
    then show ?thesis by (auto simp: dnsResponse_def)
  next
    case ok: False
    then obtain questionEnd name where "dnsQuestion f query = Ok (questionEnd, name)"
      using dnsQuestion_no_panic by (metis result.exhaust surj_pair)
    then obtain ls where q: "readDnsName (drop 12 query) = Some (ls, drop (questionEnd - 4) query)"
        "16 < questionEnd" "questionEnd \<le> length query"
      by (rule dnsQuestion_Ok)
    then obtain t c where "take (questionEnd - 12) (drop 12 query)
        = encodeLabels ls @ 0 # appendUint16 [] t @ appendUint16 [] c" "list_all validLabel ls"
      by (rule question_bytes)
    then have "drop 12 query = encodeLabels ls @ 0 # appendUint16 [] t @ appendUint16 [] c
        @ drop (questionEnd - 12) (drop 12 query)"
      by (metis append.assoc append_Cons append_take_drop_id)
    with False \<open>list_all validLabel ls\<close> show ?thesis by blast
  qed
  with False Malformed show thesis by blast
qed

lemma dnsRdata_no_panic: "dnsRdata t name cfg port \<noteq> Panic"
  by (auto simp: dnsRdata_def Let_def split: option.splits)

lemma dnsRdata_Ok_iff:
  "(\<exists>rdata. dnsRdata t name cfg port = Ok rdata) \<longleftrightarrow>
   (t = 65 \<longrightarrow> svcParamFixture (bareName name) port \<noteq> None
             \<or> cfg (bareName name) \<noteq> None)"
  by (auto simp: dnsRdata_def Let_def split: option.splits)

subsection \<open>Properties of the resolver\<close>

lemma dnsResponse_total: "dnsResponse mapLower query echConfigs targetPort \<noteq> Panic"
proof (rule dnsResponse_cases [of mapLower query echConfigs targetPort])
  fix e
  assume "dnsResponse mapLower query echConfigs targetPort = Err e"
  then show ?thesis by simp
next
  fix ls t c rest
  assume "drop 12 query = encodeLabels ls @ 0 # appendUint16 [] t @ appendUint16 [] c @ rest"
    and "list_all validLabel ls"
  from dnsResponse_question [OF this] show ?thesis
    by (simp add: dnsRdata_no_panic split: result.splits)
qed

text \<open>
  C2: no query makes the resolver panic: whatever bytes arrive, every index and slice expression
  of \<open>dnsResponse\<close>, \<open>dnsQuestion\<close> and \<open>stripAttrleafPort\<close> is in range, and a response or an error comes out.
\<close>

theorem dnsResponse_no_panic: "dnsResponse mapLower query echConfigs targetPort \<noteq> Panic"
  by (rule dnsResponse_total)

text \<open>The question of a query, if it has one: labels of 1 to 63 bytes, a type and a class after the header.\<close>

definition asks :: "byte list \<Rightarrow> string list \<Rightarrow> u16 \<Rightarrow> bool" where
  "asks query ls t \<longleftrightarrow>
     (\<exists>c rest. drop 12 query = encodeLabels ls @ 0 # appendUint16 [] t @ appendUint16 [] c @ rest) \<and>
     list_all validLabel ls"

lemma asks_unique: "asks query ls t \<Longrightarrow> asks query ls' t' \<Longrightarrow> ls = ls' \<and> t = t'"
  unfolding asks_def by (metis readQuestion_append option.inject prod.inject)

lemma dnsResponse_asks:
  assumes "asks query ls t"
  shows "(\<exists>r. dnsResponse f query cfg port = Ok r) \<longleftrightarrow> (\<exists>rdata. dnsRdata t (toLower f (join ''.'' ls)) cfg port = Ok rdata)"
    and "dnsResponse f query cfg port = Err e \<longleftrightarrow> dnsRdata t (toLower f (join ''.'' ls)) cfg port = Err e"
  using assms unfolding asks_def by (auto simp: dnsResponse_question split: result.splits)

text \<open>
  C14: which queries are answered, and what becomes of the others.  A query without a question that can
  be read (compression pointers, over-long labels and cut-off queries included) is an error.  A question
  of any type but HTTPS is answered whatever its name.  An HTTPS question is answered exactly when the
  name, lower-cased and without its Attrleaf prefix, is one of the fixture's; for any other name it is
  the error that names it.
\<close>

theorem dnsResponse_answered_iff:
  "((\<nexists>ls t. asks query ls t) \<longrightarrow> (\<exists>e. dnsResponse mapLower query echConfigs targetPort = Err e)) \<and>
   (\<forall>ls t. asks query ls t \<longrightarrow>
      (let name = toLower mapLower (join ''.'' ls); bare = bareName name
       in if t \<noteq> 65 \<or> svcParamFixture bare targetPort \<noteq> None \<or> echConfigs bare \<noteq> None
          then \<exists>r. dnsResponse mapLower query echConfigs targetPort = Ok r
          else dnsResponse mapLower query echConfigs targetPort = Err (NoFixture name)))"
proof (intro conjI allI impI)
  assume "\<nexists>ls t. asks query ls t"
  then show "\<exists>e. dnsResponse mapLower query echConfigs targetPort = Err e"
    unfolding asks_def by (cases rule: dnsResponse_cases [of mapLower query echConfigs targetPort]) blast+
next
  fix ls t
  assume "asks query ls t"
  from dnsResponse_asks [OF this] show "let name = toLower mapLower (join ''.'' ls); bare = bareName name
     in if t \<noteq> 65 \<or> svcParamFixture bare targetPort \<noteq> None \<or> echConfigs bare \<noteq> None
        then \<exists>r. dnsResponse mapLower query echConfigs targetPort = Ok r
        else dnsResponse mapLower query echConfigs targetPort = Err (NoFixture name)"
    unfolding Let_def dnsRdata_Ok_iff by (auto simp: dnsRdata_def)
qed

lemma dnsResponse_answered_iff_witness:
  "(\<exists>r. dnsResponse (\<lambda>s. s) (replicate 12 0 @ encodeLabels [''a''] @ 0 # appendUint16 [] 1 @ appendUint16 [] 1)
     (\<lambda>_. None) 0 = Ok r) \<and>
   dnsResponse (\<lambda>s. s) (replicate 12 0 @ encodeLabels [''a''] @ 0 # appendUint16 [] 65 @ appendUint16 [] 1)
     (\<lambda>_. None) 0 = Err (NoFixture ''a'')"
proof -
  let ?q = "\<lambda>t. replicate 12 0 @ encodeLabels [''a''] @ 0 # appendUint16 [] t @ appendUint16 [] 1"
  have q: "asks (?q t) [''a''] t" for t
    unfolding asks_def by (intro conjI exI [of _ 1] exI [of _ "[]"]) (simp_all add: validLabel_def)
  have name: "toLower (\<lambda>s. s) (join ''.'' [''a'']) = ''a''" "bareName ''a'' = ''a''" "svcParamFixture ''a'' 0 = None"
    by (simp_all add: toLower_def lowerChar_def isUpper_def bareName_def' numeral_3_eq_3 svcParamFixture_def Let_def)
  note answered = dnsResponse_answered_iff [of _ "\<lambda>s. s" "\<lambda>_. None" 0, THEN conjunct2, rule_format, OF q, unfolded Let_def name]
  show ?thesis using answered [of 1] answered [of 65] by simp
qed

subsection \<open>Names: lower case and the Attrleaf prefix\<close>

definition attrleaf :: "string \<Rightarrow> string \<Rightarrow> string" where
  "attrleaf ds name = ''_'' @ ds @ ''._https.'' @ name"

definition isPort :: "string \<Rightarrow> bool" where
  "isPort ds \<longleftrightarrow> allDigits ds \<and> digitsValue ds < 65536"

lemma bareName_attrleaf: "isPort ds \<Longrightarrow> bareName (attrleaf ds name) = name"
proof -
  assume p: "isPort ds"
  then have "CHR ''.'' \<notin> set (CHR ''_'' # ds)"
    by (auto simp: isPort_def allDigits_def list_all_iff isDigit_def)
  then have "splitN (CHR ''.'') 3 ((CHR ''_'' # ds) @ CHR ''.'' # ''_https'' @ CHR ''.'' # name)
      = [CHR ''_'' # ds, ''_https'', name]"
    by (intro splitN_three_append) simp_all
  moreover have "attrleaf ds name = (CHR ''_'' # ds) @ CHR ''.'' # ''_https'' @ CHR ''.'' # name"
    by (simp add: attrleaf_def)
  ultimately show ?thesis
    using p by (cases ds) (auto simp: bareName_def' isPort_def parseUint_def allDigits_def)
qed

lemma bareName_changed:
  assumes "bareName name \<noteq> name"
  obtains ds where "isPort ds" "name = attrleaf ds (bareName name)"
proof -
  from assms obtain l0 l1 l2 where sp: "splitN (CHR ''.'') 3 name = [l0, l1, l2]"
    and ok: "l1 = ''_https''" "2 \<le> length l0" "hd l0 = CHR ''_''" "parseUint 16 (tl l0) \<noteq> None"
    and strip: "bareName name = l2"
    by (auto simp: bareName_def' split: list.splits if_splits)
  from ok(2,3) have l0: "l0 = CHR ''_'' # tl l0" by (cases l0) auto
  with splitN_three [OF sp] ok(1) strip have "name = attrleaf (tl l0) (bareName name)"
    by (metis append.assoc append_Cons append_Nil attrleaf_def)
  moreover from ok(4) have "isPort (tl l0)"
    by (simp add: isPort_def parseUint_def split: if_splits)
  ultimately show thesis by (intro that)
qed

text \<open>
  \<open>stripAttrleafPort\<close> removes the prefix \<open>_<port>._https.\<close> when \<open>port\<close> is a decimal number
  below 65536, whatever follows it, and returns every other name unchanged.
\<close>

lemma bareName_spec:
  "(\<forall>ds rest. isPort ds \<longrightarrow> bareName (attrleaf ds rest) = rest) \<and>
   (\<forall>name. (\<nexists>ds rest. isPort ds \<and> name = attrleaf ds rest) \<longrightarrow> bareName name = name)"
proof (intro conjI allI impI)
  fix ds rest
  assume "isPort ds"
  then show "bareName (attrleaf ds rest) = rest" by (rule bareName_attrleaf)
next
  fix name
  assume "\<nexists>ds rest. isPort ds \<and> name = attrleaf ds rest"
  then show "bareName name = name" using bareName_changed by blast
qed

text \<open>A query as a client writes it: twelve header bytes, the name, the type and the class.\<close>

definition queryFor :: "byte list \<Rightarrow> string \<Rightarrow> u16 \<Rightarrow> u16 \<Rightarrow> byte list" where
  "queryFor header name t c = appendUint16 (appendUint16 (appendDnsName header name) t) c"

lemma drop_queryFor:
  "length header = 12 \<Longrightarrow>
   drop 12 (queryFor header name t c)
   = encodeLabels (split (CHR ''.'') name) @ 0 # appendUint16 [] t @ appendUint16 [] c @ []"
  by (simp add: queryFor_def wire_simps)

lemma dnsResponse_queryFor:
  assumes "length header = 12" and "validName name"
  shows "dnsResponse f (queryFor header name t c) cfg port =
    (case dnsRdata t (toLower f name) cfg port of
       Err e \<Rightarrow> Err e
     | Panic \<Rightarrow> Panic
     | Ok rdata \<Rightarrow> Ok (dnsMessage (take 2 header)
         (encodeLabels (split (CHR ''.'') name) @ 0 # appendUint16 [] t @ appendUint16 [] c) t rdata))"
proof -
  have v: "list_all validLabel (split (CHR ''.'') name)" using assms(2) by (simp add: validName_def)
  from assms(1) have "take 2 header = appendUint16 []
      (uint16 (queryFor header name t c ! 0) (queryFor header name t c ! 1))"
    using take_two_bytes [of header] by (simp add: queryFor_def wire_simps nth_append)
  then show ?thesis
    unfolding dnsResponse_question [OF drop_queryFor [OF assms(1)] v] join_split by (simp only:)
qed

lemma dnsRdata_length:
  assumes "dnsRdata t name cfg port = Ok (Some d)" and "\<forall>n l. cfg n = Some l \<longrightarrow> length l \<le> 65498"
  shows "length d < 65536"
proof -
  have "length d = 37 + length l" if "d = httpsRecord l port" for l
    using that by (simp add: httpsRecord_def Let_def)
  moreover have "length d < 100" if "svcParamFixture n port = Some d" for n
    using that by (auto simp: svcParamFixture_def Let_def wire_simps split: if_splits)
  ultimately show ?thesis
    using assms by (fastforce simp: dnsRdata_def Let_def split: if_splits option.splits)
qed

text \<open>
  C7: what an answer says. The response decodes as one DNS message: the identifier of the query,
  flags \<open>0x8180\<close>, the question echoed as it was asked (same labels, type and class), and
  an answer section that agrees with its count and holds exactly the resource data chosen for
  that question, at class IN and a lifetime of 60 seconds. The bound on the configuration
  lists is what keeps the sixteen-bit record length from wrapping.
\<close>

theorem dnsResponse_message:
  assumes "dnsResponse mapLower query echConfigs targetPort = Ok response"
    and "\<forall>n l. echConfigs n = Some l \<longrightarrow> length l \<le> 65498"
  shows "\<exists>msg rdata rest. decodeMsg response = Some msg \<and>
    ident msg = uint16 (query ! 0) (query ! 1) \<and> flags msg = 0x8180 \<and>
    readQuestion (drop 12 query) = Some ((qname msg, qtype msg, qclass msg), rest) \<and>
    dnsRdata (qtype msg) (toLower mapLower (join ''.'' (qname msg))) echConfigs targetPort = Ok rdata \<and>
    answers msg = (case rdata of None \<Rightarrow> [] | Some d \<Rightarrow> [(qtype msg, 1, 60, d)]) \<and>
    counts msg = [1, word_of_nat (length (answers msg)), 0, 0]"
proof (rule dnsResponse_cases [of mapLower query echConfigs targetPort])
  fix e
  assume "dnsResponse mapLower query echConfigs targetPort = Err e"
  with assms(1) show ?thesis by simp
next
  fix ls t c rest
  assume q: "drop 12 query = encodeLabels ls @ 0 # appendUint16 [] t @ appendUint16 [] c @ rest"
    and v: "list_all validLabel ls"
  from assms(1) obtain rdata where
    rdata: "dnsRdata t (toLower mapLower (join ''.'' ls)) echConfigs targetPort = Ok rdata" and
    resp: "response = dnsMessage (appendUint16 [] (uint16 (query ! 0) (query ! 1)))
       (encodeLabels ls @ 0 # appendUint16 [] t @ appendUint16 [] c) t rdata"
    unfolding dnsResponse_question [OF q v] by (auto split: result.splits)
  from rdata dnsRdata_length assms(2) have "length d < 65536" if "rdata = Some d" for d
    using that by blast
  with v have "decodeMsg response = Some \<lparr>ident = uint16 (query ! 0) (query ! 1), flags = 0x8180,
      counts = [1, if rdata = None then 0 else 1, 0, 0], qname = ls, qtype = t, qclass = c,
      answers = (case rdata of None \<Rightarrow> [] | Some d \<Rightarrow> [(t, 1, 60, d)])\<rparr>"
    unfolding resp by (rule decodeMsg_dnsMessage)
  moreover have "readQuestion (drop 12 query) = Some ((ls, t, c), rest)"
    unfolding q using v by (rule readQuestion_append)
  ultimately show ?thesis
    using rdata by (cases rdata) auto
qed

lemma dnsResponse_message_witness:
  "\<exists>response msg. dnsResponse id (queryFor [0x12, 0x34, 1, 0, 0, 1, 0, 0, 0, 0, 0, 0] ''a.test'' 1 1)
       (\<lambda>_. None) 8443 = Ok response \<and> decodeMsg response = Some msg \<and>
     ident msg = 0x1234 \<and> qname msg = [''a'', ''test''] \<and> answers msg = [(1, 1, 60, [127, 0, 0, 1])]"
proof -
  let ?q = "queryFor [0x12, 0x34, 1, 0, 0, 1, 0, 0, 0, 0, 0, 0] ''a.test'' 1 1"
  have v: "validName ''a.test''" by (simp add: validName_def validLabel_def)
  obtain response where r: "dnsResponse id ?q (\<lambda>_. None) 8443 = Ok response"
    using dnsResponse_queryFor [OF _ v] by (auto simp: dnsRdata_def)
  from dnsResponse_message [OF r] obtain msg rdata rest where m: "decodeMsg response = Some msg"
      "ident msg = uint16 (?q ! 0) (?q ! 1)"
      "readQuestion (drop 12 ?q) = Some ((qname msg, qtype msg, qclass msg), rest)"
      "dnsRdata (qtype msg) (toLower id (join ''.'' (qname msg))) (\<lambda>_. None) 8443 = Ok rdata"
      "answers msg = (case rdata of None \<Rightarrow> [] | Some d \<Rightarrow> [(qtype msg, 1, 60, d)])"
    by auto
  moreover have "readQuestion (drop 12 ?q) = Some (([''a'', ''test''], 1, 1), [])"
    using readQuestion_append [of "[''a'', ''test'']" 1 1 "[]"]
    by (simp add: drop_queryFor validLabel_def del: encodeLabels_simps)
  moreover have "uint16 (?q ! 0) (?q ! 1) = 0x1234"
    by (simp add: queryFor_def wire_simps uint16_def)
  ultimately show ?thesis
    using r by (auto simp: dnsRdata_def)
qed

subsection \<open>End to end: a question and the answers a client decodes\<close>

definition answersOf :: "(dnsError, byte list) result \<Rightarrow> (u16 \<times> u16 \<times> u32 \<times> byte list) list option" where
  "answersOf r = (case r of Ok m \<Rightarrow> map_option answers (decodeMsg m) | _ \<Rightarrow> None)"

lemma answersOf_queryFor:
  assumes "length header = 12" and "validName name"
    and "\<forall>n l. cfg n = Some l \<longrightarrow> length l \<le> 65498"
  shows "answersOf (dnsResponse f (queryFor header name t c) cfg port) =
    (case dnsRdata t (toLower f name) cfg port of
       Ok None \<Rightarrow> Some [] | Ok (Some d) \<Rightarrow> Some [(t, 1, 60, d)] | _ \<Rightarrow> None)"
proof (cases "dnsRdata t (toLower f name) cfg port")
  case (Ok rdata)
  have "list_all validLabel (split (CHR ''.'') name)" using assms(2) by (simp add: validName_def)
  moreover have "length d < 65536" if "rdata = Some d" for d
    using Ok that dnsRdata_length assms(3) by blast
  moreover obtain i where i: "take 2 header = appendUint16 [] i"
    using take_two_bytes [of header] assms(1) by simp
  ultimately show ?thesis
    using Ok decodeMsg_dnsMessage [of "split (CHR ''.'') name" rdata i t c]
    by (cases rdata) (simp_all add: answersOf_def dnsResponse_queryFor [OF assms(1,2)] i)
qed (simp_all add: answersOf_def dnsResponse_queryFor [OF assms(1,2)])

text \<open>The Attrleaf form as a client may write it: \<open>service\<close> is \<open>_https\<close> in some letter case.\<close>

definition attrleafAs :: "string \<Rightarrow> string \<Rightarrow> string \<Rightarrow> string" where
  "attrleafAs service ds name = ''_'' @ ds @ ''.'' @ service @ ''.'' @ name"

definition httpsLabel :: "string \<Rightarrow> bool" where
  "httpsLabel service \<longleftrightarrow> map lowerChar service = ''_https''"

lemma attrleafAs_https: "attrleafAs ''_https'' ds name = attrleaf ds name" "httpsLabel ''_https''"
  by (simp_all add: attrleafAs_def attrleaf_def httpsLabel_def isUpper_def)

lemma httpsLabel_facts:
  assumes "httpsLabel service"
  shows "isASCII service" "length service = 6" "CHR ''.'' \<notin> set service"
proof -
  have chars: "lowerChar c \<in> set ''_https''" if "c \<in> set service" for c
    using assms that unfolding httpsLabel_def by (metis image_eqI list.set_map)
  have "(of_char c :: nat) < 128" if "c \<in> set service" for c
    using chars [OF that] by (cases "isUpper c") (auto simp: isUpper_def)
  then show "isASCII service" by (simp add: isASCII_def list_all_iff)
  show "length service = 6"
    using arg_cong [OF assms [unfolded httpsLabel_def], of length] by simp
  show "CHR ''.'' \<notin> set service"
    using chars [of "CHR ''.''"] by (auto simp: isUpper_def)
qed

lemma toLower_attrleaf:
  assumes "isPort ds" "isASCII name" "httpsLabel service"
  shows "toLower f (attrleafAs service ds name) = attrleaf ds (toLower f name)"
proof -
  from assms(1) have "isASCII ds" and "map lowerChar ds = ds"
    by (auto simp: isPort_def allDigits_def isASCII_def list_all_iff isDigit_def isUpper_def
        lowerChar_def intro!: map_idI)
  moreover have "lowerASCII ''_''" "lowerASCII ''.''"
    by (simp_all add: lowerASCII_def isASCII_def isUpper_def)
  ultimately show ?thesis
    using assms(2,3) httpsLabel_facts(1) [OF assms(3)] toLower_id [of "''_''"] toLower_id [of "''.''"]
    by (simp add: toLower_def attrleaf_def attrleafAs_def httpsLabel_def isASCII_def lowerASCII_def)
qed

lemma validName_attrleaf:
  assumes "isPort ds" and "length ds \<le> 62" and "validName name" and "httpsLabel service"
  shows "validName (attrleafAs service ds name)"
proof -
  from assms(1) have no: "CHR ''.'' \<notin> set (CHR ''_'' # ds)"
    by (auto simp: isPort_def allDigits_def list_all_iff isDigit_def)
  have "attrleafAs service ds name = (CHR ''_'' # ds) @ CHR ''.'' # (service @ CHR ''.'' # name)"
    by (simp add: attrleafAs_def)
  then have "split (CHR ''.'') (attrleafAs service ds name)
      = (CHR ''_'' # ds) # service # split (CHR ''.'') name"
    by (simp only: split_append_sep [OF no] split_append_sep [OF httpsLabel_facts(3) [OF assms(4)]])
  then show ?thesis
    using assms(2,3) httpsLabel_facts(2) [OF assms(4)] by (simp add: validName_def validLabel_def)
qed

lemma https_answer_config:
  assumes "length header = 12" "validName name" "isASCII name" "isPort ds" "length ds \<le> 62"
    and "\<forall>n l. echConfigs n = Some l \<longrightarrow> length l \<le> 65498"
    and "bareName (toLower mapLower name) = toLower mapLower name"
    and "svcParamFixture (toLower mapLower name) targetPort = None"
    and "echConfigs (toLower mapLower name) = Some l"
    and "httpsLabel service" "q = name \<or> q = attrleafAs service ds name"
  shows "\<exists>d. answersOf (dnsResponse mapLower (queryFor header q 65 c) echConfigs targetPort)
        = Some [(65, 1, 60, d)] \<and>
      decodeSvcb d = Some \<lparr>svcPriority = 1, targetName = [], svcParams = ordinaryParams l targetPort\<rparr>"
proof -
  have "bareName (toLower mapLower q) = toLower mapLower name"
    using assms by (auto simp: toLower_attrleaf bareName_attrleaf)
  then have rd: "dnsRdata 65 (toLower mapLower q) echConfigs targetPort = Ok (Some (httpsRecord l targetPort))"
    using assms(8,9) by (simp add: dnsRdata_def)
  have "validName q" using assms validName_attrleaf by blast
  from answersOf_queryFor [OF assms(1) this assms(6)] rd
  have "answersOf (dnsResponse mapLower (queryFor header q 65 c) echConfigs targetPort)
      = Some [(65, 1, 60, httpsRecord l targetPort)]" by simp
  moreover from assms(6,9) have "length l < 65536" by fastforce
  ultimately show ?thesis by (auto simp: httpsRecord_decodes)
qed

text \<open>
  C18: the HTTPS record reaches the client under both names. An HTTPS question for a name with an
  ECH configuration, asked either directly or as \<open>_<port>._https.name\<close>, with the name and the label
  \<open>_https\<close> each in any letter case, is answered by one record that decodes to priority 1, the owner name as target, and the
  parameters \<open>alpn\<close>, \<open>port\<close>, \<open>ipv4hint\<close> and exactly that configuration list under \<open>ech\<close>.
\<close>

theorem https_answer_carries_config:
  assumes "length header = 12" "validName name" "isASCII name" "isPort ds" "length ds \<le> 62"
    and "\<forall>n l. echConfigs n = Some l \<longrightarrow> length l \<le> 65498"
    and "bareName (toLower mapLower name) = toLower mapLower name"
    and "svcParamFixture (toLower mapLower name) targetPort = None"
    and "echConfigs (toLower mapLower name) = Some l"
    and "httpsLabel service" "q = name \<or> q = attrleafAs service ds name"
  shows "\<exists>d. answersOf (dnsResponse mapLower (queryFor header q 65 c) echConfigs targetPort)
        = Some [(65, 1, 60, d)] \<and>
      decodeSvcb d = Some \<lparr>svcPriority = 1, targetName = [], svcParams = ordinaryParams l targetPort\<rparr>"
  using assms by (rule https_answer_config)

lemma https_answer_carries_config_witness:
  "\<exists>d. answersOf (dnsResponse id (queryFor (replicate 12 0) (attrleafAs ''_HTTPS'' ''8443'' ''GREEN.secret.test'') 65 1)
          [''green.secret.test'' \<mapsto> [0, 4, 0xfe, 0x0d, 0, 0]] 8443) = Some [(65, 1, 60, d)] \<and>
     decodeSvcb d = Some \<lparr>svcPriority = 1, targetName = [],
       svcParams = ordinaryParams [0, 4, 0xfe, 0x0d, 0, 0] 8443\<rparr>"
proof -
  have l: "toLower id ''GREEN.secret.test'' = ''green.secret.test''"
    by (simp add: toLower_def isASCII_def lowerChar_def isUpper_def) (simp add: char_of_def bit_0)
  have p: "isPort ''8443''" by (simp add: isPort_def strconv_simps)
  have n: "validName ''GREEN.secret.test''" "isASCII ''GREEN.secret.test''"
    by (simp_all add: validName_def validLabel_def isASCII_def)
  have h: "httpsLabel ''_HTTPS''"
    by (simp add: httpsLabel_def lowerChar_def isUpper_def) (simp add: char_of_def bit_0)
  have s: "bareName ''green.secret.test'' = ''green.secret.test''"
    by (simp add: bareName_def' numeral_3_eq_3)
  show ?thesis
    by (rule https_answer_carries_config [OF _ n p _ _ _ _ _ h]) (auto simp: l s svcParamFixture_def Let_def)
qed

text \<open>
  C10: every HTTPS record the resolver publishes, ordinary or special, is well-formed by RFC 9460:
  it decodes, its keys ascend strictly, an AliasMode record has no parameters, whatever
  \<open>mandatory\<close> lists is present, \<open>no-default-alpn\<close> never stands without \<open>alpn\<close>, and the values of \<open>alpn\<close>,
  \<open>no-default-alpn\<close>, \<open>port\<close> and the address hints have the format of their key.
\<close>

theorem https_records_well_formed:
  assumes "dnsRdata 65 name echConfigs targetPort = Ok (Some d)"
    and "\<forall>n l. echConfigs n = Some l \<longrightarrow> length l \<le> 65498"
  shows "\<exists>r. decodeSvcb d = Some r \<and> svcbWellFormed r"
proof (cases "svcParamFixture (bareName name) targetPort")
  case None
  with assms obtain l where l: "d = httpsRecord l targetPort" "length l < 65536"
    by (fastforce simp: dnsRdata_def split: option.splits)
  then show ?thesis
    by (simp add: httpsRecord_decodes ordinaryParams_well_formed)
next
  case (Some r)
  with assms(1) have "d = r" by (simp add: dnsRdata_def)
  with Some svcParamFixture_decodes(1) have "decodeSvcb d = fixtureSvcb (bareName name) targetPort"
    by blast
  moreover from Some have "fixtureSvcb (bareName name) targetPort \<noteq> None"
    using svcParamFixture_decodes(2) by (metis option.distinct(1))
  ultimately show ?thesis
    using fixtureSvcb_well_formed by force
qed

lemma https_records_well_formed_witness:
  "\<exists>d r. dnsRdata 65 ''mandatory.svcb.test'' (\<lambda>_. None) 8443 = Ok (Some d) \<and>
     decodeSvcb d = Some r \<and> svcbWellFormed r"
proof -
  have "bareName ''mandatory.svcb.test'' = ''mandatory.svcb.test''"
    by (simp add: bareName_def' numeral_3_eq_3)
  then obtain d where d: "dnsRdata 65 ''mandatory.svcb.test'' (\<lambda>_. None) 8443 = Ok (Some d)"
    by (simp add: dnsRdata_def svcParamFixture_def Let_def)
  from d https_records_well_formed [OF d] show ?thesis by auto
qed

end
