(* ===== verification/Base64.thy ===== *)
theory Base64
  imports Go_Prelude
begin

text \<open>
  The two base64 encodings the programs use: \<open>base64.StdEncoding\<close> (the \<open>/anything\<close> echo of
  a binary body, the ECH fixture's metadata and environment) and \<open>base64.RawURLEncoding\<close>
  (the \<open>dns\<close> parameter of a DoH \<open>GET\<close>).  The decoder ignores line breaks, and the offset
  of a \<open>CorruptInputError\<close> is the one Go reports, so the error text sent to a client is modelled
  too.  The round trip is proved once, in a locale that states what an alphabet has to satisfy.
\<close>

record encoding =
  alphabet :: string
  padChar :: "char option"

definition StdEncoding :: encoding where
  "StdEncoding = \<lparr>
     alphabet = ''ABCDEFGHIJKLMNOPQRSTUVWXYZabcdefghijklmnopqrstuvwxyz0123456789+/'',
     padChar = Some (CHR ''='')\<rparr>"

definition RawURLEncoding :: encoding where
  "RawURLEncoding = \<lparr>
     alphabet = ''ABCDEFGHIJKLMNOPQRSTUVWXYZabcdefghijklmnopqrstuvwxyz0123456789-_'',
     padChar = None\<rparr>"

definition encodeChar :: "encoding \<Rightarrow> nat \<Rightarrow> char" where
  "encodeChar enc d = alphabet enc ! d"

definition decodeChar :: "encoding \<Rightarrow> char \<Rightarrow> nat option" where
  "decodeChar enc c =
     (if c \<in> set (alphabet enc) then Some (length (takeWhile (\<lambda>x. x \<noteq> c) (alphabet enc))) else None)"

definition padding :: "encoding \<Rightarrow> nat \<Rightarrow> string" where
  "padding enc k = (case padChar enc of None \<Rightarrow> [] | Some p \<Rightarrow> replicate k p)"

text \<open>The sextets of up to three bytes, and the bytes of four sextets.\<close>

definition sextet0 :: "byte \<Rightarrow> nat" where "sextet0 b0 = unat b0 div 4"
definition sextet1 :: "byte \<Rightarrow> nat \<Rightarrow> nat" where "sextet1 b0 n1 = (unat b0 mod 4) * 16 + n1 div 16"
definition sextet2 :: "nat \<Rightarrow> nat \<Rightarrow> nat" where "sextet2 n1 n2 = (n1 mod 16) * 4 + n2 div 64"
definition sextet3 :: "byte \<Rightarrow> nat" where "sextet3 b2 = unat b2 mod 64"

definition byte0 :: "nat \<Rightarrow> nat \<Rightarrow> byte" where "byte0 d0 d1 = word_of_nat (d0 * 4 + d1 div 16)"
definition byte1 :: "nat \<Rightarrow> nat \<Rightarrow> byte" where "byte1 d1 d2 = word_of_nat ((d1 mod 16) * 16 + d2 div 4)"
definition byte2 :: "nat \<Rightarrow> nat \<Rightarrow> byte" where "byte2 d2 d3 = word_of_nat ((d2 mod 4) * 64 + d3)"

fun encodeToString :: "encoding \<Rightarrow> byte list \<Rightarrow> string" where
  "encodeToString enc [] = []"
| "encodeToString enc [b0] =
     [encodeChar enc (sextet0 b0), encodeChar enc (sextet1 b0 0)] @ padding enc 2"
| "encodeToString enc [b0, b1] =
     [encodeChar enc (sextet0 b0), encodeChar enc (sextet1 b0 (unat b1)),
      encodeChar enc (sextet2 (unat b1) 0)] @ padding enc 1"
| "encodeToString enc (b0 # b1 # b2 # bs) =
     [encodeChar enc (sextet0 b0), encodeChar enc (sextet1 b0 (unat b1)),
      encodeChar enc (sextet2 (unat b1) (unat b2)), encodeChar enc (sextet3 b2)]
     @ encodeToString enc bs"

text \<open>
  One quantum after another, over the characters that are not line breaks, each with its offset
  in the source text.  \<open>n\<close> is the length of that text.  An \<^const>\<open>Err\<close> carries the offset of
  the \<open>CorruptInputError\<close>.
\<close>

fun decodeQuanta :: "encoding \<Rightarrow> nat \<Rightarrow> (nat \<times> char) list \<Rightarrow> (nat, byte list) result" where
  "decodeQuanta enc n [] = Ok []"
| "decodeQuanta enc n [(i0, c0)] =
     (case decodeChar enc c0 of None \<Rightarrow> Err i0 | Some _ \<Rightarrow> Err (n - 1))"
| "decodeQuanta enc n [(i0, c0), (i1, c1)] =
     (case decodeChar enc c0 of None \<Rightarrow> Err i0 | Some d0 \<Rightarrow>
      (case decodeChar enc c1 of None \<Rightarrow> Err i1 | Some d1 \<Rightarrow>
       (if padChar enc = None then Ok [byte0 d0 d1] else Err (n - 2))))"
| "decodeQuanta enc n [(i0, c0), (i1, c1), (i2, c2)] =
     (case decodeChar enc c0 of None \<Rightarrow> Err i0 | Some d0 \<Rightarrow>
      (case decodeChar enc c1 of None \<Rightarrow> Err i1 | Some d1 \<Rightarrow>
       (case decodeChar enc c2 of
          None \<Rightarrow> Err (if padChar enc = Some c2 then n else i2)
        | Some d2 \<Rightarrow>
            (if padChar enc = None then Ok [byte0 d0 d1, byte1 d1 d2] else Err (n - 3)))))"
| "decodeQuanta enc n ((i0, c0) # (i1, c1) # (i2, c2) # (i3, c3) # rest) =
     (case decodeChar enc c0 of None \<Rightarrow> Err i0 | Some d0 \<Rightarrow>
      (case decodeChar enc c1 of None \<Rightarrow> Err i1 | Some d1 \<Rightarrow>
       (case decodeChar enc c2 of
          None \<Rightarrow>
            (if padChar enc = Some c2
             then (if padChar enc = Some c3
                   then (case rest of [] \<Rightarrow> Ok [byte0 d0 d1] | (i4, _) # _ \<Rightarrow> Err i4)
                   else Err (i3 - 1))
             else Err i2)
        | Some d2 \<Rightarrow>
            (case decodeChar enc c3 of
               None \<Rightarrow>
                 (if padChar enc = Some c3
                  then (case rest of [] \<Rightarrow> Ok [byte0 d0 d1, byte1 d1 d2] | (i4, _) # _ \<Rightarrow> Err i4)
                  else Err i3)
             | Some d3 \<Rightarrow>
                 (case decodeQuanta enc n rest of
                    Ok bs \<Rightarrow> Ok (byte0 d0 d1 # byte1 d1 d2 # byte2 d2 d3 # bs)
                  | Err e \<Rightarrow> Err e
                  | Panic \<Rightarrow> Panic)))))"

definition isBreak :: "char \<Rightarrow> bool" where
  "isBreak c \<longleftrightarrow> of_char c = (10 :: nat) \<or> of_char c = (13 :: nat)"

definition decodeString :: "encoding \<Rightarrow> string \<Rightarrow> (nat, byte list) result" where
  "decodeString enc s =
     decodeQuanta enc (length s) (filter (\<lambda>(_, c). \<not> isBreak c) (zip [0..<length s] s))"

definition corruptInputError :: "nat \<Rightarrow> string" where
  "corruptInputError i = ''illegal base64 data at input byte '' @ formatNat i"

subsection \<open>Sextets and bytes\<close>

lemma unat_byte_less [simp]: "unat (b :: byte) < 256"
  using unsigned_less [of b] by simp

lemma sextet_bounds [simp]:
  "sextet0 b0 < 64"
  "n1 < 256 \<Longrightarrow> sextet1 b0 n1 < 64"
  "n2 < 256 \<Longrightarrow> sextet2 n1 n2 < 64"
  "sextet3 b2 < 64"
proof -
  show "sextet0 b0 < 64"
    unfolding sextet0_def using unat_byte_less [of b0] by arith
  show "n1 < 256 \<Longrightarrow> sextet1 b0 n1 < 64"
  proof -
    assume "n1 < 256"
    then have "n1 div 16 < 16" and "unat b0 mod 4 < 4" by arith simp
    then show ?thesis unfolding sextet1_def by arith
  qed
  show "n2 < 256 \<Longrightarrow> sextet2 n1 n2 < 64"
  proof -
    assume "n2 < 256"
    then have "n2 div 64 < 4" and "n1 mod 16 < 16" by arith simp
    then show ?thesis unfolding sextet2_def by arith
  qed
  show "sextet3 b2 < 64"
    unfolding sextet3_def by simp
qed

lemma byte0_sextets: "n1 < 256 \<Longrightarrow> byte0 (sextet0 b0) (sextet1 b0 n1) = b0"
proof -
  assume "n1 < 256"
  then have "n1 div 16 < 16" by arith
  then have "sextet1 b0 n1 div 16 = unat b0 mod 4"
    by (simp add: sextet1_def)
  then have "sextet0 b0 * 4 + sextet1 b0 n1 div 16 = unat b0"
    by (simp add: sextet0_def)
  then show ?thesis by (simp add: byte0_def)
qed

lemma byte1_sextets:
  "n2 < 256 \<Longrightarrow> byte1 (sextet1 b0 (unat b1)) (sextet2 (unat b1) n2) = b1"
proof -
  assume "n2 < 256"
  then have "n2 div 64 < 4" by arith
  then have two: "sextet2 (unat b1) n2 div 4 = unat b1 mod 16"
    by (simp add: sextet2_def)
  have "unat b1 div 16 < 16" using unat_byte_less [of b1] by arith
  then have "sextet1 b0 (unat b1) mod 16 = unat b1 div 16"
    by (simp add: sextet1_def)
  with two have "(sextet1 b0 (unat b1) mod 16) * 16 + sextet2 (unat b1) n2 div 4 = unat b1"
    by simp
  then show ?thesis by (simp add: byte1_def)
qed

lemma byte2_sextets: "byte2 (sextet2 n1 (unat b2)) (sextet3 b2) = b2"
proof -
  have "unat b2 div 64 < 4" using unat_byte_less [of b2] by arith
  then have "sextet2 n1 (unat b2) mod 4 = unat b2 div 64"
    by (simp add: sextet2_def)
  then have "(sextet2 n1 (unat b2) mod 4) * 64 + sextet3 b2 = unat b2"
    by (simp add: sextet3_def)
  then show ?thesis by (simp add: byte2_def)
qed

lemmas sextets_inverse = byte0_sextets byte1_sextets byte2_sextets

lemma list_induct_three [case_names Nil One Two Three]:
  assumes "P []" and "\<And>a. P [a]" and "\<And>a b. P [a, b]"
    and "\<And>a b c xs. P xs \<Longrightarrow> P (a # b # c # xs)"
  shows "P xs"
proof (induction xs rule: length_induct)
  case (1 xs)
  consider "xs = []" | a where "xs = [a]" | a b where "xs = [a, b]"
    | a b c ys where "xs = a # b # c # ys"
    by (metis list.exhaust)
  then show ?case
    by cases (use 1 assms in auto)
qed

subsection \<open>What an alphabet has to satisfy, and the round trip\<close>

locale base64_alphabet =
  fixes enc :: encoding
  assumes alphabet_distinct: "distinct (alphabet enc)"
    and alphabet_length: "length (alphabet enc) = 64"
    and alphabet_no_break: "list_all (\<lambda>c. \<not> isBreak c) (alphabet enc)"
    and pad_no_break: "padChar enc = Some p \<Longrightarrow> \<not> isBreak p"
    and pad_not_in_alphabet: "padChar enc = Some p \<Longrightarrow> p \<notin> set (alphabet enc)"
begin

lemma decodeChar_encodeChar [simp]: "d < 64 \<Longrightarrow> decodeChar enc (encodeChar enc d) = Some d"
proof -
  assume "d < 64"
  then have d: "d < length (alphabet enc)" by (simp add: alphabet_length)
  then obtain xs ys where alph: "alphabet enc = xs @ encodeChar enc d # ys" and "length xs = d"
    using id_take_nth_drop [OF d] by (force simp: encodeChar_def)
  moreover from alph alphabet_distinct have "encodeChar enc d \<notin> set xs" by simp
  then have "takeWhile (\<lambda>x. x \<noteq> encodeChar enc d) (xs @ encodeChar enc d # ys) = xs"
    by (subst takeWhile_append2) auto
  ultimately show ?thesis
    by (simp add: decodeChar_def)
qed

lemma encodeChar_no_break: "d < 64 \<Longrightarrow> \<not> isBreak (encodeChar enc d)"
  using alphabet_no_break alphabet_length by (simp add: encodeChar_def list_all_iff)

lemma padding_no_break: "c \<in> set (padding enc k) \<Longrightarrow> \<not> isBreak c"
  by (auto simp: padding_def pad_no_break split: option.splits)

lemma decodeChar_pad [simp]: "padChar enc = Some p \<Longrightarrow> decodeChar enc p = None"
  by (simp add: decodeChar_def pad_not_in_alphabet)

lemma encodeToString_no_break: "list_all (\<lambda>c. \<not> isBreak c) (encodeToString enc bs)"
  by (induction bs rule: list_induct_three)
    (auto simp: list_all_iff encodeChar_no_break padding_no_break)

lemma decodeQuanta_encode:
  "length ns = length (encodeToString enc bs) \<Longrightarrow>
   decodeQuanta enc n (zip ns (encodeToString enc bs)) = Ok bs"
proof (induction bs arbitrary: ns rule: list_induct_three)
  case Nil
  then show ?case by simp
next
  case (One b0)
  then show ?case
    by (cases "padChar enc") (auto simp: padding_def length_Suc_conv numeral_2_eq_2 byte0_sextets)
next
  case (Two b0 b1)
  then show ?case
    by (cases "padChar enc") (auto simp: padding_def length_Suc_conv byte0_sextets byte1_sextets)
next
  case (Three b0 b1 b2 bs)
  then show ?case
    by (auto simp: length_Suc_conv sextets_inverse)
qed

lemma decode_encode: "decodeString enc (encodeToString enc bs) = Ok bs"
proof -
  let ?s = "encodeToString enc bs"
  have "filter (\<lambda>(_, c). \<not> isBreak c) (zip [0..<length ?s] ?s) = zip [0..<length ?s] ?s"
    using encodeToString_no_break [of bs]
    by (auto simp: filter_id_conv list_all_iff dest: set_zip_rightD)
  then show ?thesis
    by (simp add: decodeString_def decodeQuanta_encode)
qed

lemma encodeToString_inject: "encodeToString enc bs = encodeToString enc cs \<longleftrightarrow> bs = cs"
  by (metis decode_encode result.inject(1))

end

interpretation std: base64_alphabet StdEncoding
  by unfold_locales (auto simp: StdEncoding_def isBreak_def)

interpretation rawurl: base64_alphabet RawURLEncoding
  by unfold_locales (auto simp: RawURLEncoding_def isBreak_def)

text \<open>Decoding never panics: every path of \<open>decodeQuantum\<close> ends in bytes or in an offset.\<close>

lemma decodeQuanta_no_panic: "decodeQuanta enc n cs \<noteq> Panic"
  by (induction enc n cs rule: decodeQuanta.induct)
    (auto split: option.splits list.splits result.splits)

lemma decodeString_no_panic [simp]: "decodeString enc s \<noteq> Panic"
  by (simp add: decodeString_def decodeQuanta_no_panic)

end
