(* ===== verification/X509.thy ===== *)
theory X509
  imports Go_Prelude
begin

text \<open>
  Certificates, symbolically: what the minting code of both programs puts into an
  \<open>x509.Certificate\<close>, with a key pair identified by a number, and the path validation a client
  performs on the result.  The operations of \<open>crypto/x509\<close> that the sources call are modelled by
  what they check and record (\<open>CreateCertificate\<close> fails when the signing key is not the
  parent's, \<open>X509KeyPair\<close> when the key is not the leaf's); the encodings themselves are left out.

  Randomness is a supply of draws, threaded through the code by the state-and-error functions
  \<open>bindM\<close> and \<open>returnM\<close>; a supply that has run out is the entropy source failing.
\<close>

type_synonym key = nat
type_synonym time = int

record entropy =
  keyDraws :: "key list"
  serialDraws :: "int list"

type_synonym 'a mint = "entropy \<Rightarrow> (string, 'a \<times> entropy) result"

definition returnM :: "'a \<Rightarrow> 'a mint" where
  "returnM a = (\<lambda>s. Ok (a, s))"

definition failM :: "string \<Rightarrow> 'a mint" where
  "failM e = (\<lambda>s. Err e)"

definition bindM :: "'a mint \<Rightarrow> ('a \<Rightarrow> 'b mint) \<Rightarrow> 'b mint" where
  "bindM m f = (\<lambda>s. case m s of Ok (a, s') \<Rightarrow> f a s' | Err e \<Rightarrow> Err e | Panic \<Rightarrow> Panic)"

subsection \<open>Dates\<close>

text \<open>
  \<open>time.Time\<close> in UTC as seconds since 1970.  \<open>AddDate\<close> works on the calendar: one year later is
  the same month and day (the first of March for the 29th of February).  Counting years from
  March, the day number of the first day of year \<open>y\<close> is \<open>yearStart y\<close>, and moving by one year
  moves by the length of that year.
\<close>

definition yearStart :: "int \<Rightarrow> int" where
  "yearStart y = 365 * y + y div 4 - y div 100 + y div 400 - 719468"

definition marchYear :: "int \<Rightarrow> int" where
  "marchYear day =
     (let z = day + 719468; era = z div 146097; doe = z mod 146097
      in (doe - doe div 1460 + doe div 36524 - doe div 146096) div 365 + era * 400)"

definition addYear :: "int \<Rightarrow> int" where
  "addYear day = day - yearStart (marchYear day) + yearStart (marchYear day + 1)"

definition addDate1y :: "time \<Rightarrow> time" where
  "addDate1y t = addYear (t div 86400) * 86400 + t mod 86400"

definition addDays :: "int \<Rightarrow> time \<Rightarrow> time" where
  "addDays d t = t + d * 86400"

lemma year_sum:
  fixes a b c a' b' c' y k :: int
  shows "a \<le> a' \<Longrightarrow> b' \<le> b + 1 \<Longrightarrow> c \<le> c' \<Longrightarrow>
    365 * y + a - b + c - k + 364 \<le> 365 * (y + 1) + a' - b' + c' - k"
  by (simp add: algebra_simps)

lemma day_sum: "(d :: int) + 364 \<le> e \<Longrightarrow> (d * 86400 + m) + 364 * 86400 \<le> e * 86400 + m"
  by linarith

lemma yearStart_step: "yearStart y + 364 \<le> yearStart (y + 1)"
  unfolding yearStart_def
proof (rule year_sum)
  show "y div 4 \<le> (y + 1) div 4" and "y div 400 \<le> (y + 1) div 400"
    by (simp_all add: zdiv_mono1)
  have "(y + 1) div 100 \<le> (y + 100) div 100"
    by (rule zdiv_mono1) simp_all
  then show "(y + 1) div 100 \<le> y div 100 + 1" by simp
qed

lemma addDate1y_later: "t + 364 * 86400 \<le> addDate1y t"
proof -
  have "t div 86400 + 364 \<le> addYear (t div 86400)"
    using yearStart_step [of "marchYear (t div 86400)"] by (simp add: addYear_def)
  from day_sum [OF this, of "t mod 86400"] show ?thesis
    unfolding addDate1y_def by (simp only: div_mult_mod_eq)
qed

text \<open>29 February 2028 (day 21243) plus a year is 1 March 2029; 15 March 2027 plus a year crosses a leap day.\<close>

lemma addYear_examples: "addYear 21243 = 21609" "addYear 20892 = 21258" "addYear 0 = 365"
  by (simp_all add: addYear_def yearStart_def marchYear_def Let_def)

subsection \<open>Templates and certificates\<close>

datatype keyUsage = KeyUsageDigitalSignature | KeyUsageKeyEncipherment | KeyUsageCertSign

datatype extKeyUsage = ExtKeyUsageServerAuth | ExtKeyUsageClientAuth

record template =
  serialNumber :: int
  subjectCN :: string
  notBefore :: time
  notAfter :: time
  keyUsages :: "keyUsage list"
  extKeyUsages :: "extKeyUsage list"
  dnsNames :: "string list"
  ipAddresses :: "string list"
  basicConstraintsValid :: bool
  isCA :: bool
  maxPathLenZero :: bool

text \<open>A signed certificate: the template's contents, its key, and who signed it.\<close>

record certificate =
  contents :: template
  publicKey :: key
  issuerCN :: string
  signedBy :: key

text \<open>
  \<open>x509.CreateCertificate(rand, template, parent, pub, priv)\<close>.  A parent that was parsed from a
  certificate carries a public key, which has to be the signing key's; a parent that is the
  template itself carries none.  Only a CA may limit the length of paths (\<open>MaxPathLen\<close> is zero
  throughout, and counts as set when \<open>MaxPathLenZero\<close> is).
\<close>

datatype parent = Self | Issuer certificate

definition createCertificate :: "template \<Rightarrow> parent \<Rightarrow> key \<Rightarrow> key \<Rightarrow> certificate mint" where
  "createCertificate t p pub priv =
     (if basicConstraintsValid t \<and> \<not> isCA t \<and> maxPathLenZero t then
        failM ''x509: only CAs are allowed to specify MaxPathLen''
      else case p of
        Self \<Rightarrow> returnM \<lparr>contents = t, publicKey = pub, issuerCN = subjectCN t, signedBy = priv\<rparr>
      | Issuer c \<Rightarrow>
          (if publicKey c \<noteq> priv then
             failM ''x509: provided PrivateKey doesn't match parent's PublicKey''
           else returnM \<lparr>contents = t, publicKey = pub, issuerCN = subjectCN (contents c), signedBy = priv\<rparr>))"

text \<open>\<open>tls.Certificate\<close>: the chain as it is served, and the key.\<close>

record tlsCertificate =
  chain :: "certificate list"
  privateKey :: key

definition x509KeyPair :: "certificate \<Rightarrow> key \<Rightarrow> tlsCertificate mint" where
  "x509KeyPair c k =
     (if publicKey c \<noteq> k then failM ''tls: private key does not match public key''
      else returnM \<lparr>chain = [c], privateKey = k\<rparr>)"

text \<open>PEM blocks, as \<open>pem.EncodeToMemory\<close> writes them one after another.\<close>

datatype pemBlock =
    CertificateBlock certificate  \<comment> \<open>\<open>BEGIN CERTIFICATE\<close>\<close>
  | PKCS8Block key                \<comment> \<open>\<open>BEGIN PRIVATE KEY\<close>\<close>

subsection \<open>Specification: what a client checks\<close>

datatype objection = OutsideValidity | HostMismatch | NoPath

definition validAt :: "time \<Rightarrow> certificate \<Rightarrow> bool" where
  "validAt now c \<longleftrightarrow> notBefore (contents c) \<le> now \<and> now \<le> notAfter (contents c)"

definition covers :: "certificate \<Rightarrow> string \<Rightarrow> bool" where
  "covers c host \<longleftrightarrow> host \<in> set (dnsNames (contents c)) \<or> host \<in> set (ipAddresses (contents c))"

definition signs :: "certificate \<Rightarrow> certificate \<Rightarrow> bool" where
  "signs i c \<longleftrightarrow> isCA (contents i) \<and> KeyUsageCertSign \<in> set (keyUsages (contents i)) \<and>
     subjectCN (contents i) = issuerCN c \<and> publicKey i = signedBy c"

text \<open>
  A path from \<open>c\<close> to one of the \<open>roots\<close> over the \<open>intermediates\<close>, at most \<open>fuel\<close> signatures long;
  every certificate above the leaf is in its validity period.
\<close>

fun hasPath :: "nat \<Rightarrow> certificate list \<Rightarrow> certificate list \<Rightarrow> time \<Rightarrow> certificate \<Rightarrow> bool" where
  "hasPath 0 roots intermediates now c = (c \<in> set roots)"
| "hasPath (Suc n) roots intermediates now c =
     (c \<in> set roots \<or>
      list_ex (\<lambda>r. validAt now r \<and> signs r c) roots \<or>
      list_ex (\<lambda>i. validAt now i \<and> signs i c \<and> hasPath n roots intermediates now i) intermediates)"

text \<open>Everything a client trusting \<open>roots\<close> objects to in a served chain; no objection is acceptance.\<close>

definition objections :: "nat \<Rightarrow> certificate list \<Rightarrow> time \<Rightarrow> string \<Rightarrow> tlsCertificate \<Rightarrow> objection list" where
  "objections n roots now host tc =
     (case chain tc of
        [] \<Rightarrow> [NoPath]
      | leaf # intermediates \<Rightarrow>
          (if validAt now leaf then [] else [OutsideValidity]) @
          (if covers leaf host then [] else [HostMismatch]) @
          (if hasPath n roots intermediates now leaf then [] else [NoPath]))"

lemma bindM_Ok:
  "bindM m f s = Ok (b, s'') \<longleftrightarrow> (\<exists>a s'. m s = Ok (a, s') \<and> f a s' = Ok (b, s''))"
  by (auto simp: bindM_def split: result.splits)

lemma returnM_Ok [simp]: "returnM a s = Ok (b, s') \<longleftrightarrow> b = a \<and> s' = s"
  by (auto simp: returnM_def)

lemma failM_Ok [simp]: "failM e s \<noteq> Ok x"
  by (simp add: failM_def)

lemma createCertificate_Ok:
  "createCertificate t p pub priv s = Ok (c, s') \<longleftrightarrow>
   \<not> (basicConstraintsValid t \<and> \<not> isCA t \<and> maxPathLenZero t) \<and> s' = s \<and>
   (case p of Self \<Rightarrow> c = \<lparr>contents = t, publicKey = pub, issuerCN = subjectCN t, signedBy = priv\<rparr>
    | Issuer i \<Rightarrow> publicKey i = priv \<and>
        c = \<lparr>contents = t, publicKey = pub, issuerCN = subjectCN (contents i), signedBy = priv\<rparr>)"
  by (auto simp: createCertificate_def split: parent.splits)

lemma x509KeyPair_Ok:
  "x509KeyPair c k s = Ok (tc, s') \<longleftrightarrow> publicKey c = k \<and> s' = s \<and> tc = \<lparr>chain = [c], privateKey = k\<rparr>"
  by (auto simp: x509KeyPair_def)

lemmas mint_simps = bindM_Ok createCertificate_Ok x509KeyPair_Ok

end
