(* ===== verification/Certs.thy ===== *)
theory Certs
  imports X509 "HOL-Library.Sublist"
begin

text \<open>
  The certificates of \<open>test-server\<close>: \<open>loadCertificates\<close>, \<open>certHosts\<close>, \<open>newCA\<close>, \<open>newLeafWith\<close>,
  \<open>newClientIdentity\<close> (\<open>tls.go\<close>), \<open>newBadChains\<close> and \<open>newIntermediate\<close> (\<open>badchains.go\<close>).
  \<open>time.Now()\<close> is the argument \<open>now\<close>: one reading for one run of the minting code.
  \<open>isIP host\<close> is \<open>net.ParseIP(host) != nil\<close> and \<open>loadX509KeyPair\<close> reads the two files of a
  supplied certificate.
\<close>

subsection \<open>The environment\<close>

type_synonym environ = "string \<Rightarrow> string option"

definition env :: "environ \<Rightarrow> string \<Rightarrow> string \<Rightarrow> string" where
  "env e name fallback = (case e name of Some value \<Rightarrow> trimSpace value | None \<Rightarrow> fallback)"

definition certHosts :: "environ \<Rightarrow> string list" where
  "certHosts e =
     [''localhost'', ''127.0.0.1'', ''::1'']
     @ filter (\<lambda>host. host \<noteq> []) (map trimSpace (split (CHR '','') (env e ''CERT_HOSTS'' [])))"

subsection \<open>Minting\<close>

definition newKey :: "key mint" where
  "newKey s =
     (case keyDraws s of [] \<Rightarrow> Err ''entropy'' | k # ks \<Rightarrow> Ok (k, s\<lparr>keyDraws := ks\<rparr>))"

definition newSerialNumber :: "int mint" where
  "newSerialNumber s =
     (case serialDraws s of [] \<Rightarrow> Panic | n # ns \<Rightarrow> Ok (n mod 2 ^ 128, s\<lparr>serialDraws := ns\<rparr>))"

definition newCA :: "time \<Rightarrow> (certificate \<times> key \<times> pemBlock list) mint" where
  "newCA now =
     bindM newKey (\<lambda>key.
     bindM newSerialNumber (\<lambda>serial.
     let t = \<lparr>serialNumber = serial, subjectCN = ''okhttp-testbed test-server CA'',
              notBefore = now - 3600, notAfter = addDate1y now,
              keyUsages = [KeyUsageCertSign, KeyUsageDigitalSignature], extKeyUsages = [],
              dnsNames = [], ipAddresses = [],
              basicConstraintsValid = True, isCA = True, maxPathLenZero = False\<rparr>
     in bindM (createCertificate t Self key key) (\<lambda>cert.
        returnM (cert, key, [CertificateBlock cert]))))"

text \<open>The zero \<open>time.Time\<close> of a \<open>leafOptions\<close> field is \<^const>\<open>None\<close>.\<close>

record leafOptions =
  optHosts :: "string list"
  optNotBefore :: "time option"
  optNotAfter :: "time option"

definition leafTemplate :: "(string \<Rightarrow> bool) \<Rightarrow> time \<Rightarrow> int \<Rightarrow> string \<Rightarrow> leafOptions \<Rightarrow> template" where
  "leafTemplate isIP now serial host0 opts =
     \<lparr>serialNumber = serial, subjectCN = host0,
      notBefore = (case optNotBefore opts of None \<Rightarrow> now - 3600 | Some nb \<Rightarrow> nb),
      notAfter = (case optNotAfter opts of None \<Rightarrow> addDate1y now | Some na \<Rightarrow> na),
      keyUsages = [KeyUsageDigitalSignature, KeyUsageKeyEncipherment],
      extKeyUsages = [ExtKeyUsageServerAuth],
      dnsNames = filter (\<lambda>h. \<not> isIP h) (optHosts opts),
      ipAddresses = filter isIP (optHosts opts),
      basicConstraintsValid = False, isCA = False, maxPathLenZero = False\<rparr>"

text \<open>\<open>opts.hosts[0]\<close> panics when no host is given; a nil issuer means the leaf signs itself.\<close>

definition newLeafWith ::
    "(string \<Rightarrow> bool) \<Rightarrow> time \<Rightarrow> (certificate \<times> key) option \<Rightarrow> leafOptions \<Rightarrow> tlsCertificate mint" where
  "newLeafWith isIP now ca opts =
     bindM newKey (\<lambda>key.
     bindM newSerialNumber (\<lambda>serial.
     case optHosts opts of
       [] \<Rightarrow> (\<lambda>_. Panic)
     | host0 # _ \<Rightarrow>
       (let t = leafTemplate isIP now serial host0 opts;
            issuer = (case ca of None \<Rightarrow> Self | Some (c, _) \<Rightarrow> Issuer c);
            issuerKey = (case ca of None \<Rightarrow> key | Some (_, k) \<Rightarrow> k)
        in bindM (createCertificate t issuer key issuerKey) (\<lambda>der. x509KeyPair der key))))"

definition newLeaf ::
    "(string \<Rightarrow> bool) \<Rightarrow> time \<Rightarrow> certificate \<Rightarrow> key \<Rightarrow> string list \<Rightarrow> tlsCertificate mint" where
  "newLeaf isIP now caCert caKey hosts =
     newLeafWith isIP now (Some (caCert, caKey))
       \<lparr>optHosts = hosts, optNotBefore = None, optNotAfter = None\<rparr>"

definition newClientIdentity :: "time \<Rightarrow> certificate \<Rightarrow> key \<Rightarrow> pemBlock list mint" where
  "newClientIdentity now caCert caKey =
     bindM newKey (\<lambda>key.
     bindM newSerialNumber (\<lambda>serial.
     let t = \<lparr>serialNumber = serial, subjectCN = ''okhttp-testbed client'',
              notBefore = now - 3600, notAfter = addDate1y now,
              keyUsages = [KeyUsageDigitalSignature], extKeyUsages = [ExtKeyUsageClientAuth],
              dnsNames = [], ipAddresses = [],
              basicConstraintsValid = False, isCA = False, maxPathLenZero = False\<rparr>
     in bindM (createCertificate t (Issuer caCert) key caKey) (\<lambda>der.
        returnM ([CertificateBlock der] @ [PKCS8Block key]))))"

definition newIntermediate :: "time \<Rightarrow> certificate \<Rightarrow> key \<Rightarrow> (certificate \<times> key) mint" where
  "newIntermediate now caCert caKey =
     bindM newKey (\<lambda>key.
     bindM newSerialNumber (\<lambda>serial.
     let t = \<lparr>serialNumber = serial, subjectCN = ''okhttp-testbed test-server intermediate'',
              notBefore = now - 3600, notAfter = addDate1y now,
              keyUsages = [KeyUsageCertSign, KeyUsageDigitalSignature], extKeyUsages = [],
              dnsNames = [], ipAddresses = [],
              basicConstraintsValid = True, isCA = True, maxPathLenZero = True\<rparr>
     in bindM (createCertificate t (Issuer caCert) key caKey) (\<lambda>cert. returnM (cert, key))))"

subsection \<open>The chains that must be rejected\<close>

record badChain =
  chainName :: string
  why :: string
  served :: tlsCertificate
  withheld :: "pemBlock list"

definition newBadChains ::
    "(string \<Rightarrow> bool) \<Rightarrow> time \<Rightarrow> certificate \<Rightarrow> key \<Rightarrow> string list \<Rightarrow> badChain list mint" where
  "newBadChains isIP now caCert caKey hosts =
     (let plain = (\<lambda>hs. \<lparr>optHosts = hs, optNotBefore = None, optNotAfter = None\<rparr>) in
     bindM (newCA now) (\<lambda>(untrustedCA, untrustedKey, _).
     bindM (newIntermediate now caCert caKey) (\<lambda>(intermediate, intermediateKey).
     bindM (newLeafWith isIP now (Some (caCert, caKey))
              \<lparr>optHosts = hosts, optNotBefore = Some (addDays (- 30) now),
               optNotAfter = Some (addDays (- 1) now)\<rparr>) (\<lambda>expired.
     bindM (newLeafWith isIP now (Some (caCert, caKey)) (plain [''wrong.host.invalid''])) (\<lambda>wrongHost.
     bindM (newLeafWith isIP now None (plain hosts)) (\<lambda>selfSigned.
     bindM (newLeafWith isIP now (Some (untrustedCA, untrustedKey)) (plain hosts)) (\<lambda>untrustedRoot.
     bindM (newLeafWith isIP now (Some (intermediate, intermediateKey)) (plain hosts)) (\<lambda>incomplete.
     returnM
       [\<lparr>chainName = ''expired'',
         why = ''the leaf expired yesterday; everything else about it is correct'',
         served = expired, withheld = []\<rparr>,
        \<lparr>chainName = ''wrong-host'',
         why = ''a valid chain for wrong.host.invalid, served on a name it does not cover'',
         served = wrongHost, withheld = []\<rparr>,
        \<lparr>chainName = ''self-signed'',
         why = ''the leaf is its own issuer, so there is no path to any anchor'',
         served = selfSigned, withheld = []\<rparr>,
        \<lparr>chainName = ''untrusted-root'',
         why = ''signed by a second CA this server mints and never publishes at /ca.pem'',
         served = untrustedRoot, withheld = []\<rparr>,
        \<lparr>chainName = ''incomplete-chain'',
         why = ''signed by an intermediate the server holds back, so the path cannot be built'',
         served = incomplete, withheld = [CertificateBlock intermediate]\<rparr>]))))))))"

subsection \<open>\<open>loadCertificates\<close>\<close>

record certificates =
  leaf :: tlsCertificate
  caPEM :: "pemBlock list"
  selfMade :: bool
  hosts :: "string list"
  badChains :: "badChain list"
  clientPEM :: "pemBlock list"
  clientCAs :: "certificate list option"

definition loadCertificates ::
    "(string \<Rightarrow> string \<Rightarrow> (string, tlsCertificate) result) \<Rightarrow> (string \<Rightarrow> bool) \<Rightarrow> time \<Rightarrow> environ
     \<Rightarrow> certificates mint" where
  "loadCertificates loadX509KeyPair isIP now e =
     (let hs = certHosts e;
          certFile = env e ''TLS_CERT_FILE'' [];
          keyFile = env e ''TLS_KEY_FILE'' []
      in if (certFile = []) \<noteq> (keyFile = []) then
           failM ''TLS_CERT_FILE and TLS_KEY_FILE must be set together''
         else if certFile \<noteq> [] then
           (case loadX509KeyPair certFile keyFile of
              Err err \<Rightarrow> failM err
            | Panic \<Rightarrow> (\<lambda>_. Panic)
            | Ok l \<Rightarrow>
                returnM \<lparr>leaf = l, caPEM = [], selfMade = False, hosts = hs, badChains = [],
                         clientPEM = [], clientCAs = None\<rparr>)
         else
           bindM (newCA now) (\<lambda>(caCert, caKey, pem).
           bindM (newLeaf isIP now caCert caKey hs) (\<lambda>l.
           bindM (newBadChains isIP now caCert caKey hs) (\<lambda>bad.
           bindM (newClientIdentity now caCert caKey) (\<lambda>client.
           returnM \<lparr>leaf = l, caPEM = pem, selfMade = True, hosts = hs, badChains = bad,
                    clientPEM = client, clientCAs = Some [caCert]\<rparr>)))))"

subsection \<open>What each minting step leaves behind\<close>

lemma newKey_Ok: "newKey s = Ok (k, s') \<longleftrightarrow> keyDraws s = k # keyDraws s' \<and> s' = s\<lparr>keyDraws := keyDraws s'\<rparr>"
  by (auto simp: newKey_def split: list.splits)

lemma newSerialNumber_Ok: "newSerialNumber s = Ok (n, s') \<Longrightarrow> keyDraws s' = keyDraws s"
  by (auto simp: newSerialNumber_def split: list.splits)

lemma newCA_Ok:
  assumes "newCA now s = Ok ((c, k, pem), s')"
  shows "keyDraws s = k # keyDraws s'" "publicKey c = k" "signedBy c = k" "pem = [CertificateBlock c]"
    "isCA (contents c)" "KeyUsageCertSign \<in> set (keyUsages (contents c))"
    "subjectCN (contents c) = ''okhttp-testbed test-server CA''"
    "notBefore (contents c) = now - 3600" "notAfter (contents c) = addDate1y now"
  using assms unfolding newCA_def Let_def
  by (auto simp: mint_simps newKey_Ok dest!: newSerialNumber_Ok)

lemma newIntermediate_Ok:
  assumes "newIntermediate now caCert caKey s = Ok ((c, k), s')"
  shows "keyDraws s = k # keyDraws s'" "publicKey c = k" "signedBy c = caKey" "publicKey caCert = caKey"
    "isCA (contents c)" "KeyUsageCertSign \<in> set (keyUsages (contents c))"
    "issuerCN c = subjectCN (contents caCert)"
    "subjectCN (contents c) = ''okhttp-testbed test-server intermediate''"
    "notBefore (contents c) = now - 3600" "notAfter (contents c) = addDate1y now"
  using assms unfolding newIntermediate_def Let_def
  by (auto simp: mint_simps newKey_Ok dest!: newSerialNumber_Ok)

lemma newLeafWith_Ok:
  assumes "newLeafWith isIP now ca opts s = Ok (tc, s')"
  obtains k c where "keyDraws s = k # keyDraws s'" "tc = \<lparr>chain = [c], privateKey = k\<rparr>" "publicKey c = k"
    "\<And>h. covers c h \<longleftrightarrow> h \<in> set (optHosts opts)"
    "notBefore (contents c) = (case optNotBefore opts of None \<Rightarrow> now - 3600 | Some nb \<Rightarrow> nb)"
    "notAfter (contents c) = (case optNotAfter opts of None \<Rightarrow> addDate1y now | Some na \<Rightarrow> na)"
    "case ca of None \<Rightarrow> signedBy c = k
      | Some (i, ik) \<Rightarrow> signedBy c = ik \<and> publicKey i = ik \<and> issuerCN c = subjectCN (contents i)"
proof -
  obtain host0 hs where h: "optHosts opts = host0 # hs"
    using assms by (cases "optHosts opts") (auto simp: newLeafWith_def bindM_Ok)
  from assms obtain k s1 serial s2 c s3 where draws: "newKey s = Ok (k, s1)" "newSerialNumber s1 = Ok (serial, s2)"
    and cert: "createCertificate (leafTemplate isIP now serial host0 opts)
        (case ca of None \<Rightarrow> Self | Some (c, _) \<Rightarrow> Issuer c) k (case ca of None \<Rightarrow> k | Some (_, k) \<Rightarrow> k) s2
        = Ok (c, s3)"
    and pair: "x509KeyPair c k s3 = Ok (tc, s')"
    by (auto simp: newLeafWith_def Let_def h bindM_Ok)
  from cert have s3: "s3 = s2" and c: "contents c = leafTemplate isIP now serial host0 opts" "publicKey c = k"
    and sig: "case ca of None \<Rightarrow> signedBy c = k
      | Some (i, ik) \<Rightarrow> signedBy c = ik \<and> publicKey i = ik \<and> issuerCN c = subjectCN (contents i)"
    by (auto simp: createCertificate_Ok split: option.splits)
  from pair have tc: "tc = \<lparr>chain = [c], privateKey = k\<rparr>" and s': "s' = s3"
    by (simp_all add: x509KeyPair_Ok)
  have "covers c host \<longleftrightarrow> host \<in> set (optHosts opts)" for host
    using c by (auto simp: covers_def leafTemplate_def)
  moreover from draws have "keyDraws s = k # keyDraws s'"
    using s3 s' by (simp add: newKey_Ok newSerialNumber_Ok)
  ultimately show thesis
    using c tc sig by (intro that) (auto simp: leafTemplate_def)
qed

lemma newClientIdentity_Ok:
  assumes "newClientIdentity now caCert caKey s = Ok (pem, s')"
  obtains k c where "keyDraws s = k # keyDraws s'" "pem = [CertificateBlock c, PKCS8Block k]"
    "publicKey c = k" "signedBy c = caKey" "publicKey caCert = caKey"
    "issuerCN c = subjectCN (contents caCert)" "extKeyUsages (contents c) = [ExtKeyUsageClientAuth]"
    "notBefore (contents c) = now - 3600" "notAfter (contents c) = addDate1y now"
  using assms unfolding newClientIdentity_def Let_def
  by (auto simp: mint_simps newKey_Ok dest!: newSerialNumber_Ok)

subsection \<open>The objections of a client that trusts the fixture CA\<close>

definition withinYear :: "time \<Rightarrow> time \<Rightarrow> bool" where
  "withinYear now t \<longleftrightarrow> now \<le> t \<and> t \<le> now + 364 * 86400"

definition anchor :: "time \<Rightarrow> certificate \<Rightarrow> bool" where
  "anchor now ca \<longleftrightarrow> isCA (contents ca) \<and> KeyUsageCertSign \<in> set (keyUsages (contents ca)) \<and>
     notBefore (contents ca) = now - 3600 \<and> notAfter (contents ca) = addDate1y now"

lemma withinYear_valid: "withinYear now t \<Longrightarrow> now - 3600 \<le> t \<and> t \<le> addDate1y now"
  using addDate1y_later [of now] by (simp add: withinYear_def)

lemma anchor_validAt: "anchor now ca \<Longrightarrow> withinYear now t \<Longrightarrow> validAt t ca"
  using withinYear_valid [of now t] by (simp add: anchor_def validAt_def)

lemma objections_leaf:
  assumes "anchor now ca" "withinYear now t" "publicKey c \<noteq> publicKey ca"
  shows "objections (Suc n) [ca] t h \<lparr>chain = [c], privateKey = k\<rparr> =
    (if validAt t c then [] else [OutsideValidity]) @
    (if covers c h then [] else [HostMismatch]) @
    (if subjectCN (contents ca) = issuerCN c \<and> publicKey ca = signedBy c then [] else [NoPath])"
proof -
  from assms(3) have "c \<noteq> ca" by blast
  moreover have "validAt t ca" using assms anchor_validAt by blast
  ultimately show ?thesis
    using assms(1) by (simp add: objections_def signs_def anchor_def)
qed

text \<open>An ordinary leaf: valid for the year, covering the given hosts, objectionable only by its issuer.\<close>

lemma newLeafWith_objections:
  assumes mint: "newLeafWith isIP now issuer
      \<lparr>optHosts = hs, optNotBefore = None, optNotAfter = None\<rparr> s = Ok (tc, s')"
    and ca: "anchor now ca" "withinYear now t" and fresh: "publicKey ca \<notin> set (keyDraws s)"
  shows "objections (Suc n) [ca] t h tc =
      (if h \<in> set hs then [] else [HostMismatch]) @
      (case issuer of Some (i, ik) \<Rightarrow>
         if publicKey ca = ik \<and> subjectCN (contents ca) = subjectCN (contents i) then [] else [NoPath]
       | None \<Rightarrow> [NoPath])"
proof -
  obtain k c where c: "keyDraws s = k # keyDraws s'" "tc = \<lparr>chain = [c], privateKey = k\<rparr>" "publicKey c = k"
    "\<And>h. covers c h \<longleftrightarrow> h \<in> set hs" "notBefore (contents c) = now - 3600"
    "notAfter (contents c) = addDate1y now"
    "case issuer of None \<Rightarrow> signedBy c = k
      | Some (i, ik) \<Rightarrow> signedBy c = ik \<and> publicKey i = ik \<and> issuerCN c = subjectCN (contents i)"
    by (rule newLeafWith_Ok [OF mint]) auto
  from fresh c have "publicKey c \<noteq> publicKey ca" by auto
  from objections_leaf [OF ca this] c withinYear_valid [OF ca(2)] fresh show ?thesis
    by (cases issuer) (auto simp: validAt_def)
qed

lemma newLeafWith_draws:
  "newLeafWith isIP now ca opts s = Ok (tc, s') \<Longrightarrow> \<exists>k. keyDraws s = k # keyDraws s'"
  by (erule newLeafWith_Ok) blast

lemma expired_objections:
  assumes mint: "newLeafWith isIP now (Some (ca, publicKey ca)) \<lparr>optHosts = hs,
      optNotBefore = Some (addDays (- 30) now), optNotAfter = Some (addDays (- 1) now)\<rparr> s = Ok (tc, s')"
    and ca: "anchor now ca" "withinYear now t" and fresh: "publicKey ca \<notin> set (keyDraws s)"
    and "h \<in> set hs"
  shows "objections (Suc n) [ca] t h tc = [OutsideValidity]"
proof -
  obtain k c where c: "keyDraws s = k # keyDraws s'" "tc = \<lparr>chain = [c], privateKey = k\<rparr>" "publicKey c = k"
    "\<And>h. covers c h \<longleftrightarrow> h \<in> set hs" "notAfter (contents c) = addDays (- 1) now"
    "signedBy c = publicKey ca" "issuerCN c = subjectCN (contents ca)"
    by (rule newLeafWith_Ok [OF mint]) auto
  from fresh c have "publicKey c \<noteq> publicKey ca" by auto
  moreover have "\<not> validAt t c"
    using c(5) ca(2) by (simp add: validAt_def addDays_def withinYear_def)
  ultimately show ?thesis
    using objections_leaf [OF ca, of c n h k] c assms(5) by simp
qed

lemma newBadChains_objections:
  assumes mint: "newBadChains isIP now ca (publicKey ca) hs s = Ok (bad, s')"
    and ca: "anchor now ca" "withinYear now t" "subjectCN (contents ca) = ''okhttp-testbed test-server CA''"
    and fresh: "publicKey ca \<notin> set (keyDraws s)" "distinct (keyDraws s)"
    and hs: "h \<in> set hs" "h \<noteq> ''wrong.host.invalid''"
  shows "map (\<lambda>b. (chainName b, objections (Suc n) [ca] t h (served b))) bad =
      [(''expired'', [OutsideValidity]), (''wrong-host'', [HostMismatch]), (''self-signed'', [NoPath]),
       (''untrusted-root'', [NoPath]), (''incomplete-chain'', [NoPath])]"
proof -
  let ?plain = "\<lambda>hs. \<lparr>optHosts = hs, optNotBefore = None, optNotAfter = None\<rparr>"
  let ?leaf = "newLeafWith isIP now"
  from mint obtain u uk upem s1 i ik s2 l1 s3 l2 s4 l3 s5 l4 s6 l5 where
    u: "newCA now s = Ok ((u, uk, upem), s1)" and i: "newIntermediate now ca (publicKey ca) s1 = Ok ((i, ik), s2)"
    and l: "?leaf (Some (ca, publicKey ca)) \<lparr>optHosts = hs, optNotBefore = Some (addDays (- 30) now),
        optNotAfter = Some (addDays (- 1) now)\<rparr> s2 = Ok (l1, s3)"
      "?leaf (Some (ca, publicKey ca)) (?plain [''wrong.host.invalid'']) s3 = Ok (l2, s4)"
      "?leaf None (?plain hs) s4 = Ok (l3, s5)"
      "?leaf (Some (u, uk)) (?plain hs) s5 = Ok (l4, s6)"
      "?leaf (Some (i, ik)) (?plain hs) s6 = Ok (l5, s')"
    and bad: "map (\<lambda>b. (chainName b, served b)) bad = [(''expired'', l1), (''wrong-host'', l2),
        (''self-signed'', l3), (''untrusted-root'', l4), (''incomplete-chain'', l5)]"
    unfolding newBadChains_def Let_def bindM_Ok by (auto simp: bindM_Ok)
  have draws: "keyDraws s = uk # ik # keyDraws s2"
    using newCA_Ok(1) [OF u] newIntermediate_Ok(1) [OF i] by simp
  from fresh draws have keys: "publicKey ca \<noteq> uk" "publicKey ca \<noteq> ik" "publicKey ca \<notin> set (keyDraws s2)"
    by auto
  note l [THEN newLeafWith_draws]
  with keys(3) have f: "publicKey ca \<notin> set (keyDraws s3)" "publicKey ca \<notin> set (keyDraws s4)"
      "publicKey ca \<notin> set (keyDraws s5)" "publicKey ca \<notin> set (keyDraws s6)" by auto
  note objs = expired_objections [OF l(1) ca(1,2) keys(3) hs(1)]
    newLeafWith_objections [OF l(2) ca(1,2) f(1)] newLeafWith_objections [OF l(3) ca(1,2) f(2)]
    newLeafWith_objections [OF l(4) ca(1,2) f(3)] newLeafWith_objections [OF l(5) ca(1,2) f(4)]
  have "map (\<lambda>b. (chainName b, objections (Suc n) [ca] t h (served b))) bad
      = map (\<lambda>(x, y). (x, objections (Suc n) [ca] t h y)) (map (\<lambda>b. (chainName b, served b)) bad)"
    by simp
  with bad objs hs keys(1,2) show ?thesis by simp
qed

lemma loadCertificates_minted:
  assumes "loadCertificates loadPair isIP now e s = Ok (certs, s')" and "selfMade certs"
  obtains ca s1 s2 s3 where
    "newCA now s = Ok ((ca, publicKey ca, caPEM certs), s1)" "caPEM certs = [CertificateBlock ca]"
    "newLeaf isIP now ca (publicKey ca) (hosts certs) s1 = Ok (leaf certs, s2)"
    "newBadChains isIP now ca (publicKey ca) (hosts certs) s2 = Ok (badChains certs, s3)"
    "newClientIdentity now ca (publicKey ca) s3 = Ok (clientPEM certs, s')"
    "clientCAs certs = Some [ca]" "hosts certs = certHosts e"
proof -
  from assms obtain ca k pem s1 l s2 bad s3 client where
    "newCA now s = Ok ((ca, k, pem), s1)" "newLeaf isIP now ca k (certHosts e) s1 = Ok (l, s2)"
    "newBadChains isIP now ca k (certHosts e) s2 = Ok (bad, s3)"
    "newClientIdentity now ca k s3 = Ok (client, s')"
    "certs = \<lparr>leaf = l, caPEM = pem, selfMade = True, hosts = certHosts e, badChains = bad,
       clientPEM = client, clientCAs = Some [ca]\<rparr>"
    by (auto simp: loadCertificates_def Let_def bindM_Ok split: if_splits result.splits)
  moreover from newCA_Ok [OF this(1)] have "k = publicKey ca" "pem = [CertificateBlock ca]" by simp_all
  ultimately show thesis by (intro that) simp_all
qed

text \<open>With no files named in the environment, certificates are minted, the five bad chains among them.\<close>

lemma newBadChains_names:
  "newBadChains isIP now ca caKey hs s = Ok (bad, s') \<Longrightarrow>
   map chainName bad = [''expired'', ''wrong-host'', ''self-signed'', ''untrusted-root'', ''incomplete-chain'']"
  by (auto simp: newBadChains_def mint_simps Let_def split: prod.splits)

lemma default_certificates:
  assumes "loadCertificates loadPair isIP now (\<lambda>_. None) s = Ok (certs, s')"
  shows "map chainName (badChains certs) = [''expired'', ''wrong-host'', ''self-signed'', ''untrusted-root'', ''incomplete-chain'']"
    "clientCAs certs \<noteq> None"
proof -
  have "selfMade certs"
    using assms by (auto simp: loadCertificates_def env_def Let_def mint_simps)
  then obtain ca s2 s3 where "newBadChains isIP now ca (publicKey ca) (hosts certs) s2 = Ok (badChains certs, s3)"
      "clientCAs certs = Some [ca]"
    by (rule loadCertificates_minted [OF assms])
  then show "map chainName (badChains certs) = [''expired'', ''wrong-host'', ''self-signed'', ''untrusted-root'', ''incomplete-chain'']"
    "clientCAs certs \<noteq> None"
    by (simp_all add: newBadChains_names)
qed

lemma minted_anchor:
  assumes "newCA now s = Ok ((ca, publicKey ca, pem), s1)" and "distinct (keyDraws s)"
  shows "anchor now ca" "subjectCN (contents ca) = ''okhttp-testbed test-server CA''"
    "publicKey ca \<notin> set (keyDraws s1)" "distinct (keyDraws s1)"
  using newCA_Ok [OF assms(1)] assms(2) by (auto simp: anchor_def)

lemma newLeaf_draws:
  "newLeaf isIP now ca k hs s = Ok (tc, s') \<Longrightarrow> \<exists>k'. keyDraws s = k' # keyDraws s'"
  unfolding newLeaf_def by (rule newLeafWith_draws)

lemma minted_objections:
  assumes "loadCertificates loadX509KeyPair isIP now e s = Ok (certs, s')" "selfMade certs"
    and "distinct (keyDraws s)" "withinYear now t"
    and "h \<in> set (hosts certs)" "h \<noteq> ''wrong.host.invalid''"
  shows "\<exists>ca. caPEM certs = [CertificateBlock ca] \<and>
    objections (Suc n) [ca] t h (leaf certs) = [] \<and>
    map (\<lambda>b. (chainName b, objections (Suc n) [ca] t h (served b))) (badChains certs) =
      [(''expired'', [OutsideValidity]), (''wrong-host'', [HostMismatch]), (''self-signed'', [NoPath]),
       (''untrusted-root'', [NoPath]), (''incomplete-chain'', [NoPath])]"
proof -
  obtain ca s1 s2 s3 where ca: "newCA now s = Ok ((ca, publicKey ca, caPEM certs), s1)"
      "caPEM certs = [CertificateBlock ca]"
    and leaf: "newLeaf isIP now ca (publicKey ca) (hosts certs) s1 = Ok (leaf certs, s2)"
    and bad: "newBadChains isIP now ca (publicKey ca) (hosts certs) s2 = Ok (badChains certs, s3)"
    by (rule loadCertificates_minted [OF assms(1,2)])
  note anchor = minted_anchor [OF ca(1) assms(3)]
  from newLeaf_draws [OF leaf] anchor(3,4) have s2: "publicKey ca \<notin> set (keyDraws s2)" "distinct (keyDraws s2)"
    by auto
  have "objections (Suc n) [ca] t h (leaf certs) = []"
    using newLeafWith_objections [OF leaf [unfolded newLeaf_def] anchor(1) assms(4) anchor(3)] assms(5)
    by simp
  with ca(2) newBadChains_objections [OF bad anchor(1) assms(4) anchor(2) s2 assms(5,6)] show ?thesis by blast
qed

definition exampleEntropy :: entropy where
  "exampleEntropy = \<lparr>keyDraws = [1, 2, 3, 4, 5, 6, 7, 8, 9, 10], serialDraws = [1, 2, 3, 4, 5, 6, 7, 8, 9, 10]\<rparr>"

lemma exampleEntropy_loads:
  "\<exists>certs s'. loadCertificates (\<lambda>_ _. Panic) (\<lambda>_. False) 0 (\<lambda>_. None) exampleEntropy = Ok (certs, s') \<and>
     selfMade certs \<and> hosts certs = [''localhost'', ''127.0.0.1'', ''::1'']"
proof -
  have "certHosts (\<lambda>_. None) = [''localhost'', ''127.0.0.1'', ''::1'']"
    by (simp add: certHosts_def env_def)
  then show ?thesis
    by (simp add: loadCertificates_def env_def Let_def bindM_def newCA_def newKey_def newSerialNumber_def
        exampleEntropy_def createCertificate_def returnM_def newLeaf_def newLeafWith_def leafTemplate_def
        x509KeyPair_def newBadChains_def newIntermediate_def newClientIdentity_def)
qed

lemma withinYear_example: "withinYear 0 100"
  by (simp add: withinYear_def)

lemma newBadChains_incomplete:
  assumes "newBadChains isIP now ca k hs s = Ok (bad, s')"
  obtains s1 i ik s2 s6 tc where
    "newIntermediate now ca k s1 = Ok ((i, ik), s2)"
    "newLeafWith isIP now (Some (i, ik)) \<lparr>optHosts = hs, optNotBefore = None, optNotAfter = None\<rparr> s6 = Ok (tc, s')"
    "chainName (last bad) = ''incomplete-chain''" "withheld (last bad) = [CertificateBlock i]"
    "served (last bad) = tc" "suffix (keyDraws s1) (keyDraws s)" "suffix (keyDraws s6) (keyDraws s2)"
proof -
  let ?leaf = "newLeafWith isIP now"
  from assms obtain u s1 i ik s2 ca1 o1 l1 s3 ca2 o2 l2 s4 ca3 o3 l3 s5 ca4 o4 l4 s6 tc where
    u: "newCA now s = Ok (u, s1)" and i: "newIntermediate now ca k s1 = Ok ((i, ik), s2)"
    and l: "?leaf ca1 o1 s2 = Ok (l1, s3)" "?leaf ca2 o2 s3 = Ok (l2, s4)" "?leaf ca3 o3 s4 = Ok (l3, s5)"
      "?leaf ca4 o4 s5 = Ok (l4, s6)"
    and tc: "?leaf (Some (i, ik)) \<lparr>optHosts = hs, optNotBefore = None, optNotAfter = None\<rparr> s6 = Ok (tc, s')"
    and bad: "chainName (last bad) = ''incomplete-chain''" "withheld (last bad) = [CertificateBlock i]"
      "served (last bad) = tc"
    unfolding newBadChains_def Let_def bindM_Ok by (auto simp: bindM_Ok)
  obtain a b c where "u = (a, b, c)" by (cases u)
  with newCA_Ok(1) u have "suffix (keyDraws s1) (keyDraws s)" by (fastforce simp: suffix_def)
  moreover have "suffix (keyDraws s6) (keyDraws s2)"
    using l [THEN newLeafWith_draws] by (auto simp: suffix_def)
  ultimately show thesis using i tc bad that by blast
qed

text \<open>
  C22: the incomplete chain is short, not broken. The certificate the server withholds is an
  intermediate; a client that holds it, whether as a further trusted certificate or because the
  chain is served with it, has no objection to the very leaf it refused before.
\<close>

theorem incomplete_chain_completed:
  assumes "loadCertificates loadX509KeyPair isIP now e s = Ok (certs, s')" "selfMade certs"
    and "distinct (keyDraws s)" "withinYear now t" "h \<in> set (hosts certs)"
  shows "\<exists>ca i b. caPEM certs = [CertificateBlock ca] \<and> last (badChains certs) = b \<and>
    chainName b = ''incomplete-chain'' \<and> withheld b = [CertificateBlock i] \<and>
    objections (Suc n) [ca] t h (served b) = [NoPath] \<and>
    objections (Suc n) [ca, i] t h (served b) = [] \<and>
    objections (Suc (Suc n)) [ca] t h ((served b)\<lparr>chain := chain (served b) @ [i]\<rparr>) = []"
proof -
  obtain ca s1 s2 s3 where ca: "newCA now s = Ok ((ca, publicKey ca, caPEM certs), s1)"
      "caPEM certs = [CertificateBlock ca]"
    and leaf: "newLeaf isIP now ca (publicKey ca) (hosts certs) s1 = Ok (leaf certs, s2)"
    and bad: "newBadChains isIP now ca (publicKey ca) (hosts certs) s2 = Ok (badChains certs, s3)"
    by (rule loadCertificates_minted [OF assms(1,2)])
  note anchor = minted_anchor [OF ca(1) assms(3)]
  from bad obtain s4 i ik s5 s6 tc where
    i: "newIntermediate now ca (publicKey ca) s4 = Ok ((i, ik), s5)"
    and tc: "newLeafWith isIP now (Some (i, ik))
      \<lparr>optHosts = hosts certs, optNotBefore = None, optNotAfter = None\<rparr> s6 = Ok (tc, s3)"
    and last: "chainName (last (badChains certs)) = ''incomplete-chain''"
      "withheld (last (badChains certs)) = [CertificateBlock i]" "served (last (badChains certs)) = tc"
    and d: "suffix (keyDraws s4) (keyDraws s2)" "suffix (keyDraws s6) (keyDraws s5)"
    by (rule newBadChains_incomplete)
  obtain k c where c: "keyDraws s6 = k # keyDraws s3" "tc = \<lparr>chain = [c], privateKey = k\<rparr>" "publicKey c = k"
    "\<And>h. covers c h \<longleftrightarrow> h \<in> set (hosts certs)" "notBefore (contents c) = now - 3600"
    "notAfter (contents c) = addDate1y now" "signedBy c = ik" "issuerCN c = subjectCN (contents i)"
    by (rule newLeafWith_Ok [OF tc]) auto
  note inter = newIntermediate_Ok [OF i]
  have keys: "publicKey ca \<notin> set (keyDraws s4)" "distinct (keyDraws s4)"
    using newLeaf_draws [OF leaf] anchor(3,4) d(1) by (auto simp: suffix_def)
  have "publicKey c \<noteq> publicKey ca" "publicKey ca \<noteq> ik" "c \<noteq> i" "c \<noteq> ca"
    using keys d(2) c inter by (auto simp: suffix_def)
  moreover have "validAt t ca" "validAt t i" "validAt t c"
    using anchor_validAt [OF anchor(1) assms(4)] withinYear_valid [OF assms(4)] inter c by (auto simp: validAt_def)
  moreover have "signs i c" "signs ca i"
    using inter c anchor by (auto simp: signs_def anchor_def)
  ultimately have "objections (Suc n) [ca] t h tc = [NoPath]" "objections (Suc n) [ca, i] t h tc = []"
      "objections (Suc (Suc n)) [ca] t h (tc\<lparr>chain := chain tc @ [i]\<rparr>) = []"
    using c assms(5) inter by (auto simp: objections_def signs_def)
  with ca(2) last show ?thesis by blast
qed

lemma incomplete_chain_completed_witness:
  "\<exists>certs s' ca i b. loadCertificates (\<lambda>_ _. Panic) (\<lambda>_. False) 0 (\<lambda>_. None) exampleEntropy = Ok (certs, s') \<and>
     b = last (badChains certs) \<and> objections 1 [ca] 100 ''localhost'' (served b) = [NoPath] \<and>
     objections 1 [ca, i] 100 ''localhost'' (served b) = []"
proof -
  obtain certs s' where l: "loadCertificates (\<lambda>_ _. Panic) (\<lambda>_. False) 0 (\<lambda>_. None) exampleEntropy = Ok (certs, s')"
      "selfMade certs" and h: "hosts certs = [''localhost'', ''127.0.0.1'', ''::1'']"
    using exampleEntropy_loads by blast
  have d: "distinct (keyDraws exampleEntropy)" by (simp add: exampleEntropy_def)
  have "''localhost'' \<in> set (hosts certs)" by (simp add: h)
  from incomplete_chain_completed [OF l d withinYear_example this, of 0] l(1) show ?thesis by auto
qed

lemma minted_certificates:
  assumes "loadCertificates loadX509KeyPair isIP now e s = Ok (certs, s')" "selfMade certs"
  shows "\<exists>ca l c. caPEM certs = [CertificateBlock ca] \<and> clientCAs certs = Some [ca] \<and> hosts certs = certHosts e \<and>
    leaf certs = \<lparr>chain = [l], privateKey = publicKey l\<rparr> \<and> signedBy l = publicKey ca \<and>
    issuerCN l = subjectCN (contents ca) \<and> (\<forall>h. covers l h \<longleftrightarrow> h \<in> set (certHosts e)) \<and>
    clientPEM certs = [CertificateBlock c, PKCS8Block (publicKey c)] \<and> signedBy c = publicKey ca \<and>
    issuerCN c = subjectCN (contents ca) \<and> extKeyUsages (contents c) = [ExtKeyUsageClientAuth] \<and>
    length (badChains certs) = 5"
proof -
  obtain ca s1 s2 s3 where ca: "caPEM certs = [CertificateBlock ca]" "clientCAs certs = Some [ca]"
      "hosts certs = certHosts e"
    and leaf: "newLeaf isIP now ca (publicKey ca) (hosts certs) s1 = Ok (leaf certs, s2)"
    and client: "newClientIdentity now ca (publicKey ca) s3 = Ok (clientPEM certs, s')"
    and bad: "newBadChains isIP now ca (publicKey ca) (hosts certs) s2 = Ok (badChains certs, s3)"
    by (rule loadCertificates_minted [OF assms])
  from bad have five: "length (badChains certs) = 5"
    unfolding newBadChains_def Let_def bindM_Ok by (auto simp: bindM_Ok)
  obtain l where l: "leaf certs = \<lparr>chain = [l], privateKey = publicKey l\<rparr>" "signedBy l = publicKey ca"
      "issuerCN l = subjectCN (contents ca)" "\<And>h. covers l h \<longleftrightarrow> h \<in> set (hosts certs)"
    by (rule newLeafWith_Ok [OF leaf [unfolded newLeaf_def]]) auto
  obtain c where c: "clientPEM certs = [CertificateBlock c, PKCS8Block (publicKey c)]" "signedBy c = publicKey ca"
      "issuerCN c = subjectCN (contents ca)" "extKeyUsages (contents c) = [ExtKeyUsageClientAuth]"
    by (rule newClientIdentity_Ok [OF client]) auto
  from ca l c five show ?thesis by (intro exI [of _ ca] exI [of _ l] exI [of _ c]) simp
qed

text \<open>
  C29: certificate modes.  Naming only one of the two files is that error and nothing else.  Naming both
  serves exactly the certificate the pair of files holds, for the configured hosts, and mints nothing: no
  randomness is used and there is no CA, no client identity, no client pool and no bad chain; an error of
  reading them is the error returned.  Naming neither mints everything: the leaf covers exactly the
  configured hosts and is signed by the one CA, which is what \<open>/ca.pem\<close> serves and the client pool
  holds, and the client identity is a certificate for client authentication signed by that CA,
  followed by its own key.
\<close>

theorem certificate_modes:
  fixes e :: environ
  defines "certFile \<equiv> env e ''TLS_CERT_FILE'' []" and "keyFile \<equiv> env e ''TLS_KEY_FILE'' []"
  shows "((certFile = []) \<noteq> (keyFile = []) \<longrightarrow>
      loadCertificates loadX509KeyPair isIP now e s = Err ''TLS_CERT_FILE and TLS_KEY_FILE must be set together'') \<and>
    (certFile \<noteq> [] \<and> keyFile \<noteq> [] \<longrightarrow>
      loadCertificates loadX509KeyPair isIP now e s =
        (case loadX509KeyPair certFile keyFile of
           Ok l \<Rightarrow> Ok (\<lparr>leaf = l, caPEM = [], selfMade = False, hosts = certHosts e, badChains = [],
                     clientPEM = [], clientCAs = None\<rparr>, s)
         | Err m \<Rightarrow> Err m
         | Panic \<Rightarrow> Panic)) \<and>
    (certFile = [] \<and> keyFile = [] \<and> loadCertificates loadX509KeyPair isIP now e s = Ok (certs, s') \<longrightarrow>
      selfMade certs \<and>
      (\<exists>ca l c. caPEM certs = [CertificateBlock ca] \<and> clientCAs certs = Some [ca] \<and> hosts certs = certHosts e \<and>
        leaf certs = \<lparr>chain = [l], privateKey = publicKey l\<rparr> \<and> signedBy l = publicKey ca \<and>
        issuerCN l = subjectCN (contents ca) \<and> (\<forall>h. covers l h \<longleftrightarrow> h \<in> set (certHosts e)) \<and>
        clientPEM certs = [CertificateBlock c, PKCS8Block (publicKey c)] \<and> signedBy c = publicKey ca \<and>
        issuerCN c = subjectCN (contents ca) \<and> extKeyUsages (contents c) = [ExtKeyUsageClientAuth] \<and>
        length (badChains certs) = 5))"
proof (intro conjI impI)
  show "loadCertificates loadX509KeyPair isIP now e s = Err ''TLS_CERT_FILE and TLS_KEY_FILE must be set together''"
    if "(certFile = []) \<noteq> (keyFile = [])"
    using that by (simp add: loadCertificates_def Let_def failM_def certFile_def keyFile_def)
  show "loadCertificates loadX509KeyPair isIP now e s =
        (case loadX509KeyPair certFile keyFile of
           Ok l \<Rightarrow> Ok (\<lparr>leaf = l, caPEM = [], selfMade = False, hosts = certHosts e, badChains = [],
                     clientPEM = [], clientCAs = None\<rparr>, s)
         | Err m \<Rightarrow> Err m
         | Panic \<Rightarrow> Panic)" if "certFile \<noteq> [] \<and> keyFile \<noteq> []"
    using that
    by (simp add: loadCertificates_def Let_def failM_def returnM_def certFile_def keyFile_def split: result.splits)
  assume a: "certFile = [] \<and> keyFile = [] \<and> loadCertificates loadX509KeyPair isIP now e s = Ok (certs, s')"
  then show made: "selfMade certs"
    by (auto simp: loadCertificates_def Let_def bindM_Ok certFile_def keyFile_def)
  from minted_certificates [OF a [THEN conjunct2, THEN conjunct2] made] show "\<exists>ca l c. caPEM certs = [CertificateBlock ca] \<and> clientCAs certs = Some [ca] \<and> hosts certs = certHosts e \<and>
        leaf certs = \<lparr>chain = [l], privateKey = publicKey l\<rparr> \<and> signedBy l = publicKey ca \<and>
        issuerCN l = subjectCN (contents ca) \<and> (\<forall>h. covers l h \<longleftrightarrow> h \<in> set (certHosts e)) \<and>
        clientPEM certs = [CertificateBlock c, PKCS8Block (publicKey c)] \<and> signedBy c = publicKey ca \<and>
        issuerCN c = subjectCN (contents ca) \<and> extKeyUsages (contents c) = [ExtKeyUsageClientAuth] \<and>
        length (badChains certs) = 5" .
qed

text \<open>One supplied certificate, one half-configured deployment, one server that mints.\<close>

lemma certificate_modes_witness:
  "(\<exists>certs s'. loadCertificates (\<lambda>_ _. Panic) (\<lambda>_. False) 0 (\<lambda>_. None) exampleEntropy = Ok (certs, s') \<and>
     selfMade certs \<and> length (badChains certs) = 5) \<and>
   loadCertificates (\<lambda>_ _. Panic) (\<lambda>_. False) 0 (\<lambda>n. if n = ''TLS_KEY_FILE'' then Some ''k'' else None) exampleEntropy
     = Err ''TLS_CERT_FILE and TLS_KEY_FILE must be set together''"
proof -
  obtain certs s' where l: "loadCertificates (\<lambda>_ _. Panic) (\<lambda>_. False) 0 (\<lambda>_. None) exampleEntropy = Ok (certs, s')"
    using exampleEntropy_loads by blast
  have k: "trimSpace ''k'' = ''k''"
    by (simp add: trimSpace_def trimLeft.simps [of _ "''k''"] unicodeSpaces_def upt_rec char_of_def bit_0)
  have "env (\<lambda>_. None) n [] = []" for n by (simp add: env_def)
  with certificate_modes [of "\<lambda>_. None" "\<lambda>_ _. Panic" "\<lambda>_. False" 0 exampleEntropy certs s'] l
  have "selfMade certs \<and> length (badChains certs) = 5" by blast
  moreover have "env (\<lambda>n. if n = ''TLS_KEY_FILE'' then Some ''k'' else None) ''TLS_CERT_FILE'' [] = []"
      "env (\<lambda>n. if n = ''TLS_KEY_FILE'' then Some ''k'' else None) ''TLS_KEY_FILE'' [] = ''k''"
    by (simp_all add: env_def k)
  ultimately show ?thesis
    using l certificate_modes [of "\<lambda>n. if n = ''TLS_KEY_FILE'' then Some ''k'' else None" "\<lambda>_ _. Panic" "\<lambda>_. False" 0 exampleEntropy]
    by (metis list.distinct(1))
qed

end
