(* ===== verification/Ech_Target.thy ===== *)
theory Ech_Target
  imports Ech_Config Dns Base64 Certs
begin

text \<open>
  The two modes of the ECH fixture (\<open>ech-fixture/main.go\<close>) up to the point where they serve:
  \<open>runTarget\<close> mints certificates and seven ECH keys, prints the metadata that configures the other
  mode and answers the two TLS callbacks; \<open>runDoH\<close> reads that metadata from its environment.

  A \<open>log.Fatal\<close> is an \<^const>\<open>Err\<close>.  PEM and DER are the fields of \<open>pemLib\<close>, with the two files the
  program embeds; a reading of the clock is a pair of seconds and nanoseconds.
\<close>

subsection \<open>Names\<close>

definition greenName :: string where "greenName = ''green.secret.test''"
definition greenPublicName :: string where "greenPublicName = ''green.public.test''"
definition retryName :: string where "retryName = ''retry.secret.test''"
definition retryPublicName :: string where "retryPublicName = ''retry.public.test''"
definition disabledName :: string where "disabledName = ''disabled.secret.test''"
definition disabledPublicName :: string where "disabledPublicName = ''disabled.public.test''"
definition issue1561PublicName :: string where "issue1561PublicName = ''issue1561.public.test''"
definition ctEnforcedName :: string where "ctEnforcedName = ''ct-enforced.test''"
definition ctOptOutName :: string where "ctOptOutName = ''ct-opt-out.test''"
definition dohName :: string where "dohName = ''doh.test''"

lemmas name_defs = greenName_def greenPublicName_def retryName_def retryPublicName_def disabledName_def
  disabledPublicName_def issue1561PublicName_def ctEnforcedName_def ctOptOutName_def dohName_def

subsection \<open>Certificates\<close>

record pemLib =
  pemDecode :: "byte list \<Rightarrow> byte list option"
  parseCertificate :: "byte list \<Rightarrow> (string, certificate) result"
  parseECPrivateKey :: "byte list \<Rightarrow> (string, key) result"
  pemEncode :: "pemBlock list \<Rightarrow> byte list"
  keyPairOfPEM :: "byte list \<Rightarrow> byte list \<Rightarrow> (string, tlsCertificate) result"
  fixtureCAPEM :: "byte list"
  fixtureCAKeyPEM :: "byte list"

definition liftR :: "(string, 'a) result \<Rightarrow> 'a mint" where
  "liftR m = (\<lambda>s. bindR m (\<lambda>a. Ok (a, s)))"

lemma liftR_Ok [simp]: "liftR m s = Ok (a, s') \<longleftrightarrow> m = Ok a \<and> s' = s"
  by (cases m) (auto simp: liftR_def)

definition fixtureNewCA :: "pemLib \<Rightarrow> (string, certificate \<times> key \<times> byte list) result" where
  "fixtureNewCA lib =
     (case pemDecode lib (fixtureCAPEM lib) of
        None \<Rightarrow> Err ''invalid fixture CA certificate''
      | Some certificateBlock \<Rightarrow>
          bindR (parseCertificate lib certificateBlock) (\<lambda>certificate.
          case pemDecode lib (fixtureCAKeyPEM lib) of
            None \<Rightarrow> Err ''invalid fixture CA private key''
          | Some keyBlock \<Rightarrow>
              bindR (parseECPrivateKey lib keyBlock) (\<lambda>parsedKey.
              Ok (certificate, parsedKey, fixtureCAPEM lib))))"

definition fixtureNewLeaf ::
    "pemLib \<Rightarrow> time \<times> int \<Rightarrow> certificate \<Rightarrow> key \<Rightarrow> string list \<Rightarrow> (byte list \<times> byte list) mint" where
  "fixtureNewLeaf lib clock ca caKey names =
     bindM newKey (\<lambda>key.
     case names of
       [] \<Rightarrow> (\<lambda>_. Panic)
     | name0 # _ \<Rightarrow>
       (let t = \<lparr>serialNumber = snd clock, subjectCN = name0,
                 notBefore = fst clock - 3600, notAfter = fst clock + 24 * 3600,
                 keyUsages = [KeyUsageDigitalSignature], extKeyUsages = [ExtKeyUsageServerAuth],
                 dnsNames = names, ipAddresses = [],
                 basicConstraintsValid = False, isCA = False, maxPathLenZero = False\<rparr>
        in bindM (createCertificate t (Issuer ca) key caKey) (\<lambda>der.
           returnM (pemEncode lib [CertificateBlock der], pemEncode lib [PKCS8Block key]))))"

subsection \<open>The target\<close>

record target =
  targetCertificate :: tlsCertificate
  issue1561Certificate :: tlsCertificate
  greenKey :: echKey
  retryKey :: echKey
  disabledKey :: echKey
  issue1561Key :: echKey
  metadata :: string

text \<open>The \<open>NAME=value\<close> lines of \<open>/metadata\<close>.\<close>

definition metadataLine :: "string \<Rightarrow> byte list \<Rightarrow> string" where
  "metadataLine name value = name @ ''='' @ encodeToString StdEncoding value"

definition metadataText :: "(string \<times> byte list) list \<Rightarrow> string" where
  "metadataText kvs = join [CHR 0x0A] (map (\<lambda>(name, value). metadataLine name value) kvs) @ [CHR 0x0A]"

text \<open>
  \<open>clock\<close> gives the reading of the clock in each of the three calls of \<open>newLeaf\<close> and \<open>draw\<close> the
  outcome of the key generation in each of the seven calls of \<open>newECHKey\<close>.
\<close>

definition targetNames :: "string list" where
  "targetNames = [greenName, greenPublicName, retryName, retryPublicName, disabledName, disabledPublicName,
                  ctEnforcedName, ctOptOutName]"

definition runTarget :: "pemLib \<Rightarrow> (nat \<Rightarrow> time \<times> int) \<Rightarrow> (nat \<Rightarrow> x25519) \<Rightarrow> target mint" where
  "runTarget lib clock draw =
     bindM (liftR (fixtureNewCA lib)) (\<lambda>(caCert, caKey, caPEM).
     bindM (fixtureNewLeaf lib (clock 0) caCert caKey targetNames) (\<lambda>(targetCertPEM, targetKeyPEM).
     bindM (fixtureNewLeaf lib (clock 1) caCert caKey [dohName]) (\<lambda>(dohCertPEM, dohKeyPEM).
     bindM (fixtureNewLeaf lib (clock 2) caCert caKey [issue1561PublicName]) (\<lambda>(issue1561CertPEM, issue1561KeyPEM).
     bindM (liftR (keyPairOfPEM lib targetCertPEM targetKeyPEM)) (\<lambda>targetCert.
     bindM (liftR (keyPairOfPEM lib issue1561CertPEM issue1561KeyPEM)) (\<lambda>issue1561Cert.
     bindM (liftR (newECHKey (draw 0) 1 greenPublicName True)) (\<lambda>green.
     bindM (liftR (newECHKey (draw 1) 2 retryPublicName False)) (\<lambda>retryStale.
     bindM (liftR (newECHKey (draw 2) 3 retryPublicName True)) (\<lambda>retry.
     bindM (liftR (newECHKey (draw 3) 4 disabledPublicName False)) (\<lambda>disabledStale.
     bindM (liftR (newECHKey (draw 4) 5 disabledPublicName False)) (\<lambda>disabled.
     bindM (liftR (newECHKey (draw 5) 6 issue1561PublicName False)) (\<lambda>issue1561Stale.
     bindM (liftR (newECHKey (draw 6) 7 issue1561PublicName False)) (\<lambda>issue1561.
     returnM
       \<lparr>targetCertificate = targetCert, issue1561Certificate = issue1561Cert,
        greenKey = green, retryKey = retry, disabledKey = disabled, issue1561Key = issue1561,
        metadata = metadataText
          [(''ECH_GREEN_CONFIG_LIST'', configList green),
           (''ECH_RETRY_STALE_CONFIG_LIST'', configList retryStale),
           (''ECH_DISABLED_STALE_CONFIG_LIST'', configList disabledStale),
           (''ECH_ISSUE1561_STALE_CONFIG_LIST'', configList issue1561Stale),
           (''DOH_CERT'', dohCertPEM),
           (''DOH_KEY'', dohKeyPEM),
           (''CA_CERT'', caPEM)]\<rparr>)))))))))))))"

text \<open>\<open>tls.EncryptedClientHelloKey\<close>, and the two callbacks of the TLS configuration.\<close>

record encryptedClientHelloKey =
  keyConfig :: "byte list"
  keyPrivate :: "byte list"
  sendAsRetry :: bool

definition getEncryptedClientHelloKeys :: "target \<Rightarrow> string \<Rightarrow> encryptedClientHelloKey list" where
  "getEncryptedClientHelloKeys t serverName =
     (let found = (if serverName = greenPublicName then Some (greenKey t)
                   else if serverName = retryPublicName then Some (retryKey t)
                   else if serverName = disabledPublicName then Some (disabledKey t)
                   else if serverName = issue1561PublicName then Some (issue1561Key t)
                   else None)
      in case found of
           None \<Rightarrow> []
         | Some k \<Rightarrow> [\<lparr>keyConfig = echConfig k, keyPrivate = echPrivate k, sendAsRetry = echRetryable k\<rparr>])"

definition getCertificate :: "target \<Rightarrow> string \<Rightarrow> tlsCertificate" where
  "getCertificate t serverName =
     (if serverName = issue1561PublicName then issue1561Certificate t else targetCertificate t)"

subsection \<open>The resolver's configuration\<close>

datatype fatal = NotSet string | Corrupt nat | BadNumber string | BadCertificate string

definition requiredEnvironment :: "environ \<Rightarrow> string \<Rightarrow> (fatal, string) result" where
  "requiredEnvironment e name =
     (let value = (case e name of None \<Rightarrow> [] | Some v \<Rightarrow> v)
      in if value = [] then Err (NotSet name) else Ok value)"

definition decodeEnvironment :: "environ \<Rightarrow> string \<Rightarrow> (fatal, byte list) result" where
  "decodeEnvironment e name =
     bindR (requiredEnvironment e name) (\<lambda>value.
       case decodeString StdEncoding value of Ok bs \<Rightarrow> Ok bs | Err i \<Rightarrow> Err (Corrupt i) | Panic \<Rightarrow> Panic)"

record doh =
  dohCertificate :: tlsCertificate
  echConfigs :: "string \<rightharpoonup> byte list"
  targetPort :: int

definition runDoH :: "pemLib \<Rightarrow> environ \<Rightarrow> (fatal, doh) result" where
  "runDoH lib e =
     bindR (decodeEnvironment e ''DOH_CERT'') (\<lambda>certPEM.
     bindR (decodeEnvironment e ''DOH_KEY'') (\<lambda>keyPEM.
     bindR (decodeEnvironment e ''ECH_GREEN_CONFIG_LIST'') (\<lambda>green.
     bindR (decodeEnvironment e ''ECH_RETRY_STALE_CONFIG_LIST'') (\<lambda>retry.
     bindR (decodeEnvironment e ''ECH_DISABLED_STALE_CONFIG_LIST'') (\<lambda>disabled.
     bindR (requiredEnvironment e ''TARGET_PORT'') (\<lambda>port.
     case atoi port of
       None \<Rightarrow> Err (BadNumber port)
     | Some p \<Rightarrow>
         (case keyPairOfPEM lib certPEM keyPEM of
            Err m \<Rightarrow> Err (BadCertificate m)
          | Panic \<Rightarrow> Panic
          | Ok certificate \<Rightarrow>
              Ok \<lparr>dohCertificate = certificate,
                  echConfigs = [greenName \<mapsto> green, retryName \<mapsto> retry, disabledName \<mapsto> disabled],
                  targetPort = p\<rparr>)))))))"

subsection \<open>Reading the metadata back\<close>

text \<open>
  How the service that starts both containers reads \<open>/metadata\<close>: one variable per non-empty line,
  split at the first \<open>=\<close>.
\<close>

definition metadataEnv :: "string \<Rightarrow> (string \<times> string) list" where
  "metadataEnv body =
     concat (map (\<lambda>line. case splitN (CHR ''='') 2 line of [name, value] \<Rightarrow> [(name, value)] | _ \<Rightarrow> [])
       (filter (\<lambda>line. line \<noteq> []) (split (CHR 0x0A) body)))"

lemma line_feed_isBreak: "isBreak (CHR 0x0A)"
  by (simp add: isBreak_def)

lemma metadataLine_no_break: "CHR 0x0A \<notin> set name \<Longrightarrow> CHR 0x0A \<notin> set (metadataLine name value)"
  using std.encodeToString_no_break [of "value"] line_feed_isBreak
  by (auto simp: metadataLine_def list_all_iff)

lemma metadataLine_splits: "CHR ''='' \<notin> set name \<Longrightarrow>
    splitN (CHR ''='') 2 (metadataLine name value) = [name, encodeToString StdEncoding value]"
  unfolding numeral_2_eq_2 metadataLine_def by (simp only: append_Cons append_Nil splitN_append_sep splitN.simps(2) not_False_eq_True)

lemma metadataLines_split:
  "\<forall>(name, value) \<in> set kvs. CHR ''='' \<notin> set name \<Longrightarrow>
   concat (map (\<lambda>line. case splitN (CHR ''='') 2 line of [name, value] \<Rightarrow> [(name, value)] | _ \<Rightarrow> [])
     (map (\<lambda>(name, value). metadataLine name value) kvs))
   = map (\<lambda>(name, value). (name, encodeToString StdEncoding value)) kvs"
  by (induction kvs) (auto simp: metadataLine_splits)

lemma metadataEnv_text:
  assumes "kvs \<noteq> []" "\<forall>(name, value) \<in> set kvs. CHR 0x0A \<notin> set name \<and> CHR ''='' \<notin> set name"
  shows "metadataEnv (metadataText kvs) = map (\<lambda>(name, value). (name, encodeToString StdEncoding value)) kvs"
proof -
  let ?lines = "map (\<lambda>(name, value). metadataLine name value) kvs"
  have "split (CHR 0x0A) (join [CHR 0x0A] (?lines @ [[]])) = ?lines @ [[]]"
    using assms metadataLine_no_break by (intro split_join) auto
  moreover have "join [CHR 0x0A] (ls @ [[]]) = join [CHR 0x0A] ls @ [CHR 0x0A]" if "ls \<noteq> []" for ls
    using that by (induction "[CHR 0x0A]" ls rule: join.induct) simp_all
  ultimately have lines: "split (CHR 0x0A) (metadataText kvs) = ?lines @ [[]]"
    using assms(1) by (simp add: metadataText_def)
  have "filter (\<lambda>line. line \<noteq> []) ?lines = ?lines"
    by (auto simp: filter_id_conv metadataLine_def)
  moreover have "\<forall>(name, value) \<in> set kvs. CHR ''='' \<notin> set name" using assms(2) by auto
  ultimately show ?thesis
    using metadataLines_split [of kvs] by (simp only: metadataEnv_def lines filter_append) simp
qed

lemma fixtureNewLeaf_Ok:
  assumes "fixtureNewLeaf lib clock ca caKey names s = Ok ((certPEM, keyPEM), s')"
  obtains key c where "certPEM = pemEncode lib [CertificateBlock c]" "keyPEM = pemEncode lib [PKCS8Block key]"
    "keyDraws s = key # keyDraws s'" "publicKey c = key" "signedBy c = caKey" "publicKey ca = caKey"
    "issuerCN c = subjectCN (contents ca)" "dnsNames (contents c) = names" "ipAddresses (contents c) = []"
    "notBefore (contents c) = fst clock - 3600" "notAfter (contents c) = fst clock + 86400"
  using assms unfolding fixtureNewLeaf_def Let_def
  by (cases names) (auto simp: mint_simps newKey_Ok)

lemma runTarget_Ok:
  assumes "runTarget lib clock draw s = Ok (t, s')"
  obtains retryStale disabledStale issue1561Stale c ca caKey caPEM where
    "newECHKey (draw 0) 1 greenPublicName True = Ok (greenKey t)"
    "newECHKey (draw 1) 2 retryPublicName False = Ok retryStale"
    "newECHKey (draw 2) 3 retryPublicName True = Ok (retryKey t)"
    "newECHKey (draw 3) 4 disabledPublicName False = Ok disabledStale"
    "newECHKey (draw 4) 5 disabledPublicName False = Ok (disabledKey t)"
    "newECHKey (draw 5) 6 issue1561PublicName False = Ok issue1561Stale"
    "newECHKey (draw 6) 7 issue1561PublicName False = Ok (issue1561Key t)"
    "metadata t = metadataText
       [(''ECH_GREEN_CONFIG_LIST'', configList (greenKey t)),
        (''ECH_RETRY_STALE_CONFIG_LIST'', configList retryStale),
        (''ECH_DISABLED_STALE_CONFIG_LIST'', configList disabledStale),
        (''ECH_ISSUE1561_STALE_CONFIG_LIST'', configList issue1561Stale),
        (''DOH_CERT'', pemEncode lib [CertificateBlock c]),
        (''DOH_KEY'', pemEncode lib [PKCS8Block (publicKey c)]), (''CA_CERT'', caPEM)]"
    "fixtureNewCA lib = Ok (ca, caKey, caPEM)" "dnsNames (contents c) = [dohName]" "signedBy c = caKey"
    "issuerCN c = subjectCN (contents ca)"
proof -
  from assms obtain retryStale disabledStale issue1561Stale certPEM keyPEM caPEM ca caKey s1 s2 where
    "newECHKey (draw 0) 1 greenPublicName True = Ok (greenKey t)"
    "newECHKey (draw 1) 2 retryPublicName False = Ok retryStale"
    "newECHKey (draw 2) 3 retryPublicName True = Ok (retryKey t)"
    "newECHKey (draw 3) 4 disabledPublicName False = Ok disabledStale"
    "newECHKey (draw 4) 5 disabledPublicName False = Ok (disabledKey t)"
    "newECHKey (draw 5) 6 issue1561PublicName False = Ok issue1561Stale"
    "newECHKey (draw 6) 7 issue1561PublicName False = Ok (issue1561Key t)"
    and meta: "metadata t = metadataText
       [(''ECH_GREEN_CONFIG_LIST'', configList (greenKey t)),
        (''ECH_RETRY_STALE_CONFIG_LIST'', configList retryStale),
        (''ECH_DISABLED_STALE_CONFIG_LIST'', configList disabledStale),
        (''ECH_ISSUE1561_STALE_CONFIG_LIST'', configList issue1561Stale),
        (''DOH_CERT'', certPEM),
        (''DOH_KEY'', keyPEM), (''CA_CERT'', caPEM)]"
    and ca: "fixtureNewCA lib = Ok (ca, caKey, caPEM)"
    and leaf: "fixtureNewLeaf lib (clock 1) ca caKey [dohName] s1 = Ok ((certPEM, keyPEM), s2)"
    unfolding runTarget_def by (fastforce simp: bindM_Ok)
  moreover obtain c where "certPEM = pemEncode lib [CertificateBlock c]" "keyPEM = pemEncode lib [PKCS8Block (publicKey c)]"
    "dnsNames (contents c) = [dohName]" "signedBy c = caKey" "issuerCN c = subjectCN (contents ca)"
    by (rule fixtureNewLeaf_Ok [OF leaf]) blast
  ultimately show thesis by (intro that) (assumption | simp only:)+
qed

subsection \<open>What the fixture publishes and what it holds\<close>

text \<open>The environment of the resolver's container: the metadata, and the target port.\<close>

definition dohEnviron :: "target \<Rightarrow> int \<Rightarrow> environ" where
  "dohEnviron t port = (map_of (metadataEnv (metadata t)))(''TARGET_PORT'' \<mapsto> itoa port)"

definition x25519Keys :: "(nat \<Rightarrow> x25519) \<Rightarrow> bool" where
  "x25519Keys draw \<longleftrightarrow> (\<forall>i pk sk. draw i = Ok (pk, sk) \<longrightarrow> length pk = 32)"

lemma newECHKey_decodes:
  assumes "newECHKey (draw n) i name retry = Ok key" "x25519Keys draw" "length name < 256"
  obtains pk sk where "draw n = Ok (pk, sk)" "decodeConfigList (configList key) = Some [fixtureContents i pk name 64]"
    "echPrivate key = sk" "echRetryable key = retry"
proof -
  from assms(1) obtain pk sk where d: "draw n = Ok (pk, sk)" by (auto simp: newECHKey_def bindR_Ok)
  with assms(2) have "length pk = 32" unfolding x25519Keys_def by blast
  with configList_decodes [OF assms(1) [unfolded d] assms(3)] assms(3) d that show thesis by auto
qed

lemma decodeEnvironment_encoded:
  "e name = Some (encodeToString StdEncoding bs) \<Longrightarrow> bs \<noteq> [] \<Longrightarrow> decodeEnvironment e name = Ok bs"
  using std.encodeToString_inject [of bs "[]"]
  by (simp add: decodeEnvironment_def requiredEnvironment_def std.decode_encode)

lemma configList_not_Nil: "configList key \<noteq> []"
  by (simp add: configList_def appendUint16Length_def appendUint16_def)

lemma itoa_not_Nil: "itoa i \<noteq> []"
  by (simp add: itoa_def)

text \<open>What the environment of the resolver holds, variable by variable.\<close>

definition resolverVars ::
    "echKey \<Rightarrow> echKey \<Rightarrow> echKey \<Rightarrow> echKey \<Rightarrow> byte list \<Rightarrow> byte list \<Rightarrow> byte list \<Rightarrow> (string \<times> string) list" where
  "resolverVars green retry disabled issue1561 certPEM keyPEM caBytes =
     [(''ECH_GREEN_CONFIG_LIST'', encodeToString StdEncoding (configList green)),
      (''ECH_RETRY_STALE_CONFIG_LIST'', encodeToString StdEncoding (configList retry)),
      (''ECH_DISABLED_STALE_CONFIG_LIST'', encodeToString StdEncoding (configList disabled)),
      (''ECH_ISSUE1561_STALE_CONFIG_LIST'', encodeToString StdEncoding (configList issue1561)),
      (''DOH_CERT'', encodeToString StdEncoding certPEM), (''DOH_KEY'', encodeToString StdEncoding keyPEM),
      (''CA_CERT'', encodeToString StdEncoding caBytes)]"

lemma target_environment:
  assumes "runTarget lib clock draw s = Ok (t, s')"
  obtains retryStale disabledStale issue1561Stale c ca caKey caPEM where
    "newECHKey (draw 0) 1 greenPublicName True = Ok (greenKey t)"
    "newECHKey (draw 1) 2 retryPublicName False = Ok retryStale"
    "newECHKey (draw 2) 3 retryPublicName True = Ok (retryKey t)"
    "newECHKey (draw 3) 4 disabledPublicName False = Ok disabledStale"
    "newECHKey (draw 4) 5 disabledPublicName False = Ok (disabledKey t)"
    "newECHKey (draw 5) 6 issue1561PublicName False = Ok issue1561Stale"
    "newECHKey (draw 6) 7 issue1561PublicName False = Ok (issue1561Key t)"
    "map_of (metadataEnv (metadata t)) = map_of (resolverVars (greenKey t) retryStale disabledStale issue1561Stale
      (pemEncode lib [CertificateBlock c]) (pemEncode lib [PKCS8Block (publicKey c)]) caPEM)"
    "fixtureNewCA lib = Ok (ca, caKey, caPEM)" "dnsNames (contents c) = [dohName]" "signedBy c = caKey"
    "issuerCN c = subjectCN (contents ca)"
proof (rule runTarget_Ok [OF assms], rule that)
  fix retryStale disabledStale issue1561Stale c caPEM
  assume m: "metadata t = metadataText
       [(''ECH_GREEN_CONFIG_LIST'', configList (greenKey t)),
        (''ECH_RETRY_STALE_CONFIG_LIST'', configList retryStale),
        (''ECH_DISABLED_STALE_CONFIG_LIST'', configList disabledStale),
        (''ECH_ISSUE1561_STALE_CONFIG_LIST'', configList issue1561Stale),
        (''DOH_CERT'', pemEncode lib [CertificateBlock c]),
        (''DOH_KEY'', pemEncode lib [PKCS8Block (publicKey c)]), (''CA_CERT'', caPEM)]"
  show "map_of (metadataEnv (metadata t)) = map_of (resolverVars (greenKey t) retryStale disabledStale issue1561Stale
      (pemEncode lib [CertificateBlock c]) (pemEncode lib [PKCS8Block (publicKey c)]) caPEM)"
    unfolding m by (subst metadataEnv_text) (auto simp: resolverVars_def)
qed

text \<open>The resolver started in an environment with those variables.\<close>

lemma runDoH_environment:
  assumes "map_of vars = map_of (resolverVars green retry disabled issue1561 certPEM keyPEM caBytes)"
    and "- (2 ^ 63) \<le> port" "port < 2 ^ 63" "certPEM \<noteq> []" "keyPEM \<noteq> []"
  shows "runDoH lib ((map_of vars)(''TARGET_PORT'' \<mapsto> itoa port)) =
      (case keyPairOfPEM lib certPEM keyPEM of
         Err m \<Rightarrow> Err (BadCertificate m)
       | Panic \<Rightarrow> Panic
       | Ok certificate \<Rightarrow>
           Ok \<lparr>dohCertificate = certificate,
               echConfigs = [greenName \<mapsto> configList green, retryName \<mapsto> configList retry, disabledName \<mapsto> configList disabled],
               targetPort = port\<rparr>)"
proof -
  let ?e = "(map_of vars)(''TARGET_PORT'' \<mapsto> itoa port)"
  have decoded: "decodeEnvironment ?e ''DOH_CERT'' = Ok certPEM" "decodeEnvironment ?e ''DOH_KEY'' = Ok keyPEM"
    "decodeEnvironment ?e ''ECH_GREEN_CONFIG_LIST'' = Ok (configList green)"
    "decodeEnvironment ?e ''ECH_RETRY_STALE_CONFIG_LIST'' = Ok (configList retry)"
    "decodeEnvironment ?e ''ECH_DISABLED_STALE_CONFIG_LIST'' = Ok (configList disabled)"
    by (rule decodeEnvironment_encoded; simp add: assms resolverVars_def configList_not_Nil)+
  have "requiredEnvironment ?e ''TARGET_PORT'' = Ok (itoa port)"
    by (simp add: requiredEnvironment_def itoa_not_Nil)
  with decoded atoi_itoa [OF assms(2,3)] show ?thesis by (simp add: runDoH_def)
qed

text \<open>
  C15: the two containers agree.  Started with the metadata the target prints, the resolver publishes
  for \<open>green.secret.test\<close> the configuration of the very key the target holds for its public name,
  for \<open>retry\<close> and \<open>disabled\<close> the stale configurations made for that purpose, and nothing else; it
  serves the certificate that the target minted for \<open>doh.test\<close> under the fixture's CA, with that
  certificate's own private key, and starts whenever \<open>tls.X509KeyPair\<close> takes the two.
\<close>

theorem doh_publishes_target_configs:
  assumes "runTarget lib clock draw s = Ok (t, s')" "- (2 ^ 63) \<le> port" "port < 2 ^ 63"
    and "\<And>bs. pemEncode lib bs \<noteq> []"
  shows "\<exists>retryStale disabledStale c ca caKey caPEM.
    newECHKey (draw 1) 2 retryPublicName False = Ok retryStale \<and>
    newECHKey (draw 3) 4 disabledPublicName False = Ok disabledStale \<and>
    fixtureNewCA lib = Ok (ca, caKey, caPEM) \<and> dnsNames (contents c) = [dohName] \<and> signedBy c = caKey \<and>
    issuerCN c = subjectCN (contents ca) \<and>
    dohEnviron t port ''CA_CERT'' = Some (encodeToString StdEncoding caPEM) \<and>
    runDoH lib (dohEnviron t port) =
      (case keyPairOfPEM lib (pemEncode lib [CertificateBlock c]) (pemEncode lib [PKCS8Block (publicKey c)]) of
         Err m \<Rightarrow> Err (BadCertificate m)
       | Panic \<Rightarrow> Panic
       | Ok certificate \<Rightarrow>
           Ok \<lparr>dohCertificate = certificate,
               echConfigs = [greenName \<mapsto> configList (greenKey t), retryName \<mapsto> configList retryStale,
                             disabledName \<mapsto> configList disabledStale],
               targetPort = port\<rparr>)"
proof (rule target_environment [OF assms(1)])
  fix retryStale disabledStale issue1561Stale c ca caKey caPEM
  assume k: "newECHKey (draw 1) 2 retryPublicName False = Ok retryStale"
      "newECHKey (draw 3) 4 disabledPublicName False = Ok disabledStale"
    and c: "fixtureNewCA lib = Ok (ca, caKey, caPEM)" "dnsNames (contents c) = [dohName]" "signedBy c = caKey"
      "issuerCN c = subjectCN (contents ca)"
    and lookup: "map_of (metadataEnv (metadata t)) = map_of (resolverVars (greenKey t) retryStale disabledStale issue1561Stale
      (pemEncode lib [CertificateBlock c]) (pemEncode lib [PKCS8Block (publicKey c)]) caPEM)"
  have "dohEnviron t port ''CA_CERT'' = Some (encodeToString StdEncoding caPEM)"
    by (simp add: dohEnviron_def lookup resolverVars_def)
  with k c runDoH_environment [OF lookup assms(2,3,4,4)] show ?thesis
    unfolding dohEnviron_def by blast
qed

definition exampleLib :: pemLib where
  "exampleLib =
     (let ca = \<lparr>contents = \<lparr>serialNumber = 1, subjectCN = ''fixture CA'', notBefore = 0, notAfter = 10 ^ 10,
                 keyUsages = [KeyUsageCertSign], extKeyUsages = [], dnsNames = [], ipAddresses = [],
                 basicConstraintsValid = True, isCA = True, maxPathLenZero = False\<rparr>,
               publicKey = 0, issuerCN = ''fixture CA'', signedBy = 0\<rparr>
      in \<lparr>pemDecode = Some, parseCertificate = (\<lambda>_. Ok ca), parseECPrivateKey = (\<lambda>_. Ok 0),
          pemEncode = (\<lambda>_. [45]), keyPairOfPEM = (\<lambda>_ _. Ok \<lparr>chain = [ca], privateKey = 0\<rparr>),
          fixtureCAPEM = [45], fixtureCAKeyPEM = [45]\<rparr>)"

definition exampleDraw :: "nat \<Rightarrow> x25519" where
  "exampleDraw n = Ok (replicate 32 (word_of_nat n), replicate 32 9)"

lemma exampleTarget_runs:
  "\<exists>t s'. runTarget exampleLib (\<lambda>_. (0, 0)) exampleDraw exampleEntropy = Ok (t, s')"
  by (simp add: runTarget_def bindM_def liftR_def fixtureNewCA_def exampleLib_def fixtureNewLeaf_def newKey_def
      exampleEntropy_def createCertificate_def returnM_def newECHKey_def exampleDraw_def targetNames_def Let_def)

lemma exampleDoh_runs:
  assumes "runTarget exampleLib (\<lambda>_. (0, 0)) exampleDraw exampleEntropy = Ok (t, s')"
  shows "\<exists>d. runDoH exampleLib (dohEnviron t 8443) = Ok d"
proof (rule target_environment [OF assms])
  fix retryStale disabledStale issue1561Stale c caPEM
  assume lookup: "map_of (metadataEnv (metadata t)) = map_of (resolverVars (greenKey t) retryStale disabledStale issue1561Stale
      (pemEncode exampleLib [CertificateBlock c]) (pemEncode exampleLib [PKCS8Block (publicKey c)]) caPEM)"
  have "pemEncode exampleLib bs \<noteq> []" "\<exists>c. \<forall>x y. keyPairOfPEM exampleLib x y = Ok c" for bs
    by (simp_all add: exampleLib_def Let_def)
  with runDoH_environment [OF lookup, of 8443 exampleLib] show ?thesis by (auto simp: dohEnviron_def)
qed

lemma doh_publishes_target_configs_witness:
  "\<exists>t s' retryStale disabledStale doh.
     runTarget exampleLib (\<lambda>_. (0, 0)) exampleDraw exampleEntropy = Ok (t, s') \<and>
     newECHKey (exampleDraw 1) 2 retryPublicName False = Ok retryStale \<and>
     newECHKey (exampleDraw 3) 4 disabledPublicName False = Ok disabledStale \<and>
     runDoH exampleLib (dohEnviron t 8443) = Ok doh \<and> targetPort doh = 8443 \<and>
     echConfigs doh = [greenName \<mapsto> configList (greenKey t), retryName \<mapsto> configList retryStale,
                       disabledName \<mapsto> configList disabledStale]"
proof -
  obtain t s' where t: "runTarget exampleLib (\<lambda>_. (0, 0)) exampleDraw exampleEntropy = Ok (t, s')"
    using exampleTarget_runs by blast
  have "pemEncode exampleLib bs \<noteq> []" for bs by (simp add: exampleLib_def Let_def)
  moreover have "\<exists>c. \<forall>x y. keyPairOfPEM exampleLib x y = Ok c" by (simp add: exampleLib_def Let_def)
  ultimately show ?thesis
    using t doh_publishes_target_configs [OF t, of 8443] by fastforce
qed

subsection \<open>The ECH outcomes the fixture stands for\<close>

text \<open>What the resolver publishes when it starts in the environment the target gives it.\<close>

lemma runDoH_publishes:
  assumes "runTarget lib clock draw s = Ok (t, s')" "runDoH lib (dohEnviron t port) = Ok d"
    and "- (2 ^ 63) \<le> port" "port < 2 ^ 63" "\<And>bs. pemEncode lib bs \<noteq> []"
  obtains retryStale disabledStale issue1561Stale where
    "newECHKey (draw 0) 1 greenPublicName True = Ok (greenKey t)"
    "newECHKey (draw 1) 2 retryPublicName False = Ok retryStale"
    "newECHKey (draw 2) 3 retryPublicName True = Ok (retryKey t)"
    "newECHKey (draw 3) 4 disabledPublicName False = Ok disabledStale"
    "newECHKey (draw 4) 5 disabledPublicName False = Ok (disabledKey t)"
    "newECHKey (draw 5) 6 issue1561PublicName False = Ok issue1561Stale"
    "newECHKey (draw 6) 7 issue1561PublicName False = Ok (issue1561Key t)"
    "echConfigs d = [greenName \<mapsto> configList (greenKey t), retryName \<mapsto> configList retryStale,
                    disabledName \<mapsto> configList disabledStale]" "targetPort d = port"
    "dohEnviron t port ''ECH_ISSUE1561_STALE_CONFIG_LIST'' = Some (encodeToString StdEncoding (configList issue1561Stale))"
proof (rule target_environment [OF assms(1)], rule that)
  fix retryStale disabledStale issue1561Stale c caPEM
  assume lookup: "map_of (metadataEnv (metadata t)) = map_of (resolverVars (greenKey t) retryStale disabledStale issue1561Stale
      (pemEncode lib [CertificateBlock c]) (pemEncode lib [PKCS8Block (publicKey c)]) caPEM)"
  from runDoH_environment [OF lookup assms(3,4,5,5), of lib] assms(2)
  show "echConfigs d = [greenName \<mapsto> configList (greenKey t), retryName \<mapsto> configList retryStale,
                    disabledName \<mapsto> configList disabledStale]" "targetPort d = port"
    by (auto simp: dohEnviron_def split: result.splits)
  show "dohEnviron t port ''ECH_ISSUE1561_STALE_CONFIG_LIST'' = Some (encodeToString StdEncoding (configList issue1561Stale))"
    by (simp add: dohEnviron_def lookup resolverVars_def)
qed

text \<open>
  The specification of a handshake: a client seals its hello to the one configuration of a published list
  and sends that configuration's public name as the outer name.  The server accepts when one of its
  keys for that name has this very configuration (the key schedule covers its bytes) and opens what is
  sealed to its public key; otherwise the client is told the configurations marked for a retry, or none.
\<close>

datatype echOutcome = Unusable | EchAccepted | RetryWith "byte list list" | EchRefused

definition echOutcome :: "(byte list \<Rightarrow> byte list \<Rightarrow> bool) \<Rightarrow> target \<Rightarrow> byte list \<Rightarrow> echOutcome" where
  "echOutcome opens t list =
     (case decodeConfigList list of
        Some [published] \<Rightarrow>
          (let keys = getEncryptedClientHelloKeys t (publicName published)
           in if list_ex (\<lambda>k. appendUint16Length [] (keyConfig k) = list \<and> opens (echPublicKey published) (keyPrivate k)) keys
              then EchAccepted
              else (case map keyConfig (filter sendAsRetry keys) of [] \<Rightarrow> EchRefused | configs \<Rightarrow> RetryWith configs))
      | _ \<Rightarrow> Unusable)"

text \<open>The key the target holds for the public name of a key it made.\<close>

lemma held_keys:
  "getEncryptedClientHelloKeys t greenPublicName =
    [\<lparr>keyConfig = echConfig (greenKey t), keyPrivate = echPrivate (greenKey t), sendAsRetry = echRetryable (greenKey t)\<rparr>]"
  "getEncryptedClientHelloKeys t retryPublicName =
    [\<lparr>keyConfig = echConfig (retryKey t), keyPrivate = echPrivate (retryKey t), sendAsRetry = echRetryable (retryKey t)\<rparr>]"
  "getEncryptedClientHelloKeys t disabledPublicName =
    [\<lparr>keyConfig = echConfig (disabledKey t), keyPrivate = echPrivate (disabledKey t), sendAsRetry = echRetryable (disabledKey t)\<rparr>]"
  "getEncryptedClientHelloKeys t issue1561PublicName =
    [\<lparr>keyConfig = echConfig (issue1561Key t), keyPrivate = echPrivate (issue1561Key t), sendAsRetry = echRetryable (issue1561Key t)\<rparr>]"
  by (simp_all add: getEncryptedClientHelloKeys_def name_defs)

lemma outcome_own_key:
  assumes "newECHKey (draw n) i name retry = Ok key" "x25519Keys draw" "length name < 256"
    and "\<And>i pk sk. draw i = Ok (pk, sk) \<Longrightarrow> opens pk sk"
    and "getEncryptedClientHelloKeys t name =
      [\<lparr>keyConfig = echConfig key, keyPrivate = echPrivate key, sendAsRetry = echRetryable key\<rparr>]"
  shows "echOutcome opens t (configList key) = EchAccepted"
proof -
  obtain pk sk where "draw n = Ok (pk, sk)" "decodeConfigList (configList key) = Some [fixtureContents i pk name 64]"
    "echPrivate key = sk" by (rule newECHKey_decodes [OF assms(1,2,3)])
  with assms(4,5) show ?thesis by (simp add: echOutcome_def fixtureContents_def configList_def)
qed

lemma outcome_stale_key:
  assumes "newECHKey (draw m) i name r = Ok stale" "newECHKey (draw n) j name retry = Ok held"
    and "x25519Keys draw" "length name < 256" "i \<noteq> j"
    and "getEncryptedClientHelloKeys t name =
      [\<lparr>keyConfig = echConfig held, keyPrivate = echPrivate held, sendAsRetry = echRetryable held\<rparr>]"
  shows "echOutcome opens t (configList stale) = (if retry then RetryWith [echConfig held] else EchRefused)"
proof -
  obtain pk where published: "decodeConfigList (configList stale) = Some [fixtureContents i pk name 64]"
    by (rule newECHKey_decodes [OF assms(1,3,4)])
  obtain pk' where held: "decodeConfigList (configList held) = Some [fixtureContents j pk' name 64]" "echRetryable held = retry"
    by (rule newECHKey_decodes [OF assms(2,3,4)])
  have "configList held \<noteq> configList stale" using published held(1) assms(5) by (auto simp: fixtureContents_def)
  with published held(2) assms(6) show ?thesis by (simp add: echOutcome_def fixtureContents_def configList_def)
qed

text \<open>
  C6: each published name produces the outcome it is named for.  Start the target and, with its metadata,
  the resolver.  The list published for \<open>green.secret.test\<close> is accepted; the one for \<open>retry.secret.test\<close>
  is not, but the target offers one configuration for a retry, and a client that retries with it is
  accepted; the one for \<open>disabled.secret.test\<close> is refused and nothing is offered, and so is the
  \<open>issue1561\<close> list, which the metadata carries and the resolver does not publish.  No other name is
  published, and for any other outer name the target holds no key.
\<close>

theorem ech_outcomes:
  assumes "runTarget lib clock draw s = Ok (t, s')" "runDoH lib (dohEnviron t port) = Ok d"
    and "- (2 ^ 63) \<le> port" "port < 2 ^ 63" "\<And>bs. pemEncode lib bs \<noteq> []"
    and "x25519Keys draw" "\<And>i pk sk. draw i = Ok (pk, sk) \<Longrightarrow> opens pk sk"
  shows "\<exists>green retry disabled issue1561 config.
    echConfigs d = [greenName \<mapsto> green, retryName \<mapsto> retry, disabledName \<mapsto> disabled] \<and>
    decodeEnvironment (dohEnviron t port) ''ECH_ISSUE1561_STALE_CONFIG_LIST'' = Ok issue1561 \<and>
    echOutcome opens t green = EchAccepted \<and>
    echOutcome opens t retry = RetryWith [config] \<and> echOutcome opens t (appendUint16Length [] config) = EchAccepted \<and>
    echOutcome opens t disabled = EchRefused \<and>
    echOutcome opens t issue1561 = EchRefused \<and>
    map_option (map publicName) (decodeConfigList green) = Some [greenPublicName] \<and>
    map_option (map publicName) (decodeConfigList retry) = Some [retryPublicName] \<and>
    map_option (map publicName) (decodeConfigList disabled) = Some [disabledPublicName] \<and>
    map_option (map publicName) (decodeConfigList issue1561) = Some [issue1561PublicName] \<and>
    (\<forall>name. name \<notin> {greenPublicName, retryPublicName, disabledPublicName, issue1561PublicName} \<longrightarrow>
       getEncryptedClientHelloKeys t name = [])"
proof (rule runDoH_publishes [OF assms(1-5)])
  fix retryStale disabledStale issue1561Stale
  assume keys: "newECHKey (draw 0) 1 greenPublicName True = Ok (greenKey t)"
    "newECHKey (draw 1) 2 retryPublicName False = Ok retryStale"
    "newECHKey (draw 2) 3 retryPublicName True = Ok (retryKey t)"
    "newECHKey (draw 3) 4 disabledPublicName False = Ok disabledStale"
    "newECHKey (draw 4) 5 disabledPublicName False = Ok (disabledKey t)"
    "newECHKey (draw 5) 6 issue1561PublicName False = Ok issue1561Stale"
    "newECHKey (draw 6) 7 issue1561PublicName False = Ok (issue1561Key t)"
    and published: "echConfigs d = [greenName \<mapsto> configList (greenKey t), retryName \<mapsto> configList retryStale,
                    disabledName \<mapsto> configList disabledStale]"
    and env: "dohEnviron t port ''ECH_ISSUE1561_STALE_CONFIG_LIST'' = Some (encodeToString StdEncoding (configList issue1561Stale))"
  have short: "length greenPublicName < 256" "length retryPublicName < 256" "length disabledPublicName < 256"
      "length issue1561PublicName < 256"
    by (simp_all add: name_defs)
  have named: "map_option (map publicName) (decodeConfigList (configList key)) = Some [name]"
    if "newECHKey (draw n) i name r = Ok key" "length name < 256" for n i name r key
    by (rule newECHKey_decodes [OF that(1) assms(6) that(2)]) (simp add: fixtureContents_def)
  note own = outcome_own_key [OF keys(1) assms(6) short(1) assms(7) held_keys(1)]
    outcome_own_key [OF keys(3) assms(6) short(2) assms(7) held_keys(2)]
  have "echOutcome opens t (configList retryStale) = RetryWith [echConfig (retryKey t)]"
    "echOutcome opens t (configList disabledStale) = EchRefused" "echOutcome opens t (configList issue1561Stale) = EchRefused"
    using outcome_stale_key [OF keys(2,3) assms(6) short(2) _ held_keys(2), of opens]
      outcome_stale_key [OF keys(4,5) assms(6) short(3) _ held_keys(3), of opens]
      outcome_stale_key [OF keys(6,7) assms(6) short(4) _ held_keys(4), of opens] by simp_all
  moreover note named [OF keys(1) short(1)] named [OF keys(2) short(2)] named [OF keys(4) short(3)] named [OF keys(6) short(4)]
  moreover have "\<forall>name. name \<notin> {greenPublicName, retryPublicName, disabledPublicName, issue1561PublicName} \<longrightarrow>
       getEncryptedClientHelloKeys t name = []" by (simp add: getEncryptedClientHelloKeys_def)
  moreover note own published decodeEnvironment_encoded [of "dohEnviron t port", OF env configList_not_Nil]
  moreover have "configList (retryKey t) = appendUint16Length [] (echConfig (retryKey t))" by (simp add: configList_def)
  ultimately show ?thesis
    by (intro exI [of _ "configList (greenKey t)"] exI [of _ "configList retryStale"] exI [of _ "configList disabledStale"]
        exI [of _ "configList issue1561Stale"] exI [of _ "echConfig (retryKey t)"] conjI) (simp only:)+
qed

lemma ech_outcomes_witness:
  "\<exists>t s' d green retry disabled config.
     runTarget exampleLib (\<lambda>_. (0, 0)) exampleDraw exampleEntropy = Ok (t, s') \<and>
     runDoH exampleLib (dohEnviron t 8443) = Ok d \<and>
     echConfigs d = [greenName \<mapsto> green, retryName \<mapsto> retry, disabledName \<mapsto> disabled] \<and>
     echOutcome (\<lambda>pk sk. sk = replicate 32 9) t green = EchAccepted \<and>
     echOutcome (\<lambda>pk sk. sk = replicate 32 9) t retry = RetryWith [config] \<and>
     echOutcome (\<lambda>pk sk. sk = replicate 32 9) t disabled = EchRefused"
proof -
  obtain t s' where t: "runTarget exampleLib (\<lambda>_. (0, 0)) exampleDraw exampleEntropy = Ok (t, s')"
    using exampleTarget_runs by blast
  obtain d where d: "runDoH exampleLib (dohEnviron t 8443) = Ok d"
    using exampleDoh_runs [OF t] by blast
  have "x25519Keys exampleDraw" "pemEncode exampleLib bs \<noteq> []" for bs
    by (auto simp: x25519Keys_def exampleDraw_def exampleLib_def Let_def)
  with ech_outcomes [OF t d, of "\<lambda>pk sk. sk = replicate 32 9"] t d show ?thesis
    by (fastforce simp: exampleDraw_def)
qed

text \<open>
  A leaf the fixture mints from its CA is accepted, for every name it was minted for and for the
  day it is valid, by a client that trusts that CA, and for no other name.
\<close>

lemma fixture_leaf_accepted:
  assumes "fixtureNewLeaf lib clock ca caKey names s = Ok ((certPEM, keyPEM), s')"
    and "isCA (contents ca)" "KeyUsageCertSign \<in> set (keyUsages (contents ca))" "validAt now ca"
    and "fst clock - 3600 \<le> now" "now \<le> fst clock + 86400"
  shows "\<exists>c k. certPEM = pemEncode lib [CertificateBlock c] \<and> keyPEM = pemEncode lib [PKCS8Block k] \<and>
    publicKey c = k \<and>
    (\<forall>h. objections (Suc n) [ca] now h \<lparr>chain = [c], privateKey = k\<rparr>
           = (if h \<in> set names then [] else [HostMismatch]))"
proof -
  obtain k c where c: "certPEM = pemEncode lib [CertificateBlock c]" "keyPEM = pemEncode lib [PKCS8Block k]"
    "keyDraws s = k # keyDraws s'" "publicKey c = k" "signedBy c = caKey" "publicKey ca = caKey"
    "issuerCN c = subjectCN (contents ca)" "dnsNames (contents c) = names" "ipAddresses (contents c) = []"
    "notBefore (contents c) = fst clock - 3600" "notAfter (contents c) = fst clock + 86400"
    by (rule fixtureNewLeaf_Ok [OF assms(1)])
  have "validAt now c" using c assms(5,6) by (simp add: validAt_def)
  moreover have "signs ca c" using c assms(2,3) by (simp add: signs_def)
  moreover have "covers c h \<longleftrightarrow> h \<in> set names" for h using c by (simp add: covers_def)
  ultimately have "objections (Suc n) [ca] now h \<lparr>chain = [c], privateKey = k\<rparr>
      = (if h \<in> set names then [] else [HostMismatch])" for h
    using assms(4) by (simp add: objections_def)
  with c show ?thesis by blast
qed

end
