(* ===== verification/Http.thy ===== *)
theory Http
  imports Base64 "HOL-Library.AList" "HOL-Library.Sublist"
begin

text \<open>
  What the handlers use of \<open>net/http\<close>: header maps with canonical keys, the request as the server
  hands it over, and the response writer with its rules.  The first final \<open>WriteHeader\<close> fixes
  status and headers and later ones are ignored; an informational code (1xx other than 101, by the
  rule of HTTP/1; HTTP/2 takes 101 for one, too) is sent on its own and is not the final status; a body is dropped for a status that allows none
  and past a declared \<open>Content-Length\<close>; a code outside 100 to 999 panics.

  The locale \<open>writer_step\<close> is the contract between the handlers and the writer: whatever has been
  sent stays sent.  Each writer operation satisfies it, and so does every composition.
\<close>

subsection \<open>Headers\<close>

type_synonym header = "(string \<times> string list) list"

definition validHeaderFieldByte :: "char \<Rightarrow> bool" where
  "validHeaderFieldByte c \<longleftrightarrow>
     isDigit c \<or> isUpper c \<or> isUpper (char_of ((of_char c :: nat) - 32)) \<and> 97 \<le> (of_char c :: nat)
     \<or> c \<in> set ''!#$%&*+-.^_`|~'' \<or> c = CHR 0x27"

definition upperChar :: "char \<Rightarrow> char" where
  "upperChar c =
     (if 97 \<le> (of_char c :: nat) \<and> (of_char c :: nat) \<le> 122 then char_of ((of_char c :: nat) - 32) else c)"

fun canonLoop :: "bool \<Rightarrow> string \<Rightarrow> string" where
  "canonLoop upper [] = []"
| "canonLoop upper (c # cs) = (if upper then upperChar c else lowerChar c) # canonLoop (c = CHR ''-'') cs"

definition canonicalHeaderKey :: "string \<Rightarrow> string" where
  "canonicalHeaderKey k = (if list_all validHeaderFieldByte k then canonLoop True k else k)"

definition headerValues :: "header \<Rightarrow> string \<Rightarrow> string list" where
  "headerValues h k = (case map_of h (canonicalHeaderKey k) of Some vs \<Rightarrow> vs | None \<Rightarrow> [])"

definition headerGet :: "header \<Rightarrow> string \<Rightarrow> string" where
  "headerGet h k = (case headerValues h k of v # _ \<Rightarrow> v | [] \<Rightarrow> [])"

definition headerSet :: "string \<Rightarrow> string \<Rightarrow> header \<Rightarrow> header" where
  "headerSet k v h = AList.update (canonicalHeaderKey k) [v] h"

definition headerAdd :: "string \<Rightarrow> string \<Rightarrow> header \<Rightarrow> header" where
  "headerAdd k v h = AList.update (canonicalHeaderKey k) (headerValues h k @ [v]) h"

definition headerDel :: "string \<Rightarrow> header \<Rightarrow> header" where
  "headerDel k h = AList.delete (canonicalHeaderKey k) h"

subsection \<open>Requests\<close>

text \<open>
  A request body is the bytes that arrive and, possibly, the error that ends them.  Maps
  (\<open>Header\<close>, \<open>URL.Query()\<close>) are association lists in the order in which a \<open>range\<close> happens to
  visit them.  The type variable is the TLS connection state.
\<close>

record requestBody =
  bodyData :: string
  bodyError :: "string option"

record 'tls request =
  reqMethod :: string
  reqProto :: string
  reqHost :: string
  remoteAddr :: string
  urlPath :: string
  requestURI :: string
  urlQuery :: header
  reqHeader :: header
  reqBody :: requestBody
  reqCookies :: "(string \<times> string) list"
  pathValues :: "(string \<times> string) list"
  reqTLS :: "'tls option"

definition pathValue :: "'tls request \<Rightarrow> string \<Rightarrow> string" where
  "pathValue r name = (case map_of (pathValues r) name of Some v \<Rightarrow> v | None \<Rightarrow> [])"

text \<open>\<open>r.URL.Query().Get(name)\<close>: query keys are not canonicalised.\<close>

definition queryGet :: "header \<Rightarrow> string \<Rightarrow> string" where
  "queryGet q name = (case map_of q name of Some (v # _) \<Rightarrow> v | _ \<Rightarrow> [])"

text \<open>
  \<open>io.ReadAll(io.LimitReader(body, limit))\<close>: at most \<open>limit\<close> bytes; the error of the stream only
  surfaces when the limit was not reached first.
\<close>

definition readLimited :: "nat \<Rightarrow> requestBody \<Rightarrow> (string, string) result" where
  "readLimited limit b =
     (if limit \<le> length (bodyData b) then Ok (take limit (bodyData b))
      else case bodyError b of Some e \<Rightarrow> Err e | None \<Rightarrow> Ok (bodyData b))"

subsection \<open>The response writer\<close>

record writer =
  wHeader :: header
  wInformational :: "(int \<times> header) list"
  wStatus :: "(int \<times> header) option"
  wBody :: string
  wWritten :: nat
  wFlushes :: "nat list"
  wWaits :: "int list"
  wPanic :: bool

definition newWriter :: writer where
  "newWriter = \<lparr>wHeader = [], wInformational = [], wStatus = None, wBody = [], wWritten = 0,
                wFlushes = [], wWaits = [], wPanic = False\<rparr>"

definition setHeader :: "string \<Rightarrow> string \<Rightarrow> writer \<Rightarrow> writer" where
  "setHeader k v w = w\<lparr>wHeader := headerSet k v (wHeader w)\<rparr>"

definition writeHeader :: "int \<Rightarrow> writer \<Rightarrow> writer" where
  "writeHeader code w =
     (if wStatus w \<noteq> None then w
      else if code < 100 \<or> 999 < code then w\<lparr>wPanic := True\<rparr>
      else if code \<le> 199 \<and> code \<noteq> 101 then w\<lparr>wInformational := wInformational w @ [(code, wHeader w)]\<rparr>
      else w\<lparr>wStatus := Some (code, wHeader w)\<rparr>)"

definition bodyAllowedForStatus :: "int \<Rightarrow> bool" where
  "bodyAllowedForStatus code \<longleftrightarrow> \<not> (100 \<le> code \<and> code \<le> 199) \<and> code \<noteq> 204 \<and> code \<noteq> 304"

definition declaredLength :: "header \<Rightarrow> int option" where
  "declaredLength h =
     (case headerGet h ''Content-Length'' of
        [] \<Rightarrow> None
      | cl \<Rightarrow> (case atoi cl of Some n \<Rightarrow> if 0 \<le> n then Some n else None | None \<Rightarrow> None))"

definition ensureHeader :: "writer \<Rightarrow> writer" where
  "ensureHeader w = (if wStatus w = None then writeHeader 200 w else w)"

definition writeBody :: "string \<Rightarrow> writer \<Rightarrow> writer" where
  "writeBody data w =
     (let w = ensureHeader w
      in case wStatus w of
           None \<Rightarrow> w
         | Some (code, h) \<Rightarrow>
             (if data = [] \<or> \<not> bodyAllowedForStatus code then w
              else (let written = wWritten w + length data
                    in case declaredLength h of
                         Some n \<Rightarrow>
                           (if n < int written then w\<lparr>wWritten := written\<rparr>
                            else w\<lparr>wWritten := written, wBody := wBody w @ data\<rparr>)
                       | None \<Rightarrow> w\<lparr>wWritten := written, wBody := wBody w @ data\<rparr>)))"

text \<open>\<open>Flush\<close> sends what has been written so far; the flush points are positions in the body.\<close>

definition flush :: "writer \<Rightarrow> writer" where
  "flush w = (let w = ensureHeader w in w\<lparr>wFlushes := wFlushes w @ [length (wBody w)]\<rparr>)"

definition httpError :: "string \<Rightarrow> int \<Rightarrow> writer \<Rightarrow> writer" where
  "httpError msg code w =
     (let w = w\<lparr>wHeader := headerDel ''Content-Length'' (wHeader w)\<rparr>;
          w = setHeader ''Content-Type'' ''text/plain; charset=utf-8'' w;
          w = setHeader ''X-Content-Type-Options'' ''nosniff'' w;
          w = writeHeader code w
      in writeBody (msg @ [CHR 0x0A]) w)"

text \<open>
  \<open>select { case <-time.After(d): case <-r.Context().Done(): }\<close>: the wait is recorded, and the second
  component says whether the request was cancelled first; \<open>cancelled n\<close> says so of its \<open>n\<close>-th wait.
\<close>

definition waitFor :: "(nat \<Rightarrow> bool) \<Rightarrow> int \<Rightarrow> writer \<Rightarrow> writer \<times> bool" where
  "waitFor cancelled d w = (w\<lparr>wWaits := wWaits w @ [d]\<rparr>, cancelled (length (wWaits w)))"

text \<open>What the server does once the handler has returned.\<close>

definition finish :: "writer \<Rightarrow> writer" where
  "finish w = ensureHeader w"

definition statusOf :: "writer \<Rightarrow> int option" where
  "statusOf w = map_option fst (wStatus w)"

definition sentHeader :: "writer \<Rightarrow> string \<Rightarrow> string option" where
  "sentHeader w k =
     (case wStatus w of
        None \<Rightarrow> None
      | Some (_, h) \<Rightarrow> (case headerValues h k of v # _ \<Rightarrow> Some v | [] \<Rightarrow> None))"

subsection \<open>The contract: what has been sent stays sent\<close>

definition extends :: "writer \<Rightarrow> writer \<Rightarrow> bool" where
  "extends w w' \<longleftrightarrow>
     (wStatus w \<noteq> None \<longrightarrow> wStatus w' = wStatus w) \<and>
     prefix (wBody w) (wBody w') \<and>
     prefix (wInformational w) (wInformational w') \<and>
     prefix (wFlushes w) (wFlushes w') \<and>
     (wPanic w \<longrightarrow> wPanic w')"

lemma extends_refl [simp, intro]: "extends w w"
  by (simp add: extends_def)

lemma extends_trans [trans]: "extends u v \<Longrightarrow> extends v w \<Longrightarrow> extends u w"
  by (auto simp: extends_def intro: prefix_order.trans)

locale writer_step =
  fixes op :: "writer \<Rightarrow> writer"
  assumes step_extends: "extends w (op w)"
begin

lemma status_committed: "wStatus w = Some st \<Longrightarrow> wStatus (op w) = Some st"
  using step_extends [of w] by (simp add: extends_def)

lemma then_extends: "extends (op w) w' \<Longrightarrow> extends w w'"
  using step_extends extends_trans by blast

lemma iterate_extends: "extends w ((op ^^ n) w)"
  by (induction n) (auto intro: extends_trans step_extends)

lemma iterate_status: "wStatus w = Some st \<Longrightarrow> wStatus ((op ^^ n) w) = Some st"
  using iterate_extends [of w n] by (simp add: extends_def)

end

lemma ensureHeader_extends: "extends w (ensureHeader w)"
  by (simp add: ensureHeader_def writeHeader_def extends_def)

interpretation setHeader: writer_step "setHeader k v"
  by unfold_locales (simp add: setHeader_def extends_def)

interpretation writeHeader: writer_step "writeHeader code"
  by unfold_locales (simp add: writeHeader_def extends_def)

interpretation writeBody: writer_step "writeBody data"
proof unfold_locales
  fix w
  have "extends (ensureHeader w) (writeBody data w)"
    by (auto simp: writeBody_def extends_def Let_def split: option.splits)
  then show "extends w (writeBody data w)"
    using ensureHeader_extends extends_trans by blast
qed

interpretation flush: writer_step flush
proof unfold_locales
  fix w
  have "extends (ensureHeader w) (flush w)"
    by (simp add: flush_def extends_def Let_def)
  then show "extends w (flush w)"
    using ensureHeader_extends extends_trans by blast
qed

interpretation httpError: writer_step "httpError msg code"
proof unfold_locales
  fix w
  have "extends w (w\<lparr>wHeader := headerDel ''Content-Length'' (wHeader w)\<rparr>)"
    by (simp add: extends_def)
  then show "extends w (httpError msg code w)"
    unfolding httpError_def Let_def
    by (meson extends_trans setHeader.step_extends writeHeader.step_extends writeBody.step_extends)
qed

subsection \<open>Header and writer lemmas\<close>

lemma headerValues_set [simp]:
  "headerValues (headerSet k v h) k' =
     (if canonicalHeaderKey k' = canonicalHeaderKey k then [v] else headerValues h k')"
  by (simp add: headerValues_def headerSet_def update_conv')

lemma headerValues_del [simp]:
  "headerValues (headerDel k h) k' =
     (if canonicalHeaderKey k' = canonicalHeaderKey k then [] else headerValues h k')"
  by (simp add: headerValues_def headerDel_def delete_conv')

lemma headerGet_set [simp]:
  "headerGet (headerSet k v h) k' =
     (if canonicalHeaderKey k' = canonicalHeaderKey k then v else headerGet h k')"
  by (simp add: headerGet_def)

lemma headerGet_del [simp]:
  "headerGet (headerDel k h) k' =
     (if canonicalHeaderKey k' = canonicalHeaderKey k then [] else headerGet h k')"
  by (simp add: headerGet_def)

lemma headerGet_Nil [simp]: "headerGet [] k = []"
  by (simp add: headerGet_def headerValues_def)

lemma headerValues_Nil [simp]: "headerValues [] k = []"
  by (simp add: headerValues_def)

lemma canonical_keys [simp]:
  "canonicalHeaderKey ''Content-Type'' = ''Content-Type''"
  "canonicalHeaderKey ''Content-Length'' = ''Content-Length''"
  "canonicalHeaderKey ''Content-Encoding'' = ''Content-Encoding''"
  "canonicalHeaderKey ''X-Content-Type-Options'' = ''X-Content-Type-Options''"
  "canonicalHeaderKey ''Location'' = ''Location''"
  "canonicalHeaderKey ''ETag'' = ''Etag''"
  "canonicalHeaderKey ''Etag'' = ''Etag''"
  "canonicalHeaderKey ''Last-Modified'' = ''Last-Modified''"
  "canonicalHeaderKey ''Cache-Control'' = ''Cache-Control''"
  "canonicalHeaderKey ''Set-Cookie'' = ''Set-Cookie''"
  "canonicalHeaderKey ''Trailer'' = ''Trailer''"
  "canonicalHeaderKey ''Allow'' = ''Allow''"
  "canonicalHeaderKey ''WWW-Authenticate'' = ''Www-Authenticate''"
  "canonicalHeaderKey ''Www-Authenticate'' = ''Www-Authenticate''"
  "canonicalHeaderKey ''X-Testbed-Checksum'' = ''X-Testbed-Checksum''"
  "canonicalHeaderKey ''X-Testbed-Protocol'' = ''X-Testbed-Protocol''"
  "canonicalHeaderKey ''X-Forwarded-Proto'' = ''X-Forwarded-Proto''"
  "canonicalHeaderKey ''If-None-Match'' = ''If-None-Match''"
  "canonicalHeaderKey ''If-Modified-Since'' = ''If-Modified-Since''"
  "canonicalHeaderKey ''Authorization'' = ''Authorization''"
  by (simp_all add: canonicalHeaderKey_def validHeaderFieldByte_def isDigit_def isUpper_def upperChar_def
      lowerChar_def) (simp_all add: char_of_def bit_0)

lemma newWriter_fields [simp]:
  "wHeader newWriter = []" "wInformational newWriter = []" "wStatus newWriter = None"
  "wBody newWriter = []" "wWritten newWriter = 0" "wFlushes newWriter = []" "wWaits newWriter = []" "wPanic newWriter = False"
  by (simp_all add: newWriter_def)

lemma setHeader_fields [simp]:
  "wHeader (setHeader k v w) = headerSet k v (wHeader w)"
  "wStatus (setHeader k v w) = wStatus w" "wBody (setHeader k v w) = wBody w"
  "wInformational (setHeader k v w) = wInformational w" "wWritten (setHeader k v w) = wWritten w"
  "wFlushes (setHeader k v w) = wFlushes w" "wWaits (setHeader k v w) = wWaits w"
  "wPanic (setHeader k v w) = wPanic w"
  by (simp_all add: setHeader_def)

definition finalCode :: "int \<Rightarrow> bool" where
  "finalCode code \<longleftrightarrow> 100 \<le> code \<and> code \<le> 999 \<and> (199 < code \<or> code = 101)"

lemma writeHeader_final [simp]:
  "wStatus w = None \<Longrightarrow> finalCode code \<Longrightarrow> writeHeader code w = w\<lparr>wStatus := Some (code, wHeader w)\<rparr>"
  by (auto simp: writeHeader_def finalCode_def)

lemma finalCode_numerals [simp]:
  "finalCode 200" "finalCode 302" "finalCode 304" "finalCode 400" "finalCode 401" "finalCode 404"
  "finalCode 405" "finalCode 500" "finalCode 501"
  by (simp_all add: finalCode_def)

text \<open>An error response on a fresh writer: status, type, and the message as the whole body.\<close>

lemma httpError_fresh:
  assumes "wStatus w = None" "finalCode code" "bodyAllowedForStatus code" "wBody w = []"
  shows "statusOf (httpError msg code w) = Some code"
    "wBody (httpError msg code w) = msg @ [CHR 0x0A]"
    "sentHeader (httpError msg code w) ''Content-Type'' = Some ''text/plain; charset=utf-8''"
    "sentHeader (httpError msg code w) ''Content-Length'' = None"
    "wPanic (httpError msg code w) = wPanic w"
  using assms
  by (simp_all add: httpError_def Let_def writeBody_def ensureHeader_def statusOf_def sentHeader_def
      declaredLength_def)

end
