(* ===== verification/Json.thy ===== *)
theory Json
  imports Go_Prelude "HOL-Library.Char_ord" "HOL-Library.List_Lexorder"
begin

text \<open>
  \<open>unicode/utf8\<close> validity and \<open>encoding/json\<close> output, as \<open>writeJSON\<close> and the echo of
  \<open>/anything\<close> depend on them.  A Go map is written with its keys sorted bytewise, a struct in
  field order.  The specification is the string decoder of RFC 8259; the theorems show that a
  valid UTF-8 string survives the trip through a JSON string and that an invalid one does not,
  which is why the echo needs its base64 branch.
\<close>

subsection \<open>UTF-8\<close>

definition inRange :: "nat \<Rightarrow> nat \<Rightarrow> char \<Rightarrow> bool" where
  "inRange lo hi c \<longleftrightarrow> lo \<le> (of_char c :: nat) \<and> (of_char c :: nat) \<le> hi"

text \<open>
  The table of \<open>unicode/utf8\<close>: for a lead byte, the size of the encoding and the range of its
  second byte.
\<close>

definition leadByte :: "char \<Rightarrow> (nat \<times> nat \<times> nat) option" where
  "leadByte c =
     (if inRange 0 0x7F c then Some (1, 0, 0)
      else if inRange 0xC2 0xDF c then Some (2, 0x80, 0xBF)
      else if inRange 0xE0 0xE0 c then Some (3, 0xA0, 0xBF)
      else if inRange 0xE1 0xEC c then Some (3, 0x80, 0xBF)
      else if inRange 0xED 0xED c then Some (3, 0x80, 0x9F)
      else if inRange 0xEE 0xEF c then Some (3, 0x80, 0xBF)
      else if inRange 0xF0 0xF0 c then Some (4, 0x90, 0xBF)
      else if inRange 0xF1 0xF3 c then Some (4, 0x80, 0xBF)
      else if inRange 0xF4 0xF4 c then Some (4, 0x80, 0x8F)
      else None)"

text \<open>The size of the valid encoding a string starts with; 0 where \<open>DecodeRune\<close> reports an error.\<close>

definition runeSize :: "string \<Rightarrow> nat" where
  "runeSize s =
     (case s of
        [] \<Rightarrow> 0
      | c0 # cs \<Rightarrow>
          (case leadByte c0 of
             None \<Rightarrow> 0
           | Some (n, lo, hi) \<Rightarrow>
               if n = 1 then 1
               else (case cs of
                       [] \<Rightarrow> 0
                     | c1 # ds \<Rightarrow>
                         if n - 2 \<le> length ds \<and> inRange lo hi c1 \<and> list_all (inRange 0x80 0xBF) (take (n - 2) ds)
                         then n else 0)))"

function utf8Valid :: "string \<Rightarrow> bool" where
  "utf8Valid s =
     (if s = [] then True else if runeSize s = 0 then False else utf8Valid (drop (runeSize s) s))"
  by pat_completeness auto
termination
  by (relation "measure length") auto

declare utf8Valid.simps [simp del]

subsection \<open>JSON strings\<close>

definition hexChar :: "nat \<Rightarrow> char" where
  "hexChar d = (if d < 10 then char_of (48 + d) else char_of (87 + d))"

definition htmlSafe :: "char \<Rightarrow> bool" where
  "htmlSafe c \<longleftrightarrow> inRange 0x20 0x7F c \<and> c \<notin> {CHR 0x22, CHR 0x5C, CHR ''<'', CHR ''>'', CHR ''&''}"

definition escapeChar :: "char \<Rightarrow> string" where
  "escapeChar c =
     (if c = CHR 0x5C \<or> c = CHR 0x22 then [CHR 0x5C, c]
      else if c = CHR 0x08 then [CHR 0x5C, CHR ''b'']
      else if c = CHR 0x0C then [CHR 0x5C, CHR ''f'']
      else if c = CHR 0x0A then [CHR 0x5C, CHR ''n'']
      else if c = CHR 0x0D then [CHR 0x5C, CHR ''r'']
      else if c = CHR 0x09 then [CHR 0x5C, CHR ''t'']
      else CHR 0x5C # ''u00'' @ [hexChar (of_char c div 16), hexChar (of_char c mod 16)])"

definition lineSeparator :: "string \<Rightarrow> bool" where
  "lineSeparator r \<longleftrightarrow> r = [CHR 0xE2, CHR 0x80, CHR 0xA8] \<or> r = [CHR 0xE2, CHR 0x80, CHR 0xA9]"

text \<open>The loop of \<open>appendString\<close>, with HTML escaping as \<open>Marshal\<close> has it.\<close>

function quoteLoop :: "string \<Rightarrow> string" where
  "quoteLoop s =
     (case s of
        [] \<Rightarrow> []
      | c # cs \<Rightarrow>
          if inRange 0 0x7F c then (if htmlSafe c then [c] else escapeChar c) @ quoteLoop cs
          else if runeSize s = 0 then CHR 0x5C # ''ufffd'' @ quoteLoop cs
          else if lineSeparator (take (runeSize s) s)
          then CHR 0x5C # ''u202'' @ [hexChar (of_char (s ! 2) mod 16)] @ quoteLoop (drop (runeSize s) s)
          else take (runeSize s) s @ quoteLoop (drop (runeSize s) s))"
  by pat_completeness auto
termination
  by (relation "measure length") auto

declare quoteLoop.simps [simp del]

definition quoteJSON :: "string \<Rightarrow> string" where
  "quoteJSON s = CHR 0x22 # quoteLoop s @ [CHR 0x22]"

subsection \<open>The verb \<open>%q\<close>\<close>

text \<open>
  \<open>strconv.Quote\<close> of an ASCII string; which other characters are printable is a Unicode table,
  so any other string goes through the argument \<open>quoteUnicode\<close>.
\<close>

definition goEscape :: "char \<Rightarrow> string" where
  "goEscape c =
     (if c = CHR 0x22 \<or> c = CHR 0x5C then [CHR 0x5C, c]
      else if inRange 0x20 0x7E c then [c]
      else if c = CHR 0x07 then [CHR 0x5C, CHR ''a'']
      else if c = CHR 0x08 then [CHR 0x5C, CHR ''b'']
      else if c = CHR 0x0C then [CHR 0x5C, CHR ''f'']
      else if c = CHR 0x0A then [CHR 0x5C, CHR ''n'']
      else if c = CHR 0x0D then [CHR 0x5C, CHR ''r'']
      else if c = CHR 0x09 then [CHR 0x5C, CHR ''t'']
      else if c = CHR 0x0B then [CHR 0x5C, CHR ''v'']
      else CHR 0x5C # ''x'' @ [hexChar (of_char c div 16), hexChar (of_char c mod 16)])"

definition goQuote :: "(string \<Rightarrow> string) \<Rightarrow> string \<Rightarrow> string" where
  "goQuote quoteUnicode s =
     (if isASCII s then CHR 0x22 # concat (map goEscape s) @ [CHR 0x22] else quoteUnicode s)"

subsection \<open>JSON values\<close>

datatype json =
    JNull
  | JBool bool
  | JInt int
  | JString string
  | JArray "json list"
  | JObject "(string \<times> json) list"

definition jsonMap :: "(string \<times> json) list \<Rightarrow> json" where
  "jsonMap kvs = JObject (sort_key fst kvs)"

definition jsonStrings :: "string list \<Rightarrow> json" where
  "jsonStrings xs = JArray (map JString xs)"

definition indent :: "nat \<Rightarrow> string" where
  "indent depth = CHR 0x0A # concat (replicate depth ''  '')"

fun renderJSON :: "nat \<Rightarrow> json \<Rightarrow> string" where
  "renderJSON depth JNull = ''null''"
| "renderJSON depth (JBool b) = (if b then ''true'' else ''false'')"
| "renderJSON depth (JInt i) = itoa i"
| "renderJSON depth (JString s) = quoteJSON s"
| "renderJSON depth (JArray xs) =
     (if xs = [] then ''[]''
      else ''['' @ join '','' (map (\<lambda>x. indent (depth + 1) @ renderJSON (depth + 1) x) xs)
           @ indent depth @ '']'')"
| "renderJSON depth (JObject kvs) =
     (if kvs = [] then ''{}''
      else ''{'' @ join '','' (map (\<lambda>(k, v). indent (depth + 1) @ quoteJSON k @ '': '' @ renderJSON (depth + 1) v) kvs)
           @ indent depth @ ''}'')"

text \<open>
  \<open>json.MarshalIndent(v, "", "  ")\<close>.  Every value of type \<open>json\<close> has an encoding, so the error
  of \<open>MarshalIndent\<close> (a channel, a function, a NaN) does not occur for it.
\<close>

definition marshalIndent :: "json \<Rightarrow> (string, string) result" where
  "marshalIndent v = Ok (renderJSON 0 v)"

text \<open>\<open>json.Marshal\<close>: the same without white space.\<close>

fun compactJSON :: "json \<Rightarrow> string" where
  "compactJSON JNull = ''null''"
| "compactJSON (JBool b) = (if b then ''true'' else ''false'')"
| "compactJSON (JInt i) = itoa i"
| "compactJSON (JString s) = quoteJSON s"
| "compactJSON (JArray xs) = ''['' @ join '','' (map compactJSON xs) @ '']''"
| "compactJSON (JObject kvs) =
     ''{'' @ join '','' (map (\<lambda>(k, v). quoteJSON k @ '':'' @ compactJSON v) kvs) @ ''}''"

definition marshal :: "json \<Rightarrow> (string, string) result" where
  "marshal v = Ok (compactJSON v)"

subsection \<open>Specification: reading a JSON string\<close>

definition hexValue :: "char \<Rightarrow> nat option" where
  "hexValue c =
     (if inRange 48 57 c then Some (of_char c - 48)
      else if inRange 97 102 c then Some (of_char c - 87)
      else if inRange 65 70 c then Some (of_char c - 55)
      else None)"

text \<open>UTF-8 of a code point of the basic plane.\<close>

definition utf8Encode :: "nat \<Rightarrow> string" where
  "utf8Encode u =
     (if u < 0x80 then [char_of u]
      else if u < 0x800 then [char_of (0xC0 + u div 64), char_of (0x80 + u mod 64)]
      else [char_of (0xE0 + u div 4096), char_of (0x80 + u div 64 mod 64), char_of (0x80 + u mod 64)])"

definition simpleEscape :: "char \<Rightarrow> char option" where
  "simpleEscape c = map_of
     [(CHR 0x22, CHR 0x22), (CHR 0x5C, CHR 0x5C), (CHR ''/'', CHR ''/''), (CHR ''b'', CHR 0x08),
      (CHR ''f'', CHR 0x0C), (CHR ''n'', CHR 0x0A), (CHR ''r'', CHR 0x0D), (CHR ''t'', CHR 0x09)] c"

definition prepend :: "string \<Rightarrow> (string \<times> string) option \<Rightarrow> (string \<times> string) option" where
  "prepend p r = map_option (\<lambda>(s, rest). (p @ s, rest)) r"

fun unquote :: "string \<Rightarrow> (string \<times> string) option" where
  "unquote [] = None"
| "unquote (c # cs) =
     (if c = CHR 0x22 then Some ([], cs)
      else if c \<noteq> CHR 0x5C then (if inRange 0 0x1F c then None else prepend [c] (unquote cs))
      else (case cs of
              [] \<Rightarrow> None
            | e # es \<Rightarrow>
                if e = CHR ''u'' then
                  (case es of
                     h3 # h2 # h1 # h0 # rest \<Rightarrow>
                       (case (hexValue h3, hexValue h2, hexValue h1, hexValue h0) of
                          (Some d3, Some d2, Some d1, Some d0) \<Rightarrow>
                            prepend (utf8Encode (d3 * 4096 + d2 * 256 + d1 * 16 + d0)) (unquote rest)
                        | _ \<Rightarrow> None)
                   | _ \<Rightarrow> None)
                else (case simpleEscape e of
                        None \<Rightarrow> None
                      | Some x \<Rightarrow> prepend [x] (unquote es))))"

subsection \<open>Round trip\<close>

lemma prepend_simps [simp]:
  "prepend p None = None" "prepend p (Some (s, rest)) = Some (p @ s, rest)"
  by (simp_all add: prepend_def)

lemma prepend_Nil [simp]: "prepend [] r = r"
  by (cases r) auto

lemma prepend_prepend [simp]: "prepend p (prepend q r) = prepend (p @ q) r"
  by (cases r) auto

lemma hexValue_hexChar [simp]: "d < 16 \<Longrightarrow> hexValue (hexChar d) = Some d"
  by (auto simp: hexValue_def hexChar_def inRange_def)

text \<open>Every byte of a multi-byte encoding is outside ASCII, so none of them is special in JSON.\<close>

lemma leadByte_range:
  "leadByte c = Some (n, lo, hi) \<Longrightarrow> \<not> inRange 0 0x7F c \<Longrightarrow> 2 \<le> n \<and> 0x80 \<le> lo"
  by (auto simp: leadByte_def split: if_splits)

lemma inRange_high: "0x80 \<le> lo \<Longrightarrow> inRange lo hi c \<Longrightarrow> \<not> inRange 0 0x7F c"
  by (simp add: inRange_def)

lemma runeSize_bytes:
  assumes "\<not> inRange 0 0x7F c0"
  shows "list_all (\<lambda>c. \<not> inRange 0 0x7F c) (take (runeSize (c0 # cs)) (c0 # cs))"
proof (cases "runeSize (c0 # cs) = 0")
  case False
  then obtain n lo hi c1 ds where l: "leadByte c0 = Some (n, lo, hi)" and cs: "cs = c1 # ds"
    and r: "inRange lo hi c1" "list_all (inRange 0x80 0xBF) (take (n - 2) ds)" "runeSize (c0 # cs) = n"
    using leadByte_range [OF _ assms]
    by (auto simp: runeSize_def split: option.splits if_splits list.splits)
  from leadByte_range [OF l assms] obtain m where m: "n = Suc (Suc m)" and lo: "0x80 \<le> lo"
    by (metis One_nat_def Suc_1 Suc_le_D Suc_le_mono le_SucE not_less_eq_eq)
  have "list_all (\<lambda>c. \<not> inRange 0 0x7F c) (take m ds)"
    using r(2) m by (auto simp: list_all_iff inRange_def)
  then show ?thesis
    using assms r lo cs m inRange_high by simp
qed simp

lemma unquote_raw: "\<not> inRange 0 0x7F c \<Longrightarrow> unquote (c # cs) = prepend [c] (unquote cs)"
  by (auto simp: inRange_def)

lemma unquote_raws:
  "list_all (\<lambda>c. \<not> inRange 0 0x7F c) p \<Longrightarrow> unquote (p @ cs) = prepend p (unquote cs)"
proof (induction p)
  case Nil
  then show ?case by simp
next
  case (Cons c p)
  then show ?case by (simp add: unquote_raw del: unquote.simps)
qed

lemma unquote_safe: "htmlSafe c \<Longrightarrow> unquote (c # cs) = prepend [c] (unquote cs)"
  by (auto simp: htmlSafe_def inRange_def)

lemma unquote_escape:
  assumes "inRange 0 0x7F c"
  shows "unquote (escapeChar c @ cs) = prepend [c] (unquote cs)"
proof -
  define n where "n = (of_char c :: nat)"
  have "n < 128" using assms by (simp add: inRange_def n_def)
  then have h: "n div 16 < 16" "n mod 16 < 16" "n div 16 * 16 + n mod 16 = n" by auto
  have c: "char_of n = c" by (simp add: n_def)
  have zero: "hexValue (CHR ''0'') = Some 0" by (simp add: hexValue_def inRange_def)
  from \<open>n < 128\<close> h c zero show ?thesis
    by (auto simp: escapeChar_def simpleEscape_def utf8Encode_def simp flip: n_def)
qed

lemma separator_values:
  "hexChar (of_char (CHR 0xA8) mod 16) = CHR ''8''" "hexChar (of_char (CHR 0xA9) mod 16) = CHR ''9''"
  "hexValue (CHR ''2'') = Some 2" "hexValue (CHR ''0'') = Some 0"
  "hexValue (CHR ''8'') = Some 8" "hexValue (CHR ''9'') = Some 9"
  "utf8Encode 8232 = [CHR 0xE2, CHR 0x80, CHR 0xA8]" "utf8Encode 8233 = [CHR 0xE2, CHR 0x80, CHR 0xA9]"
  by (simp_all add: hexChar_def hexValue_def inRange_def utf8Encode_def char_of_def bit_0)

lemma unquote_separator:
  assumes "lineSeparator r"
  shows "unquote (CHR 0x5C # ''u202'' @ [hexChar (of_char (r ! 2) mod 16)] @ cs) = prepend r (unquote cs)"
proof -
  from assms consider "r = [CHR 0xE2, CHR 0x80, CHR 0xA8]" | "r = [CHR 0xE2, CHR 0x80, CHR 0xA9]"
    by (auto simp: lineSeparator_def)
  then show ?thesis
    by cases (simp_all add: separator_values del: of_char_Char)
qed

lemma utf8Valid_step:
  "utf8Valid s \<Longrightarrow> s \<noteq> [] \<Longrightarrow> runeSize s \<noteq> 0 \<and> utf8Valid (drop (runeSize s) s)"
  by (subst (asm) utf8Valid.simps) (auto split: if_splits)

lemma unquote_quoteLoop: "utf8Valid s \<Longrightarrow> unquote (quoteLoop s @ cs) = prepend s (unquote cs)"
proof (induction s rule: quoteLoop.induct)
  case (1 s)
  show ?case
  proof (cases s)
    case Nil
    then show ?thesis by (simp add: quoteLoop.simps)
  next
    case (Cons c cs')
    note eq = quoteLoop.simps [of s]
    have valid: "runeSize s \<noteq> 0" "utf8Valid (drop (runeSize s) s)"
      using utf8Valid_step [OF "1.prems"] Cons by simp_all
    show ?thesis
    proof (cases "inRange 0 0x7F c")
      case True
      then have "runeSize s = 1" using Cons by (simp add: runeSize_def leadByte_def)
      with valid Cons have "utf8Valid cs'" by simp
      with "1.IH"(1) [OF Cons True] True Cons eq show ?thesis
        by (simp add: unquote_safe unquote_escape del: unquote.simps)
    next
      case False
      let ?r = "take (runeSize s) s"
      have IH: "unquote (quoteLoop (drop (runeSize s) s) @ cs) = prepend (drop (runeSize s) s) (unquote cs)"
        using "1.IH"(3,4) [OF Cons False valid(1)] valid(2) by blast
      show ?thesis
      proof (cases "lineSeparator ?r")
        case sep: True
        then have "?r ! 2 = s ! 2"
          by (auto simp: lineSeparator_def take_eq_Nil dest!: arg_cong [of _ _ length])
        with sep IH unquote_separator [OF sep, of "quoteLoop (drop (runeSize s) s) @ cs"] False Cons eq valid
        show ?thesis by (simp del: unquote.simps)
      next
        case nosep: False
        have "list_all (\<lambda>c. \<not> inRange 0 0x7F c) ?r"
          using runeSize_bytes [OF False, of cs'] Cons by simp
        with nosep IH False Cons eq valid show ?thesis
          by (simp add: unquote_raws del: unquote.simps)
      qed
    qed
  qed
qed

lemma unquote_quoteJSON: "utf8Valid s \<Longrightarrow> unquote (tl (quoteJSON s) @ rest) = Some (s, rest)"
  using unquote_quoteLoop [of s "CHR 0x22 # rest"] by (simp add: quoteJSON_def)

lemma quoteJSON_lossy: "quoteJSON [CHR 0xFF] = quoteJSON [CHR 0xFE]"
  by (simp add: quoteJSON_def quoteLoop.simps inRange_def runeSize_def leadByte_def)

end
