(* ===== verification/Serve_Mux.thy ===== *)
theory Serve_Mux
  imports Http Json
begin

text \<open>
  What \<open>http.ServeMux\<close> does with a request before it looks at the registered patterns, for the muxes of
  both programs.  The path it works on is the escaped one, the part of the request URI before the
  query.  The URI \<open>*\<close> is refused with 400; a path that is not in the form \<open>cleanPath\<close> gives it (\<open>//health\<close>,
  \<open>/a/../b\<close>) is answered with 301 to the clean one, except for CONNECT; a clean path is split into its
  segments, each unescaped by the argument \<open>unescape\<close>.
\<close>

subsection \<open>Paths\<close>

definition escapedPath :: "'tls request \<Rightarrow> string" where
  "escapedPath r = (if urlPath r = [] then [] else takeWhile (\<lambda>c. c \<noteq> CHR ''?'') (requestURI r))"

definition rawQuery :: "'tls request \<Rightarrow> string" where
  "rawQuery r = tl (dropWhile (\<lambda>c. c \<noteq> CHR ''?'') (requestURI r))"

text \<open>The loop of \<open>path.Clean\<close> over the segments of a rooted path.\<close>

fun cleanSegments :: "string list \<Rightarrow> string list \<Rightarrow> string list" where
  "cleanSegments out [] = rev out"
| "cleanSegments out (s # ss) =
     (if s = [] \<or> s = ''.'' then cleanSegments out ss
      else if s = ''..'' then cleanSegments (tl out) ss
      else cleanSegments (s # out) ss)"

definition cleanPath :: "string \<Rightarrow> string" where
  "cleanPath p =
     (let p = (if p = [] \<or> hd p \<noteq> CHR ''/'' then CHR ''/'' # p else p);
          np = CHR ''/'' # join ''/'' (cleanSegments [] (split (CHR ''/'') p))
      in if last p = CHR ''/'' \<and> np \<noteq> ''/'' then np @ ''/'' else np)"

text \<open>A trailing slash is the segment \<open>/\<close>, as in \<open>net/http\<close>; the empty path has none.\<close>

definition segmentsOf :: "(string \<Rightarrow> string) \<Rightarrow> string \<Rightarrow> string list" where
  "segmentsOf unescape path =
     (if path = [] then []
      else map (\<lambda>s. if s = [] then ''/'' else unescape s) (split (CHR ''/'') (tl path)))"

subsection \<open>The redirect\<close>

text \<open>
  The location is \<open>u.String()\<close> for a URL whose \<open>Path\<close> is the clean escaped path, so the bytes that a path
  must escape, the percent sign too, are escaped (once more); \<open>http.Redirect\<close> writes it and, to GET, a link.
\<close>

definition unreservedInPath :: "char \<Rightarrow> bool" where
  "unreservedInPath c \<longleftrightarrow>
     isDigit c \<or> isUpper c \<or> 97 \<le> (of_char c :: nat) \<and> (of_char c :: nat) \<le> 122 \<or> c \<in> set ''-_.~$&+,/:;=@''"

definition escapePath :: "string \<Rightarrow> string" where
  "escapePath p =
     concat (map (\<lambda>c. if unreservedInPath c then [c]
                      else [CHR ''%'', upperChar (hexChar (of_char c div 16)), upperChar (hexChar (of_char c mod 16))]) p)"

definition hexEscapeNonASCII :: "string \<Rightarrow> string" where
  "hexEscapeNonASCII s =
     concat (map (\<lambda>c. if (of_char c :: nat) < 128 then [c]
                      else [CHR ''%'', hexChar (of_char c div 16), hexChar (of_char c mod 16)]) s)"

definition htmlEscape :: "string \<Rightarrow> string" where
  "htmlEscape s =
     concat (map (\<lambda>c. if c = CHR ''&'' then ''&amp;'' else if c = CHR ''<'' then ''&lt;'' else if c = CHR ''>'' then ''&gt;''
                      else if c = CHR 0x22 then ''&#34;'' else if c = CHR 0x27 then ''&#39;'' else [c]) s)"

definition cleanURL :: "'tls request \<Rightarrow> string" where
  "cleanURL r =
     escapePath (cleanPath (escapedPath r)) @ (if rawQuery r = [] then [] else CHR ''?'' # rawQuery r)"

definition redirectMoved :: "'tls request \<Rightarrow> writer \<Rightarrow> writer" where
  "redirectMoved r w =
     (let w = setHeader ''Location'' (hexEscapeNonASCII (cleanURL r)) w;
          w = (if reqMethod r = ''GET'' \<or> reqMethod r = ''HEAD''
               then setHeader ''Content-Type'' ''text/html; charset=utf-8'' w else w);
          w = writeHeader 301 w
      in if reqMethod r = ''GET''
         then writeBody (''<a href='' @ [CHR 0x22] @ htmlEscape (cleanURL r) @ [CHR 0x22] @ ''>Moved Permanently</a>.''
                @ [CHR 0x0A, CHR 0x0A]) w
         else w)"

subsection \<open>What the mux does itself\<close>

definition needsCleaning :: "'tls request \<Rightarrow> bool" where
  "needsCleaning r \<longleftrightarrow> reqMethod r \<noteq> ''CONNECT'' \<and> cleanPath (escapedPath r) \<noteq> escapedPath r"

definition muxOwn :: "'tls request \<Rightarrow> writer \<Rightarrow> writer option" where
  "muxOwn r w =
     (if requestURI r = ''*'' then
        Some (writeHeader 400 (if reqProto r = ''HTTP/1.0'' then w else setHeader ''Connection'' ''close'' w))
      else if needsCleaning r then Some (redirectMoved r w)
      else None)"

lemma muxOwn_None: "muxOwn r w = None \<longleftrightarrow> requestURI r \<noteq> ''*'' \<and> \<not> needsCleaning r"
  by (simp add: muxOwn_def)

lemma writeBody_committed:
  "wStatus w = Some x \<Longrightarrow> wStatus (writeBody data w) = Some x \<and> wPanic (writeBody data w) = wPanic w"
  by (auto simp: writeBody_def ensureHeader_def Let_def split: prod.splits option.splits)

lemma redirectMoved_response:
  "statusOf (redirectMoved r newWriter) = Some 301 \<and> \<not> wPanic (redirectMoved r newWriter) \<and>
   sentHeader (redirectMoved r newWriter) ''Location'' = Some (hexEscapeNonASCII (cleanURL r))"
proof -
  define w where "w = (if reqMethod r = ''GET'' \<or> reqMethod r = ''HEAD''
    then setHeader ''Content-Type'' ''text/html; charset=utf-8'' (setHeader ''Location'' (hexEscapeNonASCII (cleanURL r)) newWriter)
    else setHeader ''Location'' (hexEscapeNonASCII (cleanURL r)) newWriter)"
  have "wStatus w = None \<and> \<not> wPanic w \<and> headerValues (wHeader w) ''Location'' = [hexEscapeNonASCII (cleanURL r)]"
    by (simp add: w_def)
  then have "wStatus (writeHeader 301 w) = Some (301, wHeader w)" "\<not> wPanic (writeHeader 301 w)"
    "headerValues (wHeader w) ''Location'' = [hexEscapeNonASCII (cleanURL r)]"
    by (simp_all add: writeHeader_def)
  moreover have "\<exists>data. redirectMoved r newWriter = (if reqMethod r = ''GET'' then writeBody data (writeHeader 301 w) else writeHeader 301 w)"
    unfolding redirectMoved_def Let_def w_def by blast
  ultimately show ?thesis by (auto simp: statusOf_def sentHeader_def writeBody_committed split: if_splits)
qed

subsection \<open>Clean paths\<close>

definition plainSegment :: "string \<Rightarrow> bool" where
  "plainSegment s \<longleftrightarrow> s \<notin> {[], ''.'', ''..''} \<and> CHR ''/'' \<notin> set s"

lemma cleanSegments_id: "\<forall>s \<in> set ss. plainSegment s \<Longrightarrow> cleanSegments out ss = rev out @ ss"
  by (induction ss arbitrary: out) (auto simp: plainSegment_def)

lemma join_plain:
  "ss \<noteq> [] \<Longrightarrow> \<forall>s \<in> set ss. plainSegment s \<Longrightarrow> join ''/'' ss \<noteq> [] \<and> last (join ''/'' ss) \<noteq> CHR ''/''"
proof (induction "''/''" ss rule: join.induct)
  case (2 x)
  then have "x \<noteq> []" "CHR ''/'' \<notin> set x" by (simp_all add: plainSegment_def)
  then show ?case using last_in_set [of x] by (metis join.simps(2))
qed auto

lemma cleanPath_id:
  assumes "ss \<noteq> []" "\<forall>s \<in> set ss. plainSegment s"
  shows "cleanPath (CHR ''/'' # join ''/'' ss) = CHR ''/'' # join ''/'' ss"
proof -
  have "split (CHR ''/'') (join ''/'' ss) = ss" using assms by (intro split_join) (auto simp: plainSegment_def)
  then have "cleanSegments [] (split (CHR ''/'') (CHR ''/'' # join ''/'' ss)) = ss"
    using cleanSegments_id [OF assms(2), of "[]"] by simp
  with join_plain [OF assms] show ?thesis by (simp add: cleanPath_def)
qed

end
