(* ===== verification/Doh_Server.thy ===== *)
theory Doh_Server
  imports Ech_Target Serve_Mux
begin

text \<open>
  The HTTP side of the ECH fixture: \<open>readDnsQuery\<close> and the \<open>/dns-query\<close> handler of \<open>runDoH\<close>, and the
  handlers of \<open>runTarget\<close>.  \<open>quoteUnicode\<close> is \<open>%q\<close> outside ASCII and \<open>mapLower\<close> is \<open>strings.ToLower\<close>
  outside ASCII, as elsewhere.

  The theorems give every outcome of a DoH request, the equivalence of GET and POST, and the whole
  way from the key the target holds to the record a resolving client reads.
\<close>

subsection \<open>The handlers\<close>

definition writeString :: "string \<Rightarrow> writer \<Rightarrow> writer" where
  "writeString s w = writeBody s w"

definition healthHandler :: "writer \<Rightarrow> writer" where
  "healthHandler w = writeString ''ok'' w"

definition metadataHandler :: "target \<Rightarrow> writer \<Rightarrow> writer" where
  "metadataHandler t w = writeString (metadata t) w"

text \<open>The handler of the target's TLS port, given what the handshake recorded.\<close>

definition targetHandler :: "(string \<Rightarrow> string) \<Rightarrow> bool \<Rightarrow> string \<Rightarrow> writer \<Rightarrow> writer" where
  "targetHandler quoteUnicode echAccepted serverName w =
     writeBody
       (''{'' @ [CHR 0x22] @ ''echAccepted'' @ [CHR 0x22] @ '':'' @ (if echAccepted then ''true'' else ''false'')
        @ '','' @ [CHR 0x22] @ ''serverName'' @ [CHR 0x22] @ '':'' @ goQuote quoteUnicode serverName @ ''}'')
       (setHeader ''Content-Type'' ''application/json'' w)"

definition readDnsQuery :: "'tls request \<Rightarrow> (string, byte list) result" where
  "readDnsQuery r =
     (if reqMethod r = ''POST'' then
        (case readLimited 65536 (reqBody r) of Ok s \<Rightarrow> Ok (bytes_of s) | Err e \<Rightarrow> Err e | Panic \<Rightarrow> Panic)
      else if reqMethod r = ''GET'' then
        (case decodeString RawURLEncoding (queryGet (urlQuery r) ''dns'') of
           Ok bs \<Rightarrow> Ok bs | Err i \<Rightarrow> Err (corruptInputError i) | Panic \<Rightarrow> Panic)
      else Err (''unsupported method '' @ reqMethod r))"

fun dnsErrorText :: "(string \<Rightarrow> string) \<Rightarrow> dnsError \<Rightarrow> string" where
  "dnsErrorText quoteUnicode ShortQuery = ''short DNS query''"
| "dnsErrorText quoteUnicode InvalidName = ''invalid DNS name''"
| "dnsErrorText quoteUnicode InvalidLabel = ''invalid DNS label''"
| "dnsErrorText quoteUnicode ShortQuestion = ''short DNS question''"
| "dnsErrorText quoteUnicode (NoFixture name) = ''no ECH fixture for '' @ goQuote quoteUnicode name"

definition dnsQueryHandler ::
    "(string \<Rightarrow> string) \<Rightarrow> (string \<Rightarrow> string) \<Rightarrow> doh \<Rightarrow> 'tls request \<Rightarrow> writer \<Rightarrow> (string, writer) result" where
  "dnsQueryHandler mapLower quoteUnicode d r w =
     (case readDnsQuery r of
        Panic \<Rightarrow> Panic
      | Err e \<Rightarrow> Ok (httpError e 400 w)
      | Ok query \<Rightarrow>
          (case dnsResponse mapLower query (echConfigs d) (targetPort d) of
             Panic \<Rightarrow> Panic
           | Err e \<Rightarrow> Ok (httpError (dnsErrorText quoteUnicode e) 400 w)
           | Ok response \<Rightarrow>
               Ok (writeBody (string_of response) (setHeader ''Content-Type'' ''application/dns-message'' w))))"

subsection \<open>The servers\<close>

text \<open>
  The three \<open>http.Server\<close>s: the target's plain one for the health check and the metadata, its TLS one,
  and the resolver's.  Their patterns have no method and no wildcard; what \<open>ServeMux\<close> answers itself comes
  first, a path that is not registered is a 404, and \<open>/\<close> matches every path.
\<close>

record fixtureServer =
  fsAddr :: string
  fsMinVersion :: u16
  fsCertificates :: "tlsCertificate list"

definition targetServers :: "target \<Rightarrow> fixtureServer list" where
  "targetServers t =
     [\<lparr>fsAddr = '':8080'', fsMinVersion = 0, fsCertificates = []\<rparr>,
      \<lparr>fsAddr = '':8443'', fsMinVersion = 0x0304, fsCertificates = [targetCertificate t]\<rparr>]"

definition dohServers :: "doh \<Rightarrow> fixtureServer list" where
  "dohServers d = [\<lparr>fsAddr = '':8053'', fsMinVersion = 0x0304, fsCertificates = [dohCertificate d]\<rparr>]"

definition targetPlainMux :: "(string \<Rightarrow> string) \<Rightarrow> target \<Rightarrow> 'tls request \<Rightarrow> writer \<Rightarrow> writer" where
  "targetPlainMux unescape t r w =
     (case muxOwn r w of
        Some w' \<Rightarrow> w'
      | None \<Rightarrow>
          (let ss = segmentsOf unescape (escapedPath r)
           in if ss = [''health''] then healthHandler w
              else if ss = [''metadata''] then metadataHandler t w
              else httpError ''404 page not found'' 404 w))"

definition dohMux ::
    "(string \<Rightarrow> string) \<Rightarrow> (string \<Rightarrow> string) \<Rightarrow> (string \<Rightarrow> string) \<Rightarrow> doh \<Rightarrow> 'tls request \<Rightarrow> writer
     \<Rightarrow> (string, writer) result" where
  "dohMux unescape mapLower quoteUnicode d r w =
     (case muxOwn r w of
        Some w' \<Rightarrow> Ok w'
      | None \<Rightarrow>
          (let ss = segmentsOf unescape (escapedPath r)
           in if ss = [''health''] then Ok (healthHandler w)
              else if ss = [''dns-query''] then dnsQueryHandler mapLower quoteUnicode d r w
              else Ok (httpError ''404 page not found'' 404 w)))"

subsection \<open>The program\<close>

datatype fixture = TargetServer target | DohServer doh

text \<open>\<open>main\<close>: the mode is the one argument after the program's name; anything else is fatal.\<close>

definition fixtureMain ::
    "(string \<Rightarrow> string) \<Rightarrow> pemLib \<Rightarrow> (nat \<Rightarrow> time \<times> int) \<Rightarrow> (nat \<Rightarrow> x25519) \<Rightarrow> environ \<Rightarrow> string list \<Rightarrow> entropy
     \<Rightarrow> (string + fatal, fixture) result" where
  "fixtureMain quoteUnicode lib clock draw e args s =
     (if length args \<noteq> 2 then Err (Inl ''usage: fixture target|doh'')
      else if args ! 1 = ''target'' then
        (case runTarget lib clock draw s of
           Ok (t, s') \<Rightarrow> Ok (TargetServer t) | Err m \<Rightarrow> Err (Inl m) | Panic \<Rightarrow> Panic)
      else if args ! 1 = ''doh'' then
        (case runDoH lib e of Ok d \<Rightarrow> Ok (DohServer d) | Err m \<Rightarrow> Err (Inr m) | Panic \<Rightarrow> Panic)
      else Err (Inl (''unknown mode '' @ goQuote quoteUnicode (args ! 1))))"

lemma fixtureMain_modes:
  "fixtureMain qu lib clock draw e [prog, mode] s = Ok f \<longleftrightarrow>
    (mode = ''target'' \<and> (\<exists>t s'. runTarget lib clock draw s = Ok (t, s') \<and> f = TargetServer t)) \<or>
    (mode = ''doh'' \<and> (\<exists>d. runDoH lib e = Ok d \<and> f = DohServer d))"
  by (auto simp: fixtureMain_def split: result.splits)

subsection \<open>Outcomes\<close>

lemma readDnsQuery_no_panic: "readDnsQuery r \<noteq> Panic"
  by (auto simp: readDnsQuery_def readLimited_def split: result.splits option.splits)

lemma dnsMessage_fresh:
  assumes "response \<noteq> []"
  shows "statusOf (writeBody response (setHeader ''Content-Type'' ct newWriter)) = Some 200"
    "wBody (writeBody response (setHeader ''Content-Type'' ct newWriter)) = response"
    "sentHeader (writeBody response (setHeader ''Content-Type'' ct newWriter)) ''Content-Type'' = Some ct"
    "wPanic (writeBody response (setHeader ''Content-Type'' ct newWriter)) = False"
  using assms
  by (simp_all add: writeBody_def ensureHeader_def statusOf_def sentHeader_def declaredLength_def
      bodyAllowedForStatus_def)

lemma dnsResponse_not_Nil:
  "dnsResponse mapLower query ecs port = Ok response \<Longrightarrow> response \<noteq> []"
  by (auto simp: dnsResponse_def dnsMessage_def Let_def appendUint16Length_def appendUint16_def appendUint32_def
      split: if_splits result.splits prod.splits option.splits)

lemma dnsQueryHandler_outcomes:
  "\<exists>w. dnsQueryHandler mapLower quoteUnicode d r newWriter = Ok w \<and> \<not> wPanic w \<and>
    (case readDnsQuery r of
       Ok query \<Rightarrow>
         (case dnsResponse mapLower query (echConfigs d) (targetPort d) of
            Ok response \<Rightarrow>
              statusOf w = Some 200 \<and> wBody w = string_of response \<and>
              sentHeader w ''Content-Type'' = Some ''application/dns-message''
          | Err e \<Rightarrow> statusOf w = Some 400 \<and> wBody w = dnsErrorText quoteUnicode e @ [CHR 0x0A]
          | Panic \<Rightarrow> False)
     | Err e \<Rightarrow> statusOf w = Some 400 \<and> wBody w = e @ [CHR 0x0A]
     | Panic \<Rightarrow> False)"
proof (cases "readDnsQuery r")
  case (Ok query)
  show ?thesis
  proof (cases "dnsResponse mapLower query (echConfigs d) (targetPort d)")
    case (Ok response)
    with \<open>readDnsQuery r = Ok query\<close> dnsMessage_fresh [of "string_of response" "''application/dns-message''"]
      dnsResponse_not_Nil [OF Ok]
    show ?thesis by (simp add: dnsQueryHandler_def)
  next
    case (Err e)
    with \<open>readDnsQuery r = Ok query\<close> show ?thesis
      by (simp add: dnsQueryHandler_def httpError_fresh bodyAllowedForStatus_def)
  next
    case Panic
    with dnsResponse_total show ?thesis by blast
  qed
next
  case (Err e)
  then show ?thesis by (simp add: dnsQueryHandler_def httpError_fresh bodyAllowedForStatus_def)
next
  case Panic
  with readDnsQuery_no_panic show ?thesis by blast
qed

lemma pages_fresh:
  "statusOf (healthHandler newWriter) = Some 200" "wBody (healthHandler newWriter) = ''ok''" "\<not> wPanic (healthHandler newWriter)"
  by (simp_all add: healthHandler_def writeString_def writeBody_def ensureHeader_def statusOf_def declaredLength_def
      bodyAllowedForStatus_def)

text \<open>The specification of an answered query: the DNS response, or 400 and why there is none.\<close>

definition answersQuery ::
    "(string \<Rightarrow> string) \<Rightarrow> (string \<Rightarrow> string) \<Rightarrow> doh \<Rightarrow> byte list \<Rightarrow> writer \<Rightarrow> bool" where
  "answersQuery mapLower quoteUnicode d query w \<longleftrightarrow>
     (case dnsResponse mapLower query (echConfigs d) (targetPort d) of
        Ok response \<Rightarrow>
          statusOf w = Some 200 \<and> wBody w = string_of response \<and>
          sentHeader w ''Content-Type'' = Some ''application/dns-message''
      | Err e \<Rightarrow> statusOf w = Some 400 \<and> wBody w = dnsErrorText quoteUnicode e @ [CHR 0x0A]
      | Panic \<Rightarrow> False)"

definition refused :: "string \<Rightarrow> writer \<Rightarrow> bool" where
  "refused reason w \<longleftrightarrow> statusOf w = Some 400 \<and> wBody w = reason @ [CHR 0x0A]"

lemma dnsQueryHandler_spec:
  "\<exists>w. dnsQueryHandler mapLower quoteUnicode d r newWriter = Ok w \<and> \<not> wPanic w \<and>
    (if reqMethod r = ''POST'' then
       if 65536 \<le> length (bodyData (reqBody r))
       then answersQuery mapLower quoteUnicode d (bytes_of (take 65536 (bodyData (reqBody r)))) w
       else (case bodyError (reqBody r) of
               None \<Rightarrow> answersQuery mapLower quoteUnicode d (bytes_of (bodyData (reqBody r))) w
             | Some e \<Rightarrow> refused e w)
     else if reqMethod r = ''GET'' then
       (case decodeString RawURLEncoding (queryGet (urlQuery r) ''dns'') of
          Ok query \<Rightarrow> answersQuery mapLower quoteUnicode d query w
        | Err i \<Rightarrow> refused (''illegal base64 data at input byte '' @ formatNat i) w
        | Panic \<Rightarrow> False)
     else refused (''unsupported method '' @ reqMethod r) w)"
proof -
  have "decodeString RawURLEncoding s \<noteq> Panic" for s
    using readDnsQuery_no_panic [of "r\<lparr>reqMethod := ''GET'', urlQuery := [(''dns'', [s])]\<rparr>"]
    by (auto simp: readDnsQuery_def queryGet_def split: result.splits)
  with dnsQueryHandler_outcomes [of mapLower quoteUnicode d r] show ?thesis
    by (auto simp: readDnsQuery_def readLimited_def answersQuery_def refused_def corruptInputError_def
        split: if_splits option.splits result.splits)
qed

text \<open>
  C25: every request that reaches the mux of the resolver is answered and none panics.  The URI \<open>*\<close> is
  refused with 400 and a path that is not clean is redirected with 301 to the clean one.  For the path
  \<open>/dns-query\<close>, the query is the first 65536 bytes of the body of a POST, or the decoded \<open>dns\<close> parameter of a
  GET; one that can be answered gives 200, type \<open>application/dns-message\<close> and the DNS response as the whole
  body; one that cannot, a body that fails before 65536 bytes, a parameter that is no base64 and any other
  method give 400 with the reason in plain text.  \<open>/health\<close> says \<open>ok\<close> and any other path is a 404.
\<close>

theorem doh_request_outcomes:
  "\<exists>w. dohMux unescape mapLower quoteUnicode d r newWriter = Ok w \<and> \<not> wPanic w \<and>
    (if requestURI r = ''*'' then statusOf w = Some 400 \<and> wBody w = []
     else if reqMethod r \<noteq> ''CONNECT'' \<and> cleanPath (escapedPath r) \<noteq> escapedPath r then
       statusOf w = Some 301 \<and> sentHeader w ''Location'' = Some (hexEscapeNonASCII (cleanURL r))
     else if segmentsOf unescape (escapedPath r) = [''dns-query''] then
       (if reqMethod r = ''POST'' then
          if 65536 \<le> length (bodyData (reqBody r))
          then answersQuery mapLower quoteUnicode d (bytes_of (take 65536 (bodyData (reqBody r)))) w
          else (case bodyError (reqBody r) of
                  None \<Rightarrow> answersQuery mapLower quoteUnicode d (bytes_of (bodyData (reqBody r))) w
                | Some e \<Rightarrow> refused e w)
        else if reqMethod r = ''GET'' then
          (case decodeString RawURLEncoding (queryGet (urlQuery r) ''dns'') of
             Ok query \<Rightarrow> answersQuery mapLower quoteUnicode d query w
           | Err i \<Rightarrow> refused (''illegal base64 data at input byte '' @ formatNat i) w
           | Panic \<Rightarrow> False)
        else refused (''unsupported method '' @ reqMethod r) w)
     else if segmentsOf unescape (escapedPath r) = [''health''] then statusOf w = Some 200 \<and> wBody w = ''ok''
     else statusOf w = Some 404)"
proof -
  consider (star) "requestURI r = ''*''" | (unclean) "requestURI r \<noteq> ''*''" "needsCleaning r"
    | (dns) "requestURI r \<noteq> ''*''" "\<not> needsCleaning r" "segmentsOf unescape (escapedPath r) = [''dns-query'']"
    | (other) "requestURI r \<noteq> ''*''" "\<not> needsCleaning r" "segmentsOf unescape (escapedPath r) \<noteq> [''dns-query'']"
    by blast
  then show ?thesis
  proof cases
    case star
    then show ?thesis by (simp add: dohMux_def muxOwn_def statusOf_def writeHeader_def)
  next
    case unclean
    then show ?thesis using redirectMoved_response [of r] by (simp add: dohMux_def muxOwn_def needsCleaning_def)
  next
    case dns
    then have "dohMux unescape mapLower quoteUnicode d r newWriter = dnsQueryHandler mapLower quoteUnicode d r newWriter"
      by (simp add: dohMux_def muxOwn_def)
    moreover have "(requestURI r = ''*'') = False" "(segmentsOf unescape (escapedPath r) = [''dns-query'']) = True"
      "(reqMethod r \<noteq> ''CONNECT'' \<and> cleanPath (escapedPath r) \<noteq> escapedPath r) = False"
      using dns by (simp_all add: needsCleaning_def)
    ultimately show ?thesis by (simp only: if_True if_False) (rule dnsQueryHandler_spec)
  next
    case other
    then have "(reqMethod r \<noteq> ''CONNECT'' \<and> cleanPath (escapedPath r) \<noteq> escapedPath r) = False"
      "(requestURI r = ''*'') = False" "(segmentsOf unescape (escapedPath r) = [''dns-query'']) = False"
      by (simp_all add: needsCleaning_def)
    moreover have "\<exists>w. dohMux unescape mapLower quoteUnicode d r newWriter = Ok w \<and> \<not> wPanic w \<and>
        (if segmentsOf unescape (escapedPath r) = [''health''] then statusOf w = Some 200 \<and> wBody w = ''ok''
         else statusOf w = Some 404)"
      using other pages_fresh
      by (cases "segmentsOf unescape (escapedPath r) = [''health'']")
        (simp_all add: dohMux_def muxOwn_def httpError_fresh bodyAllowedForStatus_def)
    ultimately show ?thesis by (simp only: if_False)
  qed
qed

text \<open>
  C26: GET and POST agree.  A query of at most 65536 bytes in the body of a POST is read exactly as
  the same bytes in the \<open>dns\<close> parameter of a GET, encoded as RFC 8484 demands, so both get the same
  response.
\<close>

theorem dns_get_post_agree:
  assumes "reqMethod g = ''GET''" "queryGet (urlQuery g) ''dns'' = encodeToString RawURLEncoding query"
    and "reqMethod p = ''POST''" "bodyData (reqBody p) = string_of query" "bodyError (reqBody p) = None"
    and "length query \<le> 65536"
  shows "readDnsQuery p = Ok query \<and>
    dnsQueryHandler mapLower quoteUnicode d g w = dnsQueryHandler mapLower quoteUnicode d p w"
proof -
  have "readDnsQuery g = Ok query"
    using assms(1,2) by (simp add: readDnsQuery_def rawurl.decode_encode)
  moreover have "readDnsQuery p = Ok query"
    using assms(3-6) by (auto simp: readDnsQuery_def readLimited_def)
  ultimately show ?thesis by (simp add: dnsQueryHandler_def)
qed

definition dohRequest :: "string \<Rightarrow> header \<Rightarrow> string \<Rightarrow> unit request" where
  "dohRequest verb query body = \<lparr>reqMethod = verb, reqProto = ''HTTP/2.0'', reqHost = ''doh.test'',
     remoteAddr = ''10.0.0.1:4000'', urlPath = ''/dns-query'', requestURI = ''/dns-query'', urlQuery = query,
     reqHeader = [], reqBody = \<lparr>bodyData = body, bodyError = None\<rparr>, reqCookies = [], pathValues = [],
     reqTLS = Some ()\<rparr>"

definition exampleDoh :: doh where
  "exampleDoh = \<lparr>dohCertificate = \<lparr>chain = [], privateKey = 0\<rparr>, echConfigs = Map.empty, targetPort = 8443\<rparr>"

lemma dns_get_post_agree_witness:
  "readDnsQuery (dohRequest ''POST'' [] (string_of [1, 2, 3])) = Ok [1, 2, 3] \<and>
   dnsQueryHandler id id exampleDoh (dohRequest ''GET'' [(''dns'', [encodeToString RawURLEncoding [1, 2, 3]])] []) newWriter
   = dnsQueryHandler id id exampleDoh (dohRequest ''POST'' [] (string_of [1, 2, 3])) newWriter"
  by (rule dns_get_post_agree) (simp_all add: dohRequest_def queryGet_def)

subsection \<open>From the key the target holds to the record a client reads\<close>

lemma fixture_names:
  "validName greenName" "isASCII greenName" "toLower f greenName = greenName"
  "bareName greenName = greenName" "svcParamFixture greenName port = None"
  by (simp_all add: name_defs validName_def validLabel_def isASCII_def toLower_id lowerASCII_def isUpper_def
      bareName_def' numeral_3_eq_3 svcParamFixture_def Let_def)

lemma length_configList:
  assumes "newECHKey (draw n) i name retry = Ok key" "x25519Keys draw"
  shows "length (configList key) = length name + 53"
proof -
  from assms(1) obtain pk sk where d: "draw n = Ok (pk, sk)" by (auto simp: newECHKey_def bindR_Ok)
  with assms(2) have "length pk = 32" unfolding x25519Keys_def by blast
  with assms(1) d show ?thesis by (auto simp: newECHKey_def configList_def length_marshalECHConfig)
qed

text \<open>
  C1: the fixture works end to end.  Start the target, start the resolver with the target's metadata,
  and ask the resolver for the HTTPS record of \<open>green.secret.test\<close>, under its own name or with an
  Attrleaf port prefix, by DoH GET: the answer is 200 with one HTTPS record whose \<open>ech\<close> parameter
  decodes to the configuration of the key that the target then holds for the configuration's
  public name.
\<close>

theorem green_ech_end_to_end:
  assumes "runTarget lib clock draw s = Ok (t, s')" "x25519Keys draw"
    and "runDoH lib (dohEnviron t port) = Ok d" "- (2 ^ 63) \<le> port" "port < 2 ^ 63"
    and "\<And>bs. pemEncode lib bs \<noteq> []"
    and "length header = 12" "isPort ds" "length ds \<le> 62" "q = greenName \<or> q = attrleaf ds greenName"
    and "reqMethod r = ''GET''"
    and "queryGet (urlQuery r) ''dns'' = encodeToString RawURLEncoding (queryFor header q 65 c)"
  shows "\<exists>w rdata config contents.
    dnsQueryHandler mapLower quoteUnicode d r newWriter = Ok w \<and> statusOf w = Some 200 \<and>
    answersOf (Ok (bytes_of (wBody w))) = Some [(65, 1, 60, rdata)] \<and>
    decodeSvcb rdata = Some \<lparr>svcPriority = 1, targetName = [], svcParams = ordinaryParams config port\<rparr> \<and>
    decodeConfigList config = Some [contents] \<and>
    map keyConfig (getEncryptedClientHelloKeys t (publicName contents)) = [echConfig (greenKey t)] \<and>
    config = configList (greenKey t)"
proof -
  obtain retryStale disabledStale where
    green: "newECHKey (draw 0) 1 greenPublicName True = Ok (greenKey t)"
    and stale: "newECHKey (draw 1) 2 retryPublicName False = Ok retryStale"
      "newECHKey (draw 3) 4 disabledPublicName False = Ok disabledStale"
    and d: "echConfigs d = [greenName \<mapsto> configList (greenKey t), retryName \<mapsto> configList retryStale,
        disabledName \<mapsto> configList disabledStale]" "targetPort d = port"
    by (rule runDoH_publishes [OF assms(1,3,4,5,6)])
  have small: "\<forall>n l. echConfigs d n = Some l \<longrightarrow> length l \<le> 65498"
    using length_configList [of draw, OF green assms(2)] length_configList [of draw, OF stale(1) assms(2)]
      length_configList [of draw, OF stale(2) assms(2)]
    by (auto simp: d name_defs split: if_splits)
  have cfg: "echConfigs d greenName = Some (configList (greenKey t))" by (simp add: d name_defs)
  let ?query = "queryFor header q 65 c"
  obtain rdata where answers: "answersOf (dnsResponse mapLower ?query (echConfigs d) port) = Some [(65, 1, 60, rdata)]"
    and svcb: "decodeSvcb rdata = Some \<lparr>svcPriority = 1, targetName = [],
        svcParams = ordinaryParams (configList (greenKey t)) port\<rparr>"
    using https_answer_config [OF assms(7) fixture_names(1,2) assms(8,9) small, of mapLower port
        "configList (greenKey t)" "''_https''" q c] assms(10)
    by (auto simp only: fixture_names cfg attrleafAs_https simp_thms)
  from answers obtain response where
    response: "dnsResponse mapLower ?query (echConfigs d) (targetPort d) = Ok response"
    by (auto simp: answersOf_def d split: result.splits)
  have query: "readDnsQuery r = Ok ?query"
    using assms(11,12) by (simp add: readDnsQuery_def rawurl.decode_encode)
  obtain pk sk where contents: "decodeConfigList (configList (greenKey t)) = Some [fixtureContents 1 pk greenPublicName 64]"
    by (rule newECHKey_decodes [of draw, OF green assms(2)]) (simp_all add: name_defs)
  let ?w = "writeBody (string_of response) (setHeader ''Content-Type'' ''application/dns-message'' newWriter)"
  from response query answers svcb contents dnsMessage_fresh [of "string_of response" "''application/dns-message''"]
    dnsResponse_not_Nil [OF response]
  show ?thesis
    by (intro exI [of _ ?w] exI [of _ rdata] exI [of _ "configList (greenKey t)"] exI [of _ "fixtureContents 1 pk greenPublicName 64"])
      (simp add: dnsQueryHandler_def d fixtureContents_def getEncryptedClientHelloKeys_def)
qed

lemma green_ech_end_to_end_witness:
  "\<exists>t s' d w rdata config contents.
    runTarget exampleLib (\<lambda>_. (0, 0)) exampleDraw exampleEntropy = Ok (t, s') \<and>
    runDoH exampleLib (dohEnviron t 8443) = Ok d \<and>
    dnsQueryHandler id id d
      (dohRequest ''GET''
        [(''dns'', [encodeToString RawURLEncoding (queryFor (replicate 12 0) (attrleaf ''8443'' greenName) 65 1)])] [])
      newWriter = Ok w \<and> statusOf w = Some 200 \<and>
    answersOf (Ok (bytes_of (wBody w))) = Some [(65, 1, 60, rdata)] \<and>
    decodeSvcb rdata = Some \<lparr>svcPriority = 1, targetName = [], svcParams = ordinaryParams config 8443\<rparr> \<and>
    decodeConfigList config = Some [contents] \<and>
    map keyConfig (getEncryptedClientHelloKeys t (publicName contents)) = [echConfig (greenKey t)]"
proof -
  obtain t s' where t: "runTarget exampleLib (\<lambda>_. (0, 0)) exampleDraw exampleEntropy = Ok (t, s')"
    using exampleTarget_runs by blast
  have x: "x25519Keys exampleDraw" by (auto simp: x25519Keys_def exampleDraw_def)
  have pem: "pemEncode exampleLib bs \<noteq> []" for bs by (simp add: exampleLib_def Let_def)
  obtain d where d: "runDoH exampleLib (dohEnviron t 8443) = Ok d"
    using exampleDoh_runs [OF t] by blast
  have p: "isPort ''8443''" by (simp add: isPort_def strconv_simps)
  let ?r = "dohRequest ''GET''
        [(''dns'', [encodeToString RawURLEncoding (queryFor (replicate 12 0) (attrleaf ''8443'' greenName) 65 1)])] []"
  from green_ech_end_to_end [OF t x d _ _ pem, of "replicate 12 0" "''8443''" "attrleaf ''8443'' greenName" ?r 1 id id] p
  show ?thesis using t d by (fastforce simp: dohRequest_def queryGet_def)
qed

end
