(* ===== verification/Hello_Cache.thy ===== *)
theory Hello_Cache
  imports Go_Prelude "HOL-Library.AList"
begin

text \<open>
  The \<open>helloCache\<close> of \<open>tls.go\<close>: what clients offered, keyed by remote address, with \<open>put\<close>, \<open>get\<close>
  and \<open>drop\<close>.  Each operation holds the mutex for its whole body, so a concurrent execution is
  some sequence of these operations.

  The locale \<open>evicting_store\<close> is the interface the TLS half of the server relies on: a finite map
  that may forget everything when it is over its limit, and otherwise behaves like a map.  Its
  lemmas say that such a store never invents or mixes up an entry, and that it is exact while the
  number of live keys stays within the limit.  A step relation over connections then gives the
  properties of the cache as the server drives it.
\<close>

subsection \<open>The cache\<close>

record clientHello =
  helloServerName :: string
  supportedProtos :: "string list"
  supportedVersions :: "u16 list"
  cipherSuites :: "u16 list"
  supportedCurves :: "u16 list"
  supportedPoints :: "byte list"
  signatureSchemes :: "u16 list"
  extensions :: "u16 list"

type_synonym helloCache = "(string \<times> clientHello) list"

definition newHelloCache :: helloCache where
  "newHelloCache = []"

text \<open>\<open>conn\<close> is \<open>hello.Conn.RemoteAddr().String()\<close>, or \<^const>\<open>None\<close> for a nil \<open>hello.Conn\<close>.\<close>

definition putHello :: "string option \<Rightarrow> clientHello \<Rightarrow> helloCache \<Rightarrow> helloCache" where
  "putHello conn hello c =
     (case conn of
        None \<Rightarrow> c
      | Some addr \<Rightarrow>
          (let c = (if 1024 < length c then [] else c) in AList.update addr hello c))"

definition getHello :: "helloCache \<Rightarrow> string \<Rightarrow> clientHello option" where
  "getHello c addr = map_of c addr"

definition dropHello :: "string \<Rightarrow> helloCache \<Rightarrow> helloCache" where
  "dropHello addr c = AList.delete addr c"

definition cacheInv :: "helloCache \<Rightarrow> bool" where
  "cacheInv c \<longleftrightarrow> distinct (map fst c) \<and> length c \<le> 1025"

subsection \<open>The interface: a store that may forget, but never confuses\<close>

datatype ('k, 'v) storeOp = Store 'k 'v | Remove 'k

fun runOps :: "('k \<Rightarrow> 'v \<Rightarrow> 's \<Rightarrow> 's) \<Rightarrow> ('k \<Rightarrow> 's \<Rightarrow> 's) \<Rightarrow> ('k, 'v) storeOp list \<Rightarrow> 's \<Rightarrow> 's" where
  "runOps store remove [] s = s"
| "runOps store remove (Store k v # ops) s = runOps store remove ops (store k v s)"
| "runOps store remove (Remove k # ops) s = runOps store remove ops (remove k s)"

text \<open>The same operations on an ideal map, and the most keys it holds on the way.\<close>

fun idealOps :: "('k, 'v) storeOp list \<Rightarrow> ('k \<rightharpoonup> 'v) \<Rightarrow> ('k \<rightharpoonup> 'v)" where
  "idealOps [] m = m"
| "idealOps (Store k v # ops) m = idealOps ops (m(k \<mapsto> v))"
| "idealOps (Remove k # ops) m = idealOps ops (m(k := None))"

fun within :: "nat \<Rightarrow> ('k, 'v) storeOp list \<Rightarrow> ('k \<rightharpoonup> 'v) \<Rightarrow> bool" where
  "within limit [] m = True"
| "within limit (Store k v # ops) m = (card (dom m) \<le> limit \<and> within limit ops (m(k \<mapsto> v)))"
| "within limit (Remove k # ops) m = within limit ops (m(k := None))"

locale evicting_store =
  fixes empty :: 's
    and store :: "'k \<Rightarrow> 'v \<Rightarrow> 's \<Rightarrow> 's"
    and fetch :: "'s \<Rightarrow> 'k \<rightharpoonup> 'v"
    and remove :: "'k \<Rightarrow> 's \<Rightarrow> 's"
    and invar :: "'s \<Rightarrow> bool"
    and limit :: nat
  assumes fetch_empty: "fetch empty = Map.empty"
    and fetch_store: "invar s \<Longrightarrow> card (dom (fetch s)) \<le> limit \<Longrightarrow> fetch (store k v s) = (fetch s)(k \<mapsto> v)"
    and fetch_evict: "invar s \<Longrightarrow> limit < card (dom (fetch s)) \<Longrightarrow> fetch (store k v s) = [k \<mapsto> v]"
    and fetch_remove: "invar s \<Longrightarrow> fetch (remove k s) = (fetch s)(k := None)"
    and invar_empty: "invar empty"
    and invar_store: "invar s \<Longrightarrow> invar (store k v s)"
    and invar_remove: "invar s \<Longrightarrow> invar (remove k s)"
    and invar_finite: "invar s \<Longrightarrow> finite (dom (fetch s)) \<and> card (dom (fetch s)) \<le> Suc limit"
begin

lemma run_invar: "invar s \<Longrightarrow> invar (runOps store remove ops s)"
proof (induction ops arbitrary: s)
  case (Cons op ops)
  then show ?case by (cases op) (simp_all add: invar_store invar_remove)
qed simp

lemma fetch_after_store: "invar s \<Longrightarrow> fetch (store k v s) k = Some v"
  by (cases "card (dom (fetch s)) \<le> limit") (simp_all add: fetch_store fetch_evict)

lemma store_submap: "invar s \<Longrightarrow> fetch (store k v s) \<subseteq>\<^sub>m (fetch s)(k \<mapsto> v)"
  by (cases "card (dom (fetch s)) \<le> limit") (auto simp: fetch_store fetch_evict map_le_def)

text \<open>Soundness: what the store returns is what an ideal map would return.\<close>

lemma run_submap: "invar s \<Longrightarrow> fetch s \<subseteq>\<^sub>m m \<Longrightarrow> fetch (runOps store remove ops s) \<subseteq>\<^sub>m idealOps ops m"
proof (induction ops arbitrary: s m)
  case (Cons op ops)
  show ?case
  proof (cases op)
    case (Store k v)
    have "fetch (store k v s) \<subseteq>\<^sub>m m(k \<mapsto> v)"
      using store_submap [OF Cons.prems(1), of k v] Cons.prems(2)
      by (meson map_le_trans map_le_upd)
    with Cons.IH [OF invar_store [OF Cons.prems(1)]] Store show ?thesis by simp
  next
    case (Remove k)
    have "fetch (remove k s) \<subseteq>\<^sub>m m(k := None)"
      using Cons.prems by (auto simp: fetch_remove map_le_def)
    with Cons.IH [OF invar_remove [OF Cons.prems(1)]] Remove show ?thesis by simp
  qed
qed simp

text \<open>Exactness: as long as the live keys stay within the limit, nothing is forgotten.\<close>

lemma run_exact:
  "invar s \<Longrightarrow> within limit ops (fetch s) \<Longrightarrow> fetch (runOps store remove ops s) = idealOps ops (fetch s)"
proof (induction ops arbitrary: s)
  case (Cons op ops)
  show ?case
  proof (cases op)
    case (Store k v)
    with Cons.prems have eq: "fetch (store k v s) = (fetch s)(k \<mapsto> v)" by (simp add: fetch_store)
    from Cons.IH [OF invar_store [OF Cons.prems(1)], of k v] Store Cons.prems(2) show ?thesis
      by (simp only: runOps.simps idealOps.simps within.simps eq simp_thms)
  next
    case (Remove k)
    from Cons.prems(1) have eq: "fetch (remove k s) = (fetch s)(k := None)" by (rule fetch_remove)
    from Cons.IH [OF invar_remove [OF Cons.prems(1)], of k] Remove Cons.prems(2) show ?thesis
      by (simp only: runOps.simps idealOps.simps within.simps eq simp_thms)
  qed
qed simp

end

lemma getHello_map_of: "getHello c = map_of c"
  by (simp add: getHello_def fun_eq_iff)

lemma cacheInv_card: "cacheInv c \<Longrightarrow> card (dom (getHello c)) = length c"
proof -
  assume "cacheInv c"
  then have "distinct (map fst c)" by (simp add: cacheInv_def)
  moreover have "dom (getHello c) = fst ` set c" by (simp add: getHello_map_of dom_map_of_conv_image_fst)
  ultimately show ?thesis by (metis distinct_card length_map list.set_map)
qed

lemma length_update_le: "length (AList.update k v c) \<le> Suc (length c)"
  by (induction c) auto

lemma length_delete_le: "length (AList.delete k c) \<le> length c"
  by (simp add: AList.delete_eq)

lemma cacheInv_put: "cacheInv c \<Longrightarrow> cacheInv (putHello conn hello c)"
proof (cases conn)
  case None
  then show "cacheInv c \<Longrightarrow> cacheInv (putHello conn hello c)" by (simp add: putHello_def)
next
  case (Some addr)
  assume "cacheInv c"
  then show ?thesis
    using Some length_update_le [of addr hello c]
    by (cases "1024 < length c") (simp_all add: putHello_def cacheInv_def distinct_update)
qed

lemma cacheInv_drop: "cacheInv c \<Longrightarrow> cacheInv (dropHello addr c)"
  using length_delete_le [of addr c] by (simp add: cacheInv_def dropHello_def distinct_delete)

lemma getHello_put:
  "getHello (putHello (Some addr) hello c) = (if 1024 < length c then [addr \<mapsto> hello] else (getHello c)(addr \<mapsto> hello))"
  by (simp add: getHello_def putHello_def fun_eq_iff update_conv')

lemma getHello_drop: "getHello (dropHello addr c) = (getHello c)(addr := None)"
  by (simp add: getHello_def dropHello_def delete_conv' fun_eq_iff)

interpretation cache: evicting_store newHelloCache "\<lambda>addr. putHello (Some addr)" getHello dropHello cacheInv 1024
proof unfold_locales
  show "getHello newHelloCache = Map.empty"
    by (simp add: getHello_def newHelloCache_def fun_eq_iff)
  show "cacheInv newHelloCache"
    by (simp add: cacheInv_def newHelloCache_def)
next
  fix c addr hello
  assume inv: "cacheInv c"
  show "finite (dom (getHello c)) \<and> card (dom (getHello c)) \<le> Suc 1024"
    using inv cacheInv_card [OF inv] by (simp add: cacheInv_def getHello_map_of finite_dom_map_of)
  show "getHello (dropHello addr c) = (getHello c)(addr := None)" by (rule getHello_drop)
  show "cacheInv (dropHello addr c)" using inv by (rule cacheInv_drop)
  show "cacheInv (putHello (Some addr) hello c)" using inv by (rule cacheInv_put)
qed (simp_all add: getHello_put cacheInv_card)

subsection \<open>Properties of the cache under any interleaving\<close>

abbreviation runCache :: "(string, clientHello) storeOp list \<Rightarrow> helloCache" where
  "runCache ops \<equiv> runOps (\<lambda>addr. putHello (Some addr)) dropHello ops newHelloCache"

text \<open>
  C5: under any sequence of \<open>put\<close>s and \<open>drop\<close>s, in whatever order connections interleave, the cache
  holds at most 1025 entries, one per address, and what \<open>get\<close> returns for an address is the
  hello most recently put for that address and not dropped since: never an older one, never
  another address's.
\<close>

theorem hello_cache_sound:
  "length (runCache ops) \<le> 1025 \<and> distinct (map fst (runCache ops)) \<and>
   (\<forall>addr hello. getHello (runCache ops) addr = Some hello \<longrightarrow> idealOps ops Map.empty addr = Some hello)"
proof -
  have "cacheInv (runCache ops)"
    by (rule cache.run_invar [OF cache.invar_empty])
  moreover have "getHello (runCache ops) \<subseteq>\<^sub>m idealOps ops Map.empty"
    by (rule cache.run_submap [OF cache.invar_empty]) (simp add: cache.fetch_empty)
  ultimately show ?thesis
    by (auto simp: cacheInv_def map_le_def dom_def)
qed

definition exampleHello :: "string \<Rightarrow> clientHello" where
  "exampleHello name = \<lparr>helloServerName = name, supportedProtos = [], supportedVersions = [0x0304],
     cipherSuites = [], supportedCurves = [], supportedPoints = [], signatureSchemes = [],
     extensions = [0xfe0d]\<rparr>"

lemma hello_cache_sound_witness:
  "getHello (runCache [Store ''a'' (exampleHello ''x''), Store ''b'' (exampleHello ''y'')]) ''a''
     = Some (exampleHello ''x'') \<and>
   idealOps [Store ''a'' (exampleHello ''x''), Store ''b'' (exampleHello ''y'')] Map.empty ''a''
     = Some (exampleHello ''x'')"
proof -
  have "getHello (runCache [Store ''a'' (exampleHello ''x''), Store ''b'' (exampleHello ''y'')]) ''a''
      = Some (exampleHello ''x'')"
    by (simp add: getHello_def putHello_def newHelloCache_def)
  with hello_cache_sound [of "[Store ''a'' (exampleHello ''x''), Store ''b'' (exampleHello ''y'')]"]
  show ?thesis by blast
qed

text \<open>
  C20: while no more than 1024 addresses are held at a time, the bound never bites: the cache
  then is exactly the map of the hellos put and not yet dropped.
\<close>

theorem hello_cache_exact:
  "within 1024 ops Map.empty \<Longrightarrow> getHello (runCache ops) = idealOps ops Map.empty"
  using cache.run_exact [OF cache.invar_empty, of ops] by (simp add: cache.fetch_empty)

lemma hello_cache_exact_witness:
  "within 1024 [Store ''a'' (exampleHello ''x''), Remove ''a''] Map.empty \<and>
   getHello (runCache [Store ''a'' (exampleHello ''x''), Remove ''a'']) ''a'' = None"
proof -
  have w: "within 1024 [Store ''a'' (exampleHello ''x''), Remove ''a''] Map.empty" by simp
  from w hello_cache_exact [OF w] show ?thesis by simp
qed

subsection \<open>Connections\<close>

text \<open>
  The cache as the server drives it.  A connection is identified by a number; it has a remote
  address and, once its ClientHello has arrived (\<open>GetConfigForClient\<close>), an offer.  \<open>ConnState\<close>
  drops the entry when the connection is closed or hijacked.  All TLS listeners share one cache,
  and a remote address tells connections apart only on one listener: two connections from the
  same client port to two listeners have the same remote address.  \<open>unique\<close> is the assumption
  that this does not happen.  A connection counts as live until its \<open>ConnState\<close> hook has run.
\<close>

record connections =
  live :: "nat \<rightharpoonup> string \<times> clientHello option"
  hellos :: helloCache

definition initialConnections :: connections where
  "initialConnections = \<lparr>live = Map.empty, hellos = newHelloCache\<rparr>"

inductive connStep :: "bool \<Rightarrow> connections \<Rightarrow> connections \<Rightarrow> bool" for unique :: bool where
  accept: "live s c = None \<Longrightarrow> (unique \<longrightarrow> (\<forall>d b h. live s d = Some (b, h) \<longrightarrow> b \<noteq> a)) \<Longrightarrow>
    connStep unique s (s\<lparr>live := (live s)(c \<mapsto> (a, None))\<rparr>)"
| clientHello: "live s c = Some (a, old) \<Longrightarrow>
    connStep unique s (s\<lparr>live := (live s)(c \<mapsto> (a, Some hello)), hellos := putHello (Some a) hello (hellos s)\<rparr>)"
| closed: "live s c = Some (a, old) \<Longrightarrow>
    connStep unique s (s\<lparr>live := (live s)(c := None), hellos := dropHello a (hellos s)\<rparr>)"

inductive_cases connStepE: "connStep unique s t"

inductive reachable :: "bool \<Rightarrow> connections \<Rightarrow> bool" for unique :: bool where
  start: "reachable unique initialConnections"
| step: "reachable unique s \<Longrightarrow> connStep unique s t \<Longrightarrow> reachable unique t"

definition liveAddr :: "connections \<Rightarrow> string \<Rightarrow> bool" where
  "liveAddr s a \<longleftrightarrow> (\<exists>c h. live s c = Some (a, h))"

text \<open>Entries only for live connections, whatever the addresses.\<close>

definition entriesLive :: "connections \<Rightarrow> bool" where
  "entriesLive s \<longleftrightarrow> (\<forall>a hello. getHello (hellos s) a = Some hello \<longrightarrow>
     (\<exists>c h. live s c = Some (a, h) \<and> h \<noteq> None))"

definition addressesUnique :: "connections \<Rightarrow> bool" where
  "addressesUnique s \<longleftrightarrow>
     (\<forall>c d a h i. live s c = Some (a, h) \<longrightarrow> live s d = Some (a, i) \<longrightarrow> c = d)"

definition ownHello :: "connections \<Rightarrow> bool" where
  "ownHello s \<longleftrightarrow> (\<forall>c a h hello. live s c = Some (a, h) \<longrightarrow> getHello (hellos s) a = Some hello \<longrightarrow> h = Some hello)"

lemma getHello_putD:
  "getHello (putHello (Some a) hello c) b = Some h \<Longrightarrow> (b = a \<and> h = hello) \<or> (b \<noteq> a \<and> getHello c b = Some h)"
  by (auto simp: getHello_put split: if_splits)

lemma step_unique: "connStep True s t \<Longrightarrow> addressesUnique s \<Longrightarrow> addressesUnique t"
proof -
  assume "connStep True s t" "addressesUnique s"
  then show "addressesUnique t"
  proof cases
    case (accept c a)
    with \<open>addressesUnique s\<close> show ?thesis
      unfolding addressesUnique_def by (simp del: split_paired_Ex) blast
  qed (auto simp: addressesUnique_def split: if_splits)
qed

lemma step_entries: "connStep unique s t \<Longrightarrow> entriesLive s \<Longrightarrow> entriesLive t"
proof -
  assume "connStep unique s t" "entriesLive s"
  then show "entriesLive t"
  proof cases
    case (accept c a)
    show ?thesis
      unfolding entriesLive_def
    proof (intro allI impI)
      fix b hello
      assume "getHello (hellos t) b = Some hello"
      with accept \<open>entriesLive s\<close> obtain d h where "live s d = Some (b, h)" "h \<noteq> None"
        by (auto simp: entriesLive_def)
      moreover from this accept have "d \<noteq> c" by auto
      ultimately show "\<exists>d h. live t d = Some (b, h) \<and> h \<noteq> None"
        using accept by (intro exI [of _ d] exI [of _ h]) simp
    qed
  next
    case (clientHello c a old hello)
    show ?thesis
      unfolding entriesLive_def
    proof (intro allI impI)
      fix b x
      assume "getHello (hellos t) b = Some x"
      with clientHello consider "b = a" | "b \<noteq> a" "getHello (hellos s) b = Some x"
        by (auto dest: getHello_putD)
      then show "\<exists>d h. live t d = Some (b, h) \<and> h \<noteq> None"
      proof cases
        case 1
        with clientHello show ?thesis by (intro exI [of _ c] exI [of _ "Some hello"]) simp
      next
        case 2
        with \<open>entriesLive s\<close> obtain d h where "live s d = Some (b, h)" "h \<noteq> None"
          by (auto simp: entriesLive_def)
        moreover from this 2 clientHello have "d \<noteq> c" by auto
        ultimately show ?thesis using clientHello by (intro exI [of _ d] exI [of _ h]) simp
      qed
    qed
  next
    case (closed c a old)
    show ?thesis
      unfolding entriesLive_def
    proof (intro allI impI)
      fix b x
      assume "getHello (hellos t) b = Some x"
      with closed have ba: "b \<noteq> a" "getHello (hellos s) b = Some x"
        by (auto simp: getHello_drop split: if_splits)
      with \<open>entriesLive s\<close> obtain d h where "live s d = Some (b, h)" "h \<noteq> None"
        by (auto simp: entriesLive_def)
      moreover from this ba closed have "d \<noteq> c" by auto
      ultimately show "\<exists>d h. live t d = Some (b, h) \<and> h \<noteq> None"
        using closed by (intro exI [of _ d] exI [of _ h]) simp
    qed
  qed
qed

lemma step_own:
  assumes "connStep True s t" "addressesUnique s" "entriesLive s" "ownHello s"
  shows "ownHello t"
  using assms(1)
proof cases
  case (accept c a)
  have "getHello (hellos s) a = None"
    using accept(3) assms(3) unfolding entriesLive_def by (metis not_None_eq surj_pair)
  with accept assms(4) show ?thesis by (auto simp: ownHello_def split: if_splits)
next
  case (clientHello c a old hello)
  with assms(2,4) show ?thesis
    unfolding ownHello_def addressesUnique_def
    by (auto dest!: getHello_putD split: if_splits)
next
  case (closed c a old)
  with assms(2,4) show ?thesis
    unfolding ownHello_def addressesUnique_def by (auto simp: getHello_drop split: if_splits)
qed

lemma reachable_entries: "reachable unique s \<Longrightarrow> entriesLive s"
proof (induction rule: reachable.induct)
  case start
  then show ?case by (simp add: entriesLive_def initialConnections_def cache.fetch_empty)
next
  case (step s t)
  then show ?case by (blast intro: step_entries)
qed

lemma reachable_own: "reachable True s \<Longrightarrow> addressesUnique s \<and> ownHello s"
proof (induction rule: reachable.induct)
  case start
  then show ?case by (simp add: addressesUnique_def ownHello_def initialConnections_def)
next
  case (step s t)
  then show ?case using step_unique step_own reachable_entries by blast
qed

text \<open>
  In every reachable state of the server, however connections interleave, each recorded
  hello belongs to the remote address of a connection that is still live and has sent one: no
  entry outlives its connection.
\<close>

lemma hello_entries_live:
  "reachable unique s \<Longrightarrow> getHello (hellos s) a = Some hello \<Longrightarrow> \<exists>c h. live s c = Some (a, Some h)"
  using reachable_entries unfolding entriesLive_def by (metis not_None_eq)

text \<open>
  C11: while no two live connections share a remote address, a request never sees another
  connection's offer: what the cache holds for its address is the last ClientHello of that very
  connection.
\<close>

theorem request_sees_own_hello:
  "reachable True s \<Longrightarrow> live s c = Some (a, h) \<Longrightarrow> getHello (hellos s) a = Some hello \<Longrightarrow> h = Some hello"
  using reachable_own unfolding ownHello_def by blast

definition twoConnections :: "string \<Rightarrow> connections" where
  "twoConnections b =
     \<lparr>live = [1 \<mapsto> (''10.0.0.1:4000'', Some (exampleHello ''x'')), 2 \<mapsto> (b, Some (exampleHello ''y''))],
      hellos = putHello (Some b) (exampleHello ''y'') (putHello (Some ''10.0.0.1:4000'') (exampleHello ''x'') newHelloCache)\<rparr>"

lemma twoConnections_reachable:
  assumes "unique \<longrightarrow> b \<noteq> ''10.0.0.1:4000''"
  shows "reachable unique (twoConnections b)"
proof -
  let ?a = "''10.0.0.1:4000''"
  let ?s1 = "initialConnections\<lparr>live := (live initialConnections)(1 \<mapsto> (?a, None))\<rparr>"
  let ?s2 = "?s1\<lparr>live := (live ?s1)(1 \<mapsto> (?a, Some (exampleHello ''x''))),
                 hellos := putHello (Some ?a) (exampleHello ''x'') (hellos ?s1)\<rparr>"
  let ?s3 = "?s2\<lparr>live := (live ?s2)(2 \<mapsto> (b, None))\<rparr>"
  let ?s4 = "?s3\<lparr>live := (live ?s3)(2 \<mapsto> (b, Some (exampleHello ''y''))),
                 hellos := putHello (Some b) (exampleHello ''y'') (hellos ?s3)\<rparr>"
  have "reachable unique ?s1"
    by (rule reachable.step [OF reachable.start], rule connStep.accept)
      (simp_all add: initialConnections_def)
  then have "reachable unique ?s2"
    by (rule reachable.step, intro connStep.clientHello) simp
  then have "reachable unique ?s3"
    by (rule reachable.step, intro connStep.accept) (use assms in \<open>auto simp: initialConnections_def\<close>)
  then have "reachable unique ?s4"
    by (rule reachable.step, intro connStep.clientHello) simp
  moreover have "?s4 = twoConnections b"
    by (simp add: twoConnections_def initialConnections_def)
  ultimately show ?thesis by simp
qed

lemma request_sees_own_hello_witness:
  "reachable True (twoConnections ''10.0.0.2:4000'') \<and>
   live (twoConnections ''10.0.0.2:4000'') 1
     = Some (''10.0.0.1:4000'', getHello (hellos (twoConnections ''10.0.0.2:4000'')) ''10.0.0.1:4000'')"
proof -
  have r: "reachable True (twoConnections ''10.0.0.2:4000'')"
    by (rule twoConnections_reachable) simp
  have l: "live (twoConnections ''10.0.0.2:4000'') 1 = Some (''10.0.0.1:4000'', Some (exampleHello ''x''))"
    by (simp add: twoConnections_def)
  have g: "getHello (hellos (twoConnections ''10.0.0.2:4000'')) ''10.0.0.1:4000'' = Some (exampleHello ''x'')"
    by (simp add: twoConnections_def getHello_def newHelloCache_def putHello_def)
  from r g l request_sees_own_hello [OF r l g] show ?thesis by simp
qed

text \<open>
  C39: without that assumption the property is lost.  The listeners share one cache keyed by remote
  address alone, so with two connections from one client port to two listeners, the first is
  reported with the offer of the second.
\<close>

theorem shared_address_confuses:
  "\<exists>s. reachable False s \<and> live s 1 = Some (''10.0.0.1:4000'', Some (exampleHello ''x'')) \<and>
       getHello (hellos s) ''10.0.0.1:4000'' = Some (exampleHello ''y'') \<and> exampleHello ''x'' \<noteq> exampleHello ''y''"
proof (intro exI conjI)
  show "reachable False (twoConnections ''10.0.0.1:4000'')"
    by (rule twoConnections_reachable) simp
qed (simp_all add: twoConnections_def getHello_def newHelloCache_def putHello_def exampleHello_def)

end
