(* ===== verification/Handshake.thy ===== *)
theory Handshake
  imports Hello_Cache Certs Http Json
begin

text \<open>
  The server's own state (\<open>main.go\<close>: \<open>server\<close>, \<open>listener\<close>, \<open>addListener\<close>, \<open>snapshot\<close>) and what
  \<open>/tls\<close> reports of a handshake (\<open>tls.go\<close>: \<open>handshakeReport\<close>, \<open>clientHelloInfo\<close>, \<open>handshake\<close> and the
  naming functions).  The names that \<open>crypto/tls\<close> gives to cipher suites, curves and signature
  schemes belong to the Go release; they are the fields of \<open>tlsNames\<close>, an argument of \<open>handshake\<close>.

  The theorems say that the names of extensions and versions lose nothing (the numbers on the
  wire can be read back, in order), that GREASE is recognised exactly, and what the report says
  of the offer.
\<close>

subsection \<open>The server\<close>

record listener =
  lName :: string
  lAddr :: string
  lTLS :: bool
  lMinVersion :: string
  lMaxVersion :: string
  lALPN :: string
  lNote :: string

record server =
  certs :: certificates
  serverHellos :: helloCache
  listeners :: "listener list"

definition addListener :: "listener \<Rightarrow> server \<Rightarrow> server" where
  "addListener l s = s\<lparr>listeners := listeners s @ [l]\<rparr>"

definition snapshot :: "server \<Rightarrow> listener list" where
  "snapshot s = listeners s"

subsection \<open>Names\<close>

text \<open>\<open>0x%04x\<close> of a 16-bit number.\<close>

definition hex04 :: "u16 \<Rightarrow> string" where
  "hex04 v =
     (let n = unat v
      in ''0x'' @ [hexChar (n div 4096 mod 16), hexChar (n div 256 mod 16), hexChar (n div 16 mod 16), hexChar (n mod 16)])"

definition extensionEncryptedClientHello :: u16 where
  "extensionEncryptedClientHello = 0xfe0d"

definition extensionNames :: "(u16 \<times> string) list" where
  "extensionNames =
    [(0, ''server_name''),
     (1, ''max_fragment_length''),
     (5, ''status_request''),
     (10, ''supported_groups''),
     (11, ''ec_point_formats''),
     (13, ''signature_algorithms''),
     (14, ''use_srtp''),
     (16, ''application_layer_protocol_negotiation''),
     (17, ''status_request_v2''),
     (18, ''signed_certificate_timestamp''),
     (21, ''padding''),
     (22, ''encrypt_then_mac''),
     (23, ''extended_master_secret''),
     (27, ''compress_certificate''),
     (35, ''session_ticket''),
     (41, ''pre_shared_key''),
     (42, ''early_data''),
     (43, ''supported_versions''),
     (44, ''cookie''),
     (45, ''psk_key_exchange_modes''),
     (47, ''certificate_authorities''),
     (49, ''post_handshake_auth''),
     (50, ''signature_algorithms_cert''),
     (51, ''key_share''),
     (extensionEncryptedClientHello, ''encrypted_client_hello''),
     (0xff01, ''renegotiation_info''),
     (0x4469, ''application_settings'')]"

unbundle bit_operations_syntax

definition extensionName :: "u16 \<Rightarrow> string" where
  "extensionName extension =
     (case map_of extensionNames extension of
        Some name \<Rightarrow> name
      | None \<Rightarrow>
          (if extension AND 0x0f0f = 0x0a0a \<and> drop_bit 8 extension = extension AND 0xff
           then ''GREASE('' @ hex04 extension @ '')''
           else hex04 extension))"

definition versionTLS10 :: u16 where "versionTLS10 = 0x0301"
definition versionTLS11 :: u16 where "versionTLS11 = 0x0302"
definition versionTLS12 :: u16 where "versionTLS12 = 0x0303"
definition versionTLS13 :: u16 where "versionTLS13 = 0x0304"

lemmas version_defs = versionTLS10_def versionTLS11_def versionTLS12_def versionTLS13_def

definition versionName :: "u16 \<Rightarrow> string" where
  "versionName version =
     (if version = versionTLS10 then ''TLSv1.0''
      else if version = versionTLS11 then ''TLSv1.1''
      else if version = versionTLS12 then ''TLSv1.2''
      else if version = versionTLS13 then ''TLSv1.3''
      else hex04 version)"

record tlsNames =
  cipherSuiteName :: "u16 \<Rightarrow> string"
  curveString :: "u16 \<Rightarrow> string"
  schemeString :: "u16 \<Rightarrow> string"

definition curveName :: "tlsNames \<Rightarrow> u16 \<Rightarrow> string" where
  "curveName names curve =
     (if \<not> prefix ''CurveID('' (curveString names curve) then curveString names curve else hex04 curve)"

definition signatureSchemeName :: "tlsNames \<Rightarrow> u16 \<Rightarrow> string" where
  "signatureSchemeName names scheme =
     (if \<not> prefix ''SignatureScheme('' (schemeString names scheme) then schemeString names scheme
      else hex04 scheme)"

subsection \<open>The report\<close>

text \<open>\<open>tls.ConnectionState\<close>, with the peer certificates given by their \<open>Subject.String()\<close>.\<close>

record connectionState =
  stVersion :: u16
  stCipherSuite :: u16
  stNegotiatedProtocol :: string
  stServerName :: string
  stDidResume :: bool
  stECHAccepted :: bool
  stPeerCertificates :: "string list"

record clientHelloInfo =
  offSupportedVersions :: "string list"
  offCipherSuites :: "string list"
  offSupportedCurves :: "string list"
  offSupportedPoints :: "int list"
  offSignatureSchemes :: "string list"
  offALPNProtocols :: "string list"
  offServerName :: string
  offExtensions :: "string list"
  offEncryptedClientHelloOffered :: bool

record handshakeReport =
  repVersion :: string
  repCipherSuite :: string
  repNegotiatedProtocol :: string
  repServerName :: string
  repResumed :: bool
  repECHAccepted :: bool
  repClientCertificates :: "string list"
  repHTTPProtocol :: string
  repOffered :: "clientHelloInfo option"
  repOfferedUnavailable :: string
  repCertificateSelfMade :: bool

text \<open>The loop over the extensions, which collects the names and notices ECH on the way.\<close>

definition extensionLoop :: "u16 list \<Rightarrow> string list \<times> bool" where
  "extensionLoop es =
     foldl (\<lambda>(names, ech) e. (names @ [extensionName e], if e = extensionEncryptedClientHello then True else ech))
       ([], False) es"

definition offeredInfo :: "tlsNames \<Rightarrow> clientHello \<Rightarrow> clientHelloInfo" where
  "offeredInfo names hello =
     (let (exts, ech) = extensionLoop (extensions hello)
      in \<lparr>offSupportedVersions = map versionName (supportedVersions hello),
          offCipherSuites = map (cipherSuiteName names) (cipherSuites hello),
          offSupportedCurves = map (curveName names) (supportedCurves hello),
          offSupportedPoints = map uint (supportedPoints hello),
          offSignatureSchemes = map (signatureSchemeName names) (signatureSchemes hello),
          offALPNProtocols = supportedProtos hello,
          offServerName = helloServerName hello,
          offExtensions = exts,
          offEncryptedClientHelloOffered = ech\<rparr>)"

definition handshake :: "tlsNames \<Rightarrow> server \<Rightarrow> connectionState request \<Rightarrow> handshakeReport option" where
  "handshake names s r =
     (case reqTLS r of
        None \<Rightarrow> None
      | Some state \<Rightarrow>
          (let report =
             \<lparr>repVersion = versionName (stVersion state),
              repCipherSuite = cipherSuiteName names (stCipherSuite state),
              repNegotiatedProtocol = stNegotiatedProtocol state,
              repServerName = stServerName state,
              repResumed = stDidResume state,
              repECHAccepted = stECHAccepted state,
              repClientCertificates = stPeerCertificates state,
              repHTTPProtocol = reqProto r,
              repOffered = None,
              repOfferedUnavailable = [],
              repCertificateSelfMade = selfMade (certs s)\<rparr>
           in case getHello (serverHellos s) (remoteAddr r) of
                None \<Rightarrow> Some (report\<lparr>repOfferedUnavailable := ''no ClientHello recorded for this connection''\<rparr>)
              | Some hello \<Rightarrow> Some (report\<lparr>repOffered := Some (offeredInfo names hello)\<rparr>)))"

text \<open>
  The JSON of the two structs, in field order.  \<open>supportedVersions\<close> is the one list that stays nil
  when nothing was offered, so it is then \<open>null\<close>; fields marked \<open>omitempty\<close> are left out when empty.
\<close>

definition omitEmpty :: "string \<Rightarrow> string \<Rightarrow> (string \<times> json) list" where
  "omitEmpty k v = (if v = [] then [] else [(k, JString v)])"

definition clientHelloJSON :: "clientHelloInfo \<Rightarrow> json" where
  "clientHelloJSON h =
     JObject
      [(''supportedVersions'', if offSupportedVersions h = [] then JNull else jsonStrings (offSupportedVersions h)),
       (''cipherSuites'', jsonStrings (offCipherSuites h)),
       (''supportedCurves'', jsonStrings (offSupportedCurves h)),
       (''supportedPoints'', JArray (map JInt (offSupportedPoints h))),
       (''signatureSchemes'', jsonStrings (offSignatureSchemes h)),
       (''alpnProtocols'', jsonStrings (offALPNProtocols h)),
       (''serverName'', JString (offServerName h)),
       (''extensions'', jsonStrings (offExtensions h)),
       (''encryptedClientHelloOffered'', JBool (offEncryptedClientHelloOffered h))]"

definition handshakeJSON :: "handshakeReport \<Rightarrow> json" where
  "handshakeJSON h =
     JObject
      ([(''version'', JString (repVersion h)),
        (''cipherSuite'', JString (repCipherSuite h)),
        (''negotiatedProtocol'', JString (repNegotiatedProtocol h)),
        (''serverName'', JString (repServerName h)),
        (''resumed'', JBool (repResumed h)),
        (''echAccepted'', JBool (repECHAccepted h)),
        (''clientCertificates'', jsonStrings (repClientCertificates h)),
        (''httpProtocol'', JString (repHTTPProtocol h))]
       @ (case repOffered h of None \<Rightarrow> [] | Some off \<Rightarrow> [(''offered'', clientHelloJSON off)])
       @ omitEmpty ''offeredUnavailable'' (repOfferedUnavailable h)
       @ [(''certificateSelfMade'', JBool (repCertificateSelfMade h))])"

subsection \<open>The names lose nothing\<close>

lemma hexChar_inject: "d < 16 \<Longrightarrow> e < 16 \<Longrightarrow> hexChar d = hexChar e \<Longrightarrow> d = e"
  by (metis hexValue_hexChar option.inject)

lemma hexDigits:
  fixes n :: nat
  assumes "n < 65536"
  shows "n = 4096 * (n div 4096 mod 16) + 256 * (n div 256 mod 16) + 16 * (n div 16 mod 16) + n mod 16"
proof -
  have sum: "n = 4096 * c + 256 * r2 + 16 * r1 + r0"
    if "n = 16 * a + r0" "a = 16 * b + r1" "b = 16 * c + r2" for a b c r0 r1 r2 :: nat
    using that by simp
  have "n div 16 div 16 = n div 256" "n div 256 div 16 = n div 4096"
    by (simp_all add: div_mult2_eq [symmetric])
  moreover have "n div 4096 mod 16 = n div 4096"
    using assms by (simp add: less_mult_imp_div_less)
  ultimately show ?thesis
    using sum [of "n div 16" "n mod 16" "n div 256" "n div 16 mod 16" "n div 4096" "n div 256 mod 16"]
      mult_div_mod_eq [of 16 n] mult_div_mod_eq [of 16 "n div 16"] mult_div_mod_eq [of 16 "n div 256"]
    by (simp only:)
qed

lemma hex04_inject [simp]: "hex04 v = hex04 w \<longleftrightarrow> v = w"
proof
  assume a: "hex04 v = hex04 w"
  from a have "unat v div 4096 mod 16 = unat w div 4096 mod 16"
      "unat v div 256 mod 16 = unat w div 256 mod 16"
      "unat v div 16 mod 16 = unat w div 16 mod 16" "unat v mod 16 = unat w mod 16"
    by (auto simp: hex04_def Let_def intro: hexChar_inject)
  moreover have "unat v < 65536" "unat w < 65536"
    using unsigned_less [of v] unsigned_less [of w] by simp_all
  ultimately have "unat v = unat w" using hexDigits [of "unat v"] hexDigits [of "unat w"] by simp
  then show "v = w" by (rule unsigned_word_eqI)
qed simp

lemma hex04_start: "hex04 v = c # rest \<Longrightarrow> c = CHR ''0''" "c # rest = hex04 v \<Longrightarrow> c = CHR ''0''"
  by (simp_all add: hex04_def Let_def)

lemma extensionNames_distinct:
  "distinct (map snd extensionNames)" "distinct (map fst extensionNames)"
  by (simp_all add: extensionNames_def extensionEncryptedClientHello_def)

lemma extensionNames_start:
  "map_of extensionNames e = Some name \<Longrightarrow> \<exists>c rest. name = c # rest \<and> c \<notin> {CHR ''0'', CHR ''G''}"
  by (drule map_of_SomeD) (auto simp: extensionNames_def)

lemma table_inject:
  "distinct (map snd t) \<Longrightarrow> map_of t a = Some n \<Longrightarrow> map_of t b = Some n \<Longrightarrow> a = b"
  by (auto dest!: map_of_SomeD) (metis distinct_map inj_on_def prod.inject snd_conv)

lemma inj_extensionName: "inj extensionName"
proof (rule injI)
  fix x y
  assume eq: "extensionName x = extensionName y"
  show "x = y"
  proof (cases "map_of extensionNames x = None \<or> map_of extensionNames y = None")
    case True
    with eq show ?thesis
      by (auto simp: extensionName_def dest!: extensionNames_start dest: hex04_start
          split: option.splits if_splits)
  next
    case False
    with eq show ?thesis
      by (auto simp: extensionName_def dest: table_inject [OF extensionNames_distinct(1)])
  qed
qed

lemma inj_versionName: "inj versionName"
proof (rule injI)
  fix x y
  assume "versionName x = versionName y"
  then show "x = y"
    by (auto simp: versionName_def dest: hex04_start split: if_splits)
qed

lemma extensionLoop_eq: "extensionLoop es = (map extensionName es, extensionEncryptedClientHello \<in> set es)"
proof -
  have "foldl (\<lambda>(names, ech) e. (names @ [extensionName e], if e = extensionEncryptedClientHello then True else ech))
          (ns, b) es = (ns @ map extensionName es, b \<or> extensionEncryptedClientHello \<in> set es)" for ns b
    by (induction es arbitrary: ns b) auto
  from this [of "[]" False] show ?thesis by (simp add: extensionLoop_def)
qed

lemma offeredInfo_extensions:
  "offExtensions (offeredInfo names hello) = map extensionName (extensions hello)"
  "offEncryptedClientHelloOffered (offeredInfo names hello) \<longleftrightarrow> extensionEncryptedClientHello \<in> set (extensions hello)"
  "offSupportedVersions (offeredInfo names hello) = map versionName (supportedVersions hello)"
  by (simp_all add: offeredInfo_def extensionLoop_eq)

text \<open>
  C28: what \<open>/tls\<close> prints of the offered extensions and versions determines the numbers the client
  sent, with their order and repetitions, and \<open>encryptedClientHelloOffered\<close> is true exactly when
  extension \<open>0xfe0d\<close> is among them.
\<close>

theorem offer_report_lossless:
  "(offExtensions (offeredInfo names h) = offExtensions (offeredInfo names h') \<longleftrightarrow> extensions h = extensions h') \<and>
   (offSupportedVersions (offeredInfo names h) = offSupportedVersions (offeredInfo names h')
      \<longleftrightarrow> supportedVersions h = supportedVersions h') \<and>
   (offEncryptedClientHelloOffered (offeredInfo names h) \<longleftrightarrow> 0xfe0d \<in> set (extensions h))"
  by (simp add: offeredInfo_extensions inj_map_eq_map [OF inj_extensionName] inj_map_eq_map [OF inj_versionName]
      extensionEncryptedClientHello_def)

subsection \<open>GREASE\<close>

text \<open>The sixteen values of RFC 8701: \<open>0x0a0a\<close>, \<open>0x1a1a\<close>, \<dots>, \<open>0xfafa\<close>.\<close>

definition greaseValues :: "u16 list" where
  "greaseValues = map (\<lambda>k. word_of_nat (0x0a0a + 0x1010 * k)) [0..<16]"

lemma grease_arith:
  fixes n :: nat
  assumes "n mod 16 = 10" "n div 256 = n mod 256" "n < 65536"
  obtains k where "k < 16" "n = 0x0a0a + 0x1010 * k"
proof
  define m where "m = n mod 256"
  have n: "n = 256 * m + m" using assms(2) mult_div_mod_eq [of 256 n] by (simp add: m_def)
  have "m mod 16 = 10" using assms(1) by (simp add: m_def mod_mod_cancel)
  then have m: "m = 16 * (m div 16) + 10" using mult_div_mod_eq [of 16 m] by simp
  have "m < 256" by (simp add: m_def)
  then show "m div 16 < 16" by (simp add: less_mult_imp_div_less)
  show "n = 0x0a0a + 0x1010 * (m div 16)" using n m by presburger
qed

lemma grease_test:
  "e AND 0x0f0f = 0x0a0a \<and> drop_bit 8 e = e AND 0xff \<longleftrightarrow> e \<in> set greaseValues" for e :: u16
proof
  assume a: "e AND 0x0f0f = 0x0a0a \<and> drop_bit 8 e = e AND 0xff"
  have masks: "e AND 0xff = take_bit 8 e" "take_bit 4 (0x0f0f :: u16) = mask 4"
    by (simp_all add: take_bit_eq_mask mask_eq_exp_minus_1)
  have "take_bit 4 e = take_bit 4 (e AND 0x0f0f)"
    by (simp only: take_bit_and masks(2)) (simp add: take_bit_eq_mask and.assoc)
  also have "\<dots> = 10" using a by simp
  finally have "unat (take_bit 4 e) = 10" by simp
  then have low: "unat e mod 16 = 10"
    by (simp only: unsigned_take_bit_eq) (simp add: take_bit_eq_mod)
  from a masks have "drop_bit 8 e = take_bit 8 e" by simp
  then have "unat (drop_bit 8 e) = unat (take_bit 8 e)" by (rule arg_cong)
  moreover have small: "unat e < 65536" using unsigned_less [of e] by simp
  ultimately have halves: "unat e div 256 = unat e mod 256"
    by (simp only: unsigned_take_bit_eq unsigned_drop_bit_eq) (simp add: take_bit_eq_mod drop_bit_eq_div)
  from low halves small obtain k where "k < 16" "unat e = 0x0a0a + 0x1010 * k"
    by (rule grease_arith)
  then have "e = word_of_nat (0x0a0a + 0x1010 * k)" by (metis of_nat_unat ucast_id)
  with \<open>k < 16\<close> show "e \<in> set greaseValues" by (auto simp: greaseValues_def)
next
  assume "e \<in> set greaseValues"
  then show "e AND 0x0f0f = 0x0a0a \<and> drop_bit 8 e = e AND 0xff"
    by (auto simp: greaseValues_def upt_rec)
qed

lemma grease_unnamed: "map_of extensionNames e = Some name \<Longrightarrow> e AND 0x0f0f \<noteq> 0x0a0a"
  by (drule map_of_SomeD) (auto simp: extensionNames_def extensionEncryptedClientHello_def)

text \<open>
  An extension is printed as GREASE exactly for the sixteen values of RFC 8701; any other
  extension is printed by its registered name or as its number in hexadecimal.
\<close>

lemma grease_exact:
  "length greaseValues = 16 \<and> distinct greaseValues \<and>
   (prefix ''GREASE('' (extensionName e) \<longleftrightarrow> e \<in> set greaseValues) \<and>
   (e \<in> set greaseValues \<or> extensionName e \<in> {hex04 e} \<union> snd ` set extensionNames)"
proof (intro conjI)
  show "length greaseValues = 16" "distinct greaseValues"
    by (simp_all add: greaseValues_def upt_rec)
next
  have none: "map_of extensionNames e = None" if "e \<in> set greaseValues"
    using that grease_unnamed [of e] unfolding grease_test [symmetric] by (cases "map_of extensionNames e") auto
  have hex: "\<not> prefix ''GREASE('' (hex04 e)" by (simp add: hex04_def Let_def)
  have named: "\<not> prefix ''GREASE('' name" if "map_of extensionNames e = Some name" for name
    using extensionNames_start [OF that] by auto
  show "prefix ''GREASE('' (extensionName e) \<longleftrightarrow> e \<in> set greaseValues"
    using none hex named by (auto simp: extensionName_def grease_test split: option.splits)
  show "e \<in> set greaseValues \<or> extensionName e \<in> {hex04 e} \<union> snd ` set extensionNames"
    by (cases "map_of extensionNames e") (auto simp: extensionName_def grease_test dest!: map_of_SomeD intro: rev_image_eqI)
qed

subsection \<open>The report of a request\<close>

lemma handshake_offer:
  assumes "reqTLS r = Some state"
  obtains rep where "handshake names s r = Some rep"
    "repOffered rep = map_option (offeredInfo names) (getHello (serverHellos s) (remoteAddr r))"
    "repOfferedUnavailable rep = [] \<longleftrightarrow> repOffered rep \<noteq> None"
    "repVersion rep = versionName (stVersion state)" "repECHAccepted rep = stECHAccepted state"
  using assms that by (cases "getHello (serverHellos s) (remoteAddr r)") (auto simp: handshake_def Let_def)

text \<open>
  C27: in every reachable state in which live connections have distinct remote addresses, \<open>/tls\<close> reports
  for a request on a live connection either the offer of that connection's own ClientHello, or that
  none is recorded; never an offer of another connection.
\<close>

theorem tls_reports_own_offer:
  assumes "reachable True st" "live st c = Some (remoteAddr r, Some hello)"
    "serverHellos s = hellos st" "reqTLS r = Some state"
  shows "\<exists>rep. handshake names s r = Some rep \<and> repVersion rep = versionName (stVersion state) \<and>
     (repOffered rep = Some (offeredInfo names hello) \<and> repOfferedUnavailable rep = [] \<or>
      repOffered rep = None \<and> repOfferedUnavailable rep \<noteq> [])"
proof -
  obtain rep where rep: "handshake names s r = Some rep"
    "repOffered rep = map_option (offeredInfo names) (getHello (serverHellos s) (remoteAddr r))"
    "repOfferedUnavailable rep = [] \<longleftrightarrow> repOffered rep \<noteq> None"
    "repVersion rep = versionName (stVersion state)"
    using assms(4) by (rule handshake_offer)
  have "x = hello" if "getHello (hellos st) (remoteAddr r) = Some x" for x
    using reachable_own [OF assms(1)] assms(2) that unfolding ownHello_def by blast
  with rep assms(3) show ?thesis by (cases "getHello (hellos st) (remoteAddr r)") auto
qed

definition exampleRequest :: "connectionState request" where
  "exampleRequest = \<lparr>reqMethod = ''GET'', reqProto = ''HTTP/2.0'', reqHost = ''localhost:8443'',
     remoteAddr = ''10.0.0.1:4000'', urlPath = ''/tls'', requestURI = ''/tls'', urlQuery = [], reqHeader = [],
     reqBody = \<lparr>bodyData = [], bodyError = None\<rparr>, reqCookies = [], pathValues = [],
     reqTLS = Some \<lparr>stVersion = versionTLS13, stCipherSuite = 0x1301, stNegotiatedProtocol = ''h2'',
       stServerName = ''localhost'', stDidResume = False, stECHAccepted = False, stPeerCertificates = []\<rparr>\<rparr>"

definition exampleCertificates :: certificates where
  "exampleCertificates = \<lparr>leaf = \<lparr>chain = [], privateKey = 0\<rparr>, caPEM = [], selfMade = True, hosts = [''localhost''],
     badChains = [], clientPEM = [], clientCAs = None\<rparr>"

definition exampleNames :: tlsNames where
  "exampleNames = \<lparr>cipherSuiteName = hex04, curveString = hex04, schemeString = hex04\<rparr>"

lemma tls_reports_own_offer_witness:
  "\<exists>rep. handshake exampleNames
      \<lparr>certs = exampleCertificates, serverHellos = hellos (twoConnections ''10.0.0.2:4000''), listeners = []\<rparr>
      exampleRequest = Some rep \<and> repVersion rep = ''TLSv1.3'' \<and>
     (repOffered rep = Some (offeredInfo exampleNames (exampleHello ''x'')) \<and> repOfferedUnavailable rep = [] \<or>
      repOffered rep = None \<and> repOfferedUnavailable rep \<noteq> [])"
  using tls_reports_own_offer [OF twoConnections_reachable [of True "''10.0.0.2:4000''"], of 1 exampleRequest
      "exampleHello ''x''"
      "\<lparr>certs = exampleCertificates, serverHellos = hellos (twoConnections ''10.0.0.2:4000''), listeners = []\<rparr>"
      _ exampleNames]
  by (simp add: twoConnections_def exampleRequest_def versionName_def version_defs)

end
