(* ===== verification/Handlers.thy ===== *)
theory Handlers
  imports Complex_Main Handshake
begin

text \<open>
  The handlers of \<open>handlers.go\<close>, one definition per function, over the response writer of \<open>Http\<close>.
  \<open>host\<close> collects what they take from the Go library and from the outside: float parsing and
  duration arithmetic, HTTP dates, randomness, compression, a digest, status texts, PEM text,
  whether the client went away during its n-th wait, and whether a write after n bytes fails.
  \<open>Content-Type\<close> and \<open>Content-Length\<close> that \<open>net/http\<close> adds of its own accord are left out.
\<close>

datatype goFloat = Finite rat | PosInf | NegInf | NaN

fun floatLess :: "goFloat \<Rightarrow> goFloat \<Rightarrow> bool" where
  "floatLess NaN _ = False"
| "floatLess _ NaN = False"
| "floatLess (Finite a) (Finite b) = (a < b)"
| "floatLess NegInf x = (x \<noteq> NegInf)"
| "floatLess x PosInf = (x \<noteq> PosInf)"
| "floatLess PosInf _ = False"
| "floatLess _ NegInf = False"

record host =
  tlsNamesOf :: tlsNames
  parseFloat :: "string \<Rightarrow> goFloat option"
  secondsDuration :: "goFloat \<Rightarrow> int"
  parseTime :: "string \<Rightarrow> time option"
  randRead :: "nat \<Rightarrow> (string, string) result"
  gzipped :: "string \<Rightarrow> string"
  deflated :: "string \<Rightarrow> string"
  digest8 :: "string \<Rightarrow> string"
  statusText :: "int \<Rightarrow> string"
  pemText :: "pemBlock list \<Rightarrow> string"
  quoteRunes :: "string \<Rightarrow> string"
  cancelled :: "nat \<Rightarrow> bool"
  writeFails :: "nat \<Rightarrow> bool"

type_synonym req = "connectionState request"

subsection \<open>Where a request came from\<close>

definition scheme :: "'tls request \<Rightarrow> string" where
  "scheme r =
     (let forwarded = headerGet (reqHeader r) ''X-Forwarded-Proto''
      in if forwarded \<noteq> [] then forwarded
         else if reqTLS r \<noteq> None then ''https''
         else ''http'')"

definition baseURL :: "'tls request \<Rightarrow> string" where
  "baseURL r = scheme r @ ''://'' @ reqHost r"

definition caURL :: "'tls request \<Rightarrow> bool \<Rightarrow> string" where
  "caURL r own = (if \<not> own then [] else baseURL r @ ''/ca.pem'')"

subsection \<open>Helpers\<close>

definition writeJSON :: "int \<Rightarrow> json \<Rightarrow> writer \<Rightarrow> writer" where
  "writeJSON code body w =
     (case marshalIndent body of
        Err e \<Rightarrow> httpError e 500 w
      | Panic \<Rightarrow> w\<lparr>wPanic := True\<rparr>
      | Ok payload \<Rightarrow>
          (let payload = payload @ [CHR 0x0A];
               w = setHeader ''Content-Type'' ''application/json'' w;
               w = setHeader ''Content-Length'' (itoa (int (length payload))) w;
               w = writeHeader code w
           in writeBody payload w))"

definition queryValues :: "header \<Rightarrow> string \<Rightarrow> string list" where
  "queryValues q name = (case map_of q name of Some vs \<Rightarrow> vs | None \<Rightarrow> [])"

definition queryIntR :: "header \<Rightarrow> string \<Rightarrow> int \<Rightarrow> int \<Rightarrow> int \<Rightarrow> (string, int) result" where
  "queryIntR query name fallback low high =
     (let values = queryValues query name
      in if length values = 0 then Ok fallback
         else bindR (index values 0) (\<lambda>v.
           case atoi v of
             None \<Rightarrow> Ok fallback
           | Some n \<Rightarrow> if n < low \<or> high < n then Ok fallback else Ok n))"

definition queryDurationR :: "host \<Rightarrow> header \<Rightarrow> string \<Rightarrow> int \<Rightarrow> (string, int) result" where
  "queryDurationR host query name fallback =
     (let values = queryValues query name
      in if length values = 0 then Ok fallback
         else bindR (index values 0) (\<lambda>v.
           case parseFloat host v of
             None \<Rightarrow> Ok fallback
           | Some seconds \<Rightarrow>
               if floatLess seconds (Finite 0) \<or> floatLess (Finite 60) seconds then Ok fallback
               else Ok (secondsDuration host seconds)))"

text \<open>
  The two functions never panic (\<open>queryIntR_Ok\<close>, \<open>queryDurationR_Ok\<close>), so statements about the handlers
  speak of the number they return.
\<close>

definition queryInt :: "header \<Rightarrow> string \<Rightarrow> int \<Rightarrow> int \<Rightarrow> int \<Rightarrow> int" where
  "queryInt query name fallback low high =
     (case queryIntR query name fallback low high of Ok n \<Rightarrow> n | _ \<Rightarrow> fallback)"

definition queryDuration :: "host \<Rightarrow> header \<Rightarrow> string \<Rightarrow> int \<Rightarrow> int" where
  "queryDuration host query name fallback =
     (case queryDurationR host query name fallback of Ok d \<Rightarrow> d | _ \<Rightarrow> fallback)"

definition headersJSON :: "header \<Rightarrow> json" where
  "headersJSON h = jsonMap (map (\<lambda>(k, vs). (k, jsonStrings vs)) h)"

definition headerList :: "'tls request \<Rightarrow> string list" where
  "headerList r = sort (concat (map (\<lambda>(name, values). map (\<lambda>v. name @ '': '' @ v) values) (reqHeader r)))"

subsection \<open>Information\<close>

definition health :: "writer \<Rightarrow> writer" where
  "health w = writeBody (''ok'' @ [CHR 0x0A]) (setHeader ''Content-Type'' ''text/plain; charset=utf-8'' w)"

definition listenerJSON :: "listener \<Rightarrow> json" where
  "listenerJSON l =
     JObject
      ([(''name'', JString (lName l)), (''addr'', JString (lAddr l)), (''tls'', JBool (lTLS l))]
       @ omitEmpty ''minVersion'' (lMinVersion l) @ omitEmpty ''maxVersion'' (lMaxVersion l)
       @ omitEmpty ''alpn'' (lALPN l) @ omitEmpty ''note'' (lNote l))"

definition handshakeOrNull :: "handshakeReport option \<Rightarrow> json" where
  "handshakeOrNull h = (case h of None \<Rightarrow> JNull | Some rep \<Rightarrow> handshakeJSON rep)"

definition info :: "host \<Rightarrow> server \<Rightarrow> req \<Rightarrow> writer \<Rightarrow> writer" where
  "info host s r w =
     writeJSON 200
       (jsonMap
         [(''server'', JString ''okhttp-testbed/test-server''),
          (''listeners'', if snapshot s = [] then JNull else JArray (map listenerJSON (snapshot s))),
          (''observed'', jsonMap
             [(''baseUrl'', JString (baseURL r)),
              (''host'', JString (reqHost r)),
              (''protocol'', JString (reqProto r)),
              (''tls'', handshakeOrNull (handshake (tlsNamesOf host) s r))]),
          (''certificate'', jsonMap
             [(''selfMade'', JBool (selfMade (certs s))),
              (''hosts'', jsonStrings (hosts (certs s))),
              (''caUrl'', JString (caURL r (selfMade (certs s))))])]) w"

definition caPEMHandler :: "host \<Rightarrow> server \<Rightarrow> writer \<Rightarrow> writer" where
  "caPEMHandler host s w =
     (if \<not> selfMade (certs s) then
        httpError ''this server presents a supplied certificate; there is no fixture CA'' 404 w
      else writeBody (pemText host (caPEM (certs s))) (setHeader ''Content-Type'' ''application/x-pem-file'' w))"

definition clientPEMHandler :: "host \<Rightarrow> server \<Rightarrow> writer \<Rightarrow> writer" where
  "clientPEMHandler host s w =
     (if clientPEM (certs s) = [] then
        httpError ''this server presents a supplied certificate; there is no CA to sign a client identity'' 404 w
      else writeBody (pemText host (clientPEM (certs s))) (setHeader ''Content-Type'' ''application/x-pem-file'' w))"

definition tlsInfo :: "host \<Rightarrow> server \<Rightarrow> req \<Rightarrow> writer \<Rightarrow> writer" where
  "tlsInfo host s r w =
     (case handshake (tlsNamesOf host) s r of
        None \<Rightarrow> writeJSON 200 (jsonMap [(''tls'', JBool False), (''protocol'', JString (reqProto r))]) w
      | Some rep \<Rightarrow> writeJSON 200 (handshakeJSON rep) w)"

subsection \<open>The echo\<close>

definition maxEchoBody :: nat where
  "maxEchoBody = 1048576"

definition readBody :: "'tls request \<Rightarrow> (string, string \<times> bool) result" where
  "readBody r =
     (case readLimited (maxEchoBody + 1) (reqBody r) of
        Err e \<Rightarrow> Err e
      | Panic \<Rightarrow> Panic
      | Ok body \<Rightarrow>
          if maxEchoBody < length body then
            (case slice body 0 maxEchoBody of Ok b \<Rightarrow> Ok (b, True) | Err e \<Rightarrow> Err e | Panic \<Rightarrow> Panic)
          else Ok (body, False))"

record echo =
  echoMethod :: string
  echoURL :: string
  echoPath :: string
  echoQuery :: header
  echoProtocol :: string
  echoHost :: string
  echoScheme :: string
  echoRemoteAddr :: string
  echoHeaders :: header
  echoHeaderList :: "string list"
  echoBody :: string
  echoBodyBase64 :: string
  echoBodyLength :: int
  echoTruncated :: bool
  echoTLS :: "handshakeReport option"

definition echoJSON :: "echo \<Rightarrow> json" where
  "echoJSON e =
     JObject
      ([(''method'', JString (echoMethod e)), (''url'', JString (echoURL e)), (''path'', JString (echoPath e)),
        (''query'', headersJSON (echoQuery e)), (''protocol'', JString (echoProtocol e)),
        (''host'', JString (echoHost e)), (''scheme'', JString (echoScheme e)),
        (''remoteAddr'', JString (echoRemoteAddr e)), (''headers'', headersJSON (echoHeaders e)),
        (''headerList'', jsonStrings (echoHeaderList e)), (''body'', JString (echoBody e))]
       @ omitEmpty ''bodyBase64'' (echoBodyBase64 e)
       @ [(''bodyLength'', JInt (echoBodyLength e))]
       @ (if echoTruncated e then [(''truncated'', JBool True)] else [])
       @ (case echoTLS e of None \<Rightarrow> [] | Some rep \<Rightarrow> [(''tls'', handshakeJSON rep)]))"

definition echoOf :: "host \<Rightarrow> server \<Rightarrow> req \<Rightarrow> string \<Rightarrow> bool \<Rightarrow> echo" where
  "echoOf host s r body truncated =
     (let result =
        \<lparr>echoMethod = reqMethod r, echoURL = baseURL r @ requestURI r, echoPath = urlPath r,
         echoQuery = urlQuery r, echoProtocol = reqProto r, echoHost = reqHost r, echoScheme = scheme r,
         echoRemoteAddr = remoteAddr r, echoHeaders = reqHeader r, echoHeaderList = headerList r,
         echoBody = [], echoBodyBase64 = [], echoBodyLength = int (length body),
         echoTruncated = truncated, echoTLS = handshake (tlsNamesOf host) s r\<rparr>
      in if utf8Valid body then result\<lparr>echoBody := body\<rparr>
         else result\<lparr>echoBodyBase64 := encodeToString StdEncoding (bytes_of body)\<rparr>)"

definition anything :: "host \<Rightarrow> server \<Rightarrow> req \<Rightarrow> writer \<Rightarrow> writer" where
  "anything host s r w =
     (case readBody r of
        Err e \<Rightarrow> httpError (''cannot read request body: '' @ e) 400 w
      | Panic \<Rightarrow> w\<lparr>wPanic := True\<rparr>
      | Ok (body, truncated) \<Rightarrow> writeJSON 200 (echoJSON (echoOf host s r body truncated)) w)"

definition headersHandler :: "'tls request \<Rightarrow> writer \<Rightarrow> writer" where
  "headersHandler r w =
     writeJSON 200
       (jsonMap [(''headers'', headersJSON (reqHeader r)), (''headerList'', jsonStrings (headerList r)),
                 (''host'', JString (reqHost r)), (''protocol'', JString (reqProto r))]) w"

subsection \<open>Status codes and redirects\<close>

definition status :: "host \<Rightarrow> 'tls request \<Rightarrow> writer \<Rightarrow> writer" where
  "status host r w =
     (case atoi (pathValue r ''code'') of
        None \<Rightarrow> httpError ''status must be between 100 and 599'' 400 w
      | Some code \<Rightarrow>
          if code < 100 \<or> 599 < code then httpError ''status must be between 100 and 599'' 400 w
          else (let location = queryGet (urlQuery r) ''location'';
                    w = (if location \<noteq> [] then setHeader ''Location'' location w else w);
                    w = writeHeader code w
                in if code \<noteq> 204 \<and> code \<noteq> 304 \<and> reqMethod r \<noteq> ''HEAD''
                   then writeBody (itoa code @ '' '' @ statusText host code @ [CHR 0x0A]) w else w))"

text \<open>\<open>strings.LastIndex(path, "/")\<close> and \<open>strings.Trim(s, "/")\<close>; a slice up to index -1 panics.\<close>

definition beforeLastSlash :: "string \<Rightarrow> (string, string) result" where
  "beforeLastSlash path =
     (if CHR ''/'' \<in> set path then Ok (rev (tl (dropWhile (\<lambda>c. c \<noteq> CHR ''/'') (rev path)))) else Panic)"

definition trimSlashes :: "string \<Rightarrow> string" where
  "trimSlashes s = rev (dropWhile (\<lambda>c. c = CHR ''/'') (rev (dropWhile (\<lambda>c. c = CHR ''/'') s)))"

definition redirect :: "bool \<Rightarrow> 'tls request \<Rightarrow> writer \<Rightarrow> writer" where
  "redirect absolute r w =
     (case atoi (pathValue r ''count'') of
        None \<Rightarrow> httpError ''count must be between 1 and 100'' 400 w
      | Some count \<Rightarrow>
          if count < 1 \<or> 100 < count then httpError ''count must be between 1 and 100'' 400 w
          else (case (if 1 < count
                      then bindR (beforeLastSlash (urlPath r))
                             (\<lambda>p. Ok (''/'' @ trimSlashes p @ ''/'' @ itoa (count - 1)))
                      else Ok ''/anything'') of
                  Ok target \<Rightarrow>
                    (let target = (if absolute then baseURL r @ target else target)
                     in writeHeader 302 (setHeader ''Location'' target w))
                | _ \<Rightarrow> w\<lparr>wPanic := True\<rparr>))"

definition redirectTo :: "'tls request \<Rightarrow> writer \<Rightarrow> writer" where
  "redirectTo r w =
     (let target = queryGet (urlQuery r) ''url''
      in if target = [] then httpError ''url is required'' 400 w
         else (let raw = queryGet (urlQuery r) ''status''
               in case (if raw = [] then Some 302
                        else case atoi raw of
                               None \<Rightarrow> None
                             | Some parsed \<Rightarrow> if parsed < 300 \<or> 399 < parsed then None else Some parsed) of
                    None \<Rightarrow> httpError ''status must be between 300 and 399'' 400 w
                  | Some code \<Rightarrow> writeHeader code (setHeader ''Location'' target w)))"

subsection \<open>Delays and bodies\<close>

definition delay :: "host \<Rightarrow> server \<Rightarrow> req \<Rightarrow> writer \<Rightarrow> writer" where
  "delay host s r w =
     (case parseFloat host (pathValue r ''seconds'') of
        None \<Rightarrow> httpError ''seconds must be between 0 and 60'' 400 w
      | Some seconds \<Rightarrow>
          if floatLess seconds (Finite 0) \<or> floatLess (Finite 60) seconds
          then httpError ''seconds must be between 0 and 60'' 400 w
          else (case waitFor (cancelled host) (secondsDuration host seconds) w of
                  (w, gone) \<Rightarrow> if gone then w else anything host s r w))"

definition bytes :: "host \<Rightarrow> 'tls request \<Rightarrow> writer \<Rightarrow> writer" where
  "bytes host r w =
     (case atoi (pathValue r ''count'') of
        None \<Rightarrow> httpError ''count must be between 0 and 10485760'' 400 w
      | Some count \<Rightarrow>
          if count < 0 \<or> 10485760 < count then httpError ''count must be between 0 and 10485760'' 400 w
          else (case bindR (makeBytes count) (\<lambda>body. randRead host (length body)) of
                  Err e \<Rightarrow> httpError e 500 w
                | Panic \<Rightarrow> w\<lparr>wPanic := True\<rparr>
                | Ok body \<Rightarrow>
                    (let w = setHeader ''Content-Type'' ''application/octet-stream'' w;
                         w = setHeader ''Content-Length'' (itoa count) w
                     in writeBody body w)))"

definition streamLine :: "host \<Rightarrow> 'tls request \<Rightarrow> nat \<Rightarrow> string" where
  "streamLine host r i =
     ''{'' @ [CHR 0x22] @ ''line'' @ [CHR 0x22] @ '':'' @ itoa (int i)
     @ '','' @ [CHR 0x22] @ ''protocol'' @ [CHR 0x22] @ '':'' @ goQuote (quoteRunes host) (reqProto r) @ ''}''
     @ [CHR 0x0A]"

definition stream :: "host \<Rightarrow> 'tls request \<Rightarrow> writer \<Rightarrow> writer" where
  "stream host r w =
     (case atoi (pathValue r ''lines'') of
        None \<Rightarrow> httpError ''lines must be between 1 and 1000'' 400 w
      | Some lines \<Rightarrow>
          if lines < 1 \<or> 1000 < lines then httpError ''lines must be between 1 and 1000'' 400 w
          else foldl (\<lambda>w i. flush (writeBody (streamLine host r i) w))
                 (setHeader ''Content-Type'' ''application/json'' w) [0..<nat lines])"

fun dripLoop :: "host \<Rightarrow> int \<Rightarrow> nat \<Rightarrow> writer \<Rightarrow> writer" where
  "dripLoop host pause 0 w = w"
| "dripLoop host pause (Suc n) w =
     (if writeFails host (length (wBody w)) then w
      else (case waitFor (cancelled host) pause (flush (writeBody ''*'' w)) of
              (w, gone) \<Rightarrow> if gone then w else dripLoop host pause n w))"

definition dripBody :: "host \<Rightarrow> int \<Rightarrow> int \<Rightarrow> writer \<Rightarrow> writer" where
  "dripBody host count duration w =
     (let w = setHeader ''Content-Type'' ''application/octet-stream'' w;
          w = setHeader ''Content-Length'' (itoa count) w;
          pause = quo duration (max count 1) :: (string, int) result
      in case pause of
           Ok pause \<Rightarrow> dripLoop host pause (nat count) w
         | _ \<Rightarrow> w\<lparr>wPanic := True\<rparr>)"

definition drip :: "host \<Rightarrow> 'tls request \<Rightarrow> writer \<Rightarrow> writer" where
  "drip host r w =
     (let query = urlQuery r;
          parameters =
            bindR (queryIntR query ''bytes'' 10 1 1048576) (\<lambda>count.
            bindR (queryDurationR host query ''duration'' 1000000000) (\<lambda>duration.
            bindR (queryDurationR host query ''delay'' 0) (\<lambda>initial. Ok (count, duration, initial))))
      in case parameters of
           Ok (count, duration, initial) \<Rightarrow>
             if 0 < initial then
               (case waitFor (cancelled host) initial w of
                  (w, gone) \<Rightarrow> if gone then w else dripBody host count duration w)
             else dripBody host count duration w
         | _ \<Rightarrow> w\<lparr>wPanic := True\<rparr>)"

definition compressed :: "host \<Rightarrow> string \<Rightarrow> 'tls request \<Rightarrow> writer \<Rightarrow> writer" where
  "compressed host enc r w =
     (case marshal (jsonMap [(''encoding'', JString enc), (''protocol'', JString (reqProto r)),
                             (''headers'', headersJSON (reqHeader r))]) of
        Err e \<Rightarrow> httpError e 500 w
      | Panic \<Rightarrow> w\<lparr>wPanic := True\<rparr>
      | Ok payload \<Rightarrow>
          (let w = setHeader ''Content-Type'' ''application/json'' w;
               w = setHeader ''Content-Encoding'' enc w
           in writeBody (if enc = ''gzip'' then gzipped host payload else deflated host payload) w))"

definition trailersBody :: string where
  "trailersBody = ''trailers'' @ [CHR 0x0A]"

definition trailers :: "host \<Rightarrow> 'tls request \<Rightarrow> writer \<Rightarrow> writer" where
  "trailers host r w =
     (let w = setHeader ''Content-Type'' ''text/plain; charset=utf-8'' w;
          w = setHeader ''Trailer'' ''X-Testbed-Checksum, X-Testbed-Protocol'' w;
          w = flush (writeBody trailersBody w);
          w = setHeader ''X-Testbed-Checksum'' (digest8 host trailersBody) w
      in setHeader ''X-Testbed-Protocol'' (reqProto r) w)"

subsection \<open>Authentication and cookies\<close>

text \<open>\<open>r.BasicAuth()\<close>.\<close>

definition basicCredentials :: "'tls request \<Rightarrow> (string \<times> string) option" where
  "basicCredentials r =
     (let auth = headerGet (reqHeader r) ''Authorization''
      in if length auth < 6 \<or> map lowerChar (take 6 auth) \<noteq> ''basic '' then None
         else (case decodeString StdEncoding (drop 6 auth) of
                 Ok bs \<Rightarrow>
                   (let cs = string_of bs
                    in if CHR '':'' \<in> set cs
                       then Some (takeWhile (\<lambda>c. c \<noteq> CHR '':'') cs, tl (dropWhile (\<lambda>c. c \<noteq> CHR '':'') cs))
                       else None)
               | _ \<Rightarrow> None))"

definition basicAuth :: "'tls request \<Rightarrow> writer \<Rightarrow> writer" where
  "basicAuth r w =
     (let wantUser = pathValue r ''user''; wantPassword = pathValue r ''password'';
          challenge = writeHeader 401
            (setHeader ''WWW-Authenticate'' (''Basic realm='' @ [CHR 0x22] @ ''okhttp-testbed'' @ [CHR 0x22]) w)
      in case basicCredentials r of
           None \<Rightarrow> challenge
         | Some (user, password) \<Rightarrow>
             if user \<noteq> wantUser \<or> password \<noteq> wantPassword then challenge
             else writeJSON 200 (jsonMap [(''authenticated'', JBool True), (''user'', JString user)]) w)"

definition cookies :: "'tls request \<Rightarrow> writer \<Rightarrow> writer" where
  "cookies r w =
     (let cs = foldl (\<lambda>m (name, v). AList.update name v m) [] (reqCookies r)
      in writeJSON 200 (jsonMap [(''cookies'', jsonMap (map (\<lambda>(k, v). (k, JString v)) cs))]) w)"

text \<open>\<open>http.SetCookie\<close>: nothing for a name that is no token; bytes a cookie value must not have are dropped.\<close>

definition cookieString :: "string \<Rightarrow> string \<Rightarrow> string" where
  "cookieString name v =
     (let v = filter (\<lambda>c. inRange 0x20 0x7E c \<and> c \<noteq> CHR 0x22 \<and> c \<noteq> CHR '';'' \<and> c \<noteq> CHR 0x5C) v;
          v = (if v \<noteq> [] \<and> (CHR '' '' \<in> set v \<or> CHR '','' \<in> set v) then [CHR 0x22] @ v @ [CHR 0x22] else v)
      in if name = [] \<or> \<not> list_all validHeaderFieldByte name then []
         else name @ ''='' @ v @ ''; Path=/'')"

definition setCookie :: "string \<Rightarrow> string \<Rightarrow> writer \<Rightarrow> writer" where
  "setCookie name v w =
     (let c = cookieString name v
      in if c = [] then w else w\<lparr>wHeader := headerAdd ''Set-Cookie'' c (wHeader w)\<rparr>)"

definition setCookies :: "'tls request \<Rightarrow> writer \<Rightarrow> writer" where
  "setCookies r w =
     (let w = foldl (\<lambda>w (name, values). foldl (\<lambda>w v. setCookie name v w) w values) w (urlQuery r)
      in writeHeader 302 (setHeader ''Location'' ''/cookies'' w))"

subsection \<open>Caching\<close>

definition etag :: string where
  "etag = [CHR 0x22] @ ''okhttp-testbed'' @ [CHR 0x22]"

text \<open>1 January 2026, a Thursday, as seconds since 1970 and in \<open>http.TimeFormat\<close>.\<close>

definition modified :: time where
  "modified = 1767225600"

definition cache :: "host \<Rightarrow> 'tls request \<Rightarrow> writer \<Rightarrow> writer" where
  "cache host r w =
     (let w = setHeader ''ETag'' etag w;
          w = setHeader ''Last-Modified'' ''Thu, 01 Jan 2026 00:00:00 GMT'' w
      in if headerGet (reqHeader r) ''If-None-Match'' = etag then writeHeader 304 w
         else if (case parseTime host (headerGet (reqHeader r) ''If-Modified-Since'') of
                    None \<Rightarrow> False | Some since \<Rightarrow> \<not> since < modified)
         then writeHeader 304 w
         else writeJSON 200 (jsonMap [(''cached'', JBool True), (''protocol'', JString (reqProto r))]) w)"

definition cacheControl :: "'tls request \<Rightarrow> writer \<Rightarrow> writer" where
  "cacheControl r w =
     (case atoi (pathValue r ''seconds'') of
        None \<Rightarrow> httpError ''seconds must be between 0 and 86400'' 400 w
      | Some seconds \<Rightarrow>
          if seconds < 0 \<or> 86400 < seconds then httpError ''seconds must be between 0 and 86400'' 400 w
          else writeJSON 200 (jsonMap [(''maxAge'', JInt seconds), (''protocol'', JString (reqProto r))])
                 (setHeader ''Cache-Control'' (''public, max-age='' @ itoa seconds) w))"

subsection \<open>Query parameters\<close>

lemma queryIntR_Ok [simp]: "queryIntR q name fallback low high = Ok (queryInt q name fallback low high)"
  by (auto simp: queryInt_def queryIntR_def Let_def split: option.splits)

lemma queryDurationR_Ok [simp]: "queryDurationR host q name fallback = Ok (queryDuration host q name fallback)"
  by (auto simp: queryDuration_def queryDurationR_def Let_def split: option.splits)

lemma queryInt_unfold:
  "queryInt query name fallback low high =
     (case queryValues query name of
        [] \<Rightarrow> fallback
      | v # _ \<Rightarrow> (case atoi v of None \<Rightarrow> fallback | Some n \<Rightarrow> if n < low \<or> high < n then fallback else n))"
  by (simp del: queryIntR_Ok add: queryInt_def queryIntR_def Let_def split: list.splits option.splits)

lemma queryDuration_absent: "queryValues query name = [] \<Longrightarrow> queryDuration host query name fallback = fallback"
  by (simp del: queryDurationR_Ok add: queryDuration_def queryDurationR_def)

end
