(* ===== verification/Handler_Facts.thy ===== *)
theory Handler_Facts
  imports Handlers "HOL-Library.Multiset"
begin

text \<open>
  What the handlers promise.  Every lemma speaks of a handler run on a fresh writer, which is how
  the server calls it; the writer lemmas of the first section carry the proofs.
\<close>

subsection \<open>Writing on a fresh writer\<close>

text \<open>A writer on which nothing has been sent; headers may have been set.\<close>

definition fresh :: "writer \<Rightarrow> bool" where
  "fresh w \<longleftrightarrow> wStatus w = None \<and> wBody w = [] \<and> wWritten w = 0 \<and> wInformational w = [] \<and> wFlushes w = [] \<and> \<not> wPanic w"

lemma fresh_newWriter [simp]: "fresh newWriter"
  by (simp add: fresh_def)

lemma fresh_setHeader [simp]: "fresh (setHeader k v w) = fresh w"
  by (simp add: fresh_def)

lemma fresh_waitFor: "fresh w \<Longrightarrow> waitFor c d w = (w', gone) \<Longrightarrow> fresh w' \<and> wHeader w' = wHeader w"
  by (auto simp: fresh_def waitFor_def)

lemma writeHeader_fresh [simp]: "fresh w \<Longrightarrow> finalCode code \<Longrightarrow> wStatus (writeHeader code w) = Some (code, wHeader w)"
  by (simp add: fresh_def)

text \<open>A whole body that is no longer than the length declared for it.\<close>

lemma writeBody_fresh:
  assumes "fresh w" "\<forall>n. declaredLength (wHeader w) = Some n \<longrightarrow> int (length data) \<le> n"
  shows "wStatus (writeBody data w) = Some (200, wHeader w)" "wBody (writeBody data w) = data"
    "\<not> wPanic (writeBody data w)" "wFlushes (writeBody data w) = []" "wHeader (writeBody data w) = wHeader w"
  using assms
  by (auto simp: fresh_def writeBody_def ensureHeader_def bodyAllowedForStatus_def Let_def split: option.splits)

lemma httpError_on_fresh:
  assumes "fresh w" "finalCode code" "bodyAllowedForStatus code"
  shows "statusOf (httpError msg code w) = Some code" "wBody (httpError msg code w) = msg @ [CHR 0x0A]"
    "\<not> wPanic (httpError msg code w)"
  using assms httpError_fresh [of w code msg] by (simp_all add: fresh_def)

lemma atoi_formatNat_big: "2 ^ 63 \<le> n \<Longrightarrow> atoi (formatNat n) = None"
  by (rule formatNat_hd_not_sign [of n])
    (auto simp: atoi_def Let_def dest: arg_cong [of _ _ digitsValue])

lemma declaredLength_itoa: "declaredLength (headerSet ''Content-Length'' (itoa (int n)) h) \<in> {Some (int n), None}"
proof (cases "int n < 2 ^ 63")
  case True
  then have "atoi (itoa (int n)) = Some (int n)" by (intro atoi_itoa) simp_all
  then show ?thesis by (auto simp: declaredLength_def split: list.splits)
next
  case False
  then have "2 ^ 63 \<le> n" by (simp add: not_less)
  then have "atoi (itoa (int n)) = None" by (simp add: itoa_def atoi_formatNat_big)
  then show ?thesis by (auto simp: declaredLength_def split: list.splits)
qed

lemma writeJSON_fresh:
  assumes "fresh w" "finalCode code" "bodyAllowedForStatus code"
  shows "wStatus (writeJSON code body w) = Some (code,
      headerSet ''Content-Length'' (itoa (int (length (renderJSON 0 body) + 1)))
        (headerSet ''Content-Type'' ''application/json'' (wHeader w)))"
    and "wBody (writeJSON code body w) = renderJSON 0 body @ [CHR 0x0A]"
    and "\<not> wPanic (writeJSON code body w)"
proof -
  let ?p = "renderJSON 0 body @ [CHR 0x0A]"
  let ?h = "headerSet ''Content-Length'' (itoa (int (length ?p))) (headerSet ''Content-Type'' ''application/json'' (wHeader w))"
  have eq: "writeJSON code body w =
      writeBody ?p (writeHeader code (setHeader ''Content-Length'' (itoa (int (length ?p)))
        (setHeader ''Content-Type'' ''application/json'' w)))"
    by (simp add: writeJSON_def marshalIndent_def Let_def)
  have "declaredLength ?h \<in> {Some (int (length ?p)), None}" by (rule declaredLength_itoa)
  then show "wStatus (writeJSON code body w) = Some (code,
      headerSet ''Content-Length'' (itoa (int (length (renderJSON 0 body) + 1)))
        (headerSet ''Content-Type'' ''application/json'' (wHeader w)))"
    "wBody (writeJSON code body w) = ?p" "\<not> wPanic (writeJSON code body w)"
    using assms unfolding eq by (auto simp: fresh_def writeBody_def ensureHeader_def Let_def)
qed

lemma writeJSON_response:
  assumes "fresh w" "finalCode code" "bodyAllowedForStatus code"
  shows "statusOf (writeJSON code body w) = Some code"
    "sentHeader (writeJSON code body w) ''Content-Type'' = Some ''application/json''"
    "sentHeader (writeJSON code body w) ''Content-Length'' = Some (itoa (int (length (wBody (writeJSON code body w)))))"
  using writeJSON_fresh [OF assms, of body] by (simp_all add: statusOf_def sentHeader_def)

subsection \<open>The echo\<close>

lemma readBody_cases:
  "readBody r =
     (if maxEchoBody < length (bodyData (reqBody r)) then Ok (take maxEchoBody (bodyData (reqBody r)), True)
      else case bodyError (reqBody r) of Some e \<Rightarrow> Err e | None \<Rightarrow> Ok (bodyData (reqBody r), False))"
  by (auto simp: readBody_def readLimited_def min_def split: option.splits)

text \<open>What a client gets out of the echo: the text as a JSON parser reads it, or the decoded base64.\<close>

definition recovered :: "echo \<Rightarrow> string option" where
  "recovered e =
     (if echoBodyBase64 e = [] then map_option fst (unquote (tl (quoteJSON (echoBody e))))
      else case decodeString StdEncoding (echoBodyBase64 e) of Ok bs \<Rightarrow> Some (string_of bs) | _ \<Rightarrow> None)"

lemma recovered_echoOf: "recovered (echoOf host s r body truncated) = Some body"
proof (cases "utf8Valid body")
  case True
  then show ?thesis
    using unquote_quoteJSON [of body "[]"] by (simp add: recovered_def echoOf_def Let_def)
next
  case False
  then have "body \<noteq> []" by (auto simp: utf8Valid.simps)
  with False show ?thesis
    using std.encodeToString_inject [of "bytes_of body" "[]"]
    by (auto simp: recovered_def echoOf_def Let_def std.decode_encode)
qed


definition exampleHost :: host where
  "exampleHost = \<lparr>tlsNamesOf = exampleNames, parseFloat = (\<lambda>s. map_option (\<lambda>i. Finite (rat_of_int i)) (atoi s)),
     secondsDuration = (\<lambda>f. case f of Finite q \<Rightarrow> \<lfloor>q * 1000000000\<rfloor> | _ \<Rightarrow> 0),
     parseTime = (\<lambda>s. if s = ''Thu, 01 Jan 2026 00:00:00 GMT'' then Some modified else None),
     randRead = (\<lambda>n. Ok (replicate n (CHR ''r''))), gzipped = id, deflated = id, digest8 = id,
     statusText = (\<lambda>_. ''status''), pemText = (\<lambda>_. ''pem''), quoteRunes = id, cancelled = (\<lambda>_. False),
     writeFails = (\<lambda>_. False)\<rparr>"

definition exampleServer :: server where
  "exampleServer = \<lparr>certs = exampleCertificates, serverHellos = newHelloCache, listeners = []\<rparr>"



text \<open>
  C17: the echo is bounded and says so.  Of a longer body, even one that later fails, exactly the
  first MiB is echoed and marked truncated; a body that fails before that gets 400 with the reason.
\<close>

theorem anything_bounded:
  "(1048576 < length (bodyData (reqBody r)) \<longrightarrow>
     (\<exists>e. anything host s r newWriter = writeJSON 200 (echoJSON e) newWriter \<and>
        recovered e = Some (take 1048576 (bodyData (reqBody r))) \<and> echoBodyLength e = 1048576 \<and> echoTruncated e)) \<and>
   (length (bodyData (reqBody r)) \<le> 1048576 \<and> bodyError (reqBody r) = Some err \<longrightarrow>
     statusOf (anything host s r newWriter) = Some 400 \<and>
     wBody (anything host s r newWriter) = ''cannot read request body: '' @ err @ [CHR 0x0A])"
proof (intro conjI impI)
  assume "1048576 < length (bodyData (reqBody r))"
  then have "anything host s r newWriter
      = writeJSON 200 (echoJSON (echoOf host s r (take 1048576 (bodyData (reqBody r))) True)) newWriter"
      "echoBodyLength (echoOf host s r (take 1048576 (bodyData (reqBody r))) True) = 1048576"
    by (simp_all add: anything_def readBody_cases maxEchoBody_def echoOf_def Let_def)
  moreover have "echoTruncated (echoOf host s r (take 1048576 (bodyData (reqBody r))) True)"
    by (simp add: echoOf_def Let_def)
  ultimately show "\<exists>e. anything host s r newWriter = writeJSON 200 (echoJSON e) newWriter \<and>
      recovered e = Some (take 1048576 (bodyData (reqBody r))) \<and> echoBodyLength e = 1048576 \<and> echoTruncated e"
    using recovered_echoOf by blast
qed (auto simp: anything_def readBody_cases maxEchoBody_def httpError_on_fresh bodyAllowedForStatus_def)

lemma anything_bounded_witness:
  "statusOf (anything exampleHost exampleServer
      (exampleRequest\<lparr>reqBody := \<lparr>bodyData = ''ab'', bodyError = Some ''unexpected EOF''\<rparr>\<rparr>) newWriter) = Some 400"
  using anything_bounded [of "exampleRequest\<lparr>reqBody := \<lparr>bodyData = ''ab'', bodyError = Some ''unexpected EOF''\<rparr>\<rparr>"
      exampleHost exampleServer "''unexpected EOF''"]
  by simp

text \<open>
  \<open>headerList\<close> is the sorted list of exactly the \<open>name: value\<close> lines of the request, repeated
  values included, whatever order the map is visited in.
\<close>

lemma headerList_canonical:
  "sorted (headerList r) \<and>
   (\<forall>h. mset h = mset (reqHeader r) \<longrightarrow> headerList (r\<lparr>reqHeader := h\<rparr>) = headerList r) \<and>
   count_list (headerList r) line
     = (\<Sum>(name, values) \<leftarrow> reqHeader r. count_list (map (\<lambda>v. name @ '': '' @ v) values) line)"
proof (intro conjI allI impI)
  let ?lines = "\<lambda>h. concat (map (\<lambda>(name, values). map (\<lambda>v. name @ '': '' @ v) values) h) :: string list"
  have lines: "mset (?lines h) = (\<Sum>(name, values) \<in># mset h. mset (map (\<lambda>v. name @ '': '' @ v) values))" for h
    by (induction h) auto
  show "sorted (headerList r)" by (simp add: headerList_def)
  show "headerList (r\<lparr>reqHeader := h\<rparr>) = headerList r" if "mset h = mset (reqHeader r)" for h
    unfolding headerList_def using lines [of h] lines [of "reqHeader r"] that
    by (intro properties_for_sort) simp_all
  have "count_list (?lines h) line = (\<Sum>(name, values) \<leftarrow> h. count_list (map (\<lambda>v. name @ '': '' @ v) values) line)" for h
    by (induction h) auto
  moreover have "count_list (sort xs) line = count_list xs line" for xs
    by (metis count_mset mset_sort)
  ultimately show "count_list (headerList r) line
     = (\<Sum>(name, values) \<leftarrow> reqHeader r. count_list (map (\<lambda>v. name @ '': '' @ v) values) line)"
    by (simp add: headerList_def)
qed

subsection \<open>Status codes\<close>

lemma statusOf_finish: "statusOf w = Some c \<Longrightarrow> statusOf (finish w) = Some c"
  by (auto simp: statusOf_def finish_def ensureHeader_def)

lemma bad_request_finish: "statusOf (finish (httpError msg 400 newWriter)) = Some 400"
  by (rule statusOf_finish) (simp add: httpError_on_fresh bodyAllowedForStatus_def)

lemma writeHeader_informational:
  "fresh w \<Longrightarrow> 100 \<le> code \<Longrightarrow> code \<le> 199 \<Longrightarrow> code \<noteq> 101 \<Longrightarrow>
   writeHeader code w = w\<lparr>wInformational := [(code, wHeader w)]\<rparr>"
  by (simp add: fresh_def writeHeader_def)

text \<open>
  C38: \<open>/status/{code}\<close>.  For a code from 200 to 599, and 101, that is the final status and the one
  thing sent as a status; for the other 1xx codes the code goes out as an informational response
  and the final status is 200; anything that is not a number from 100 to 599 is refused with 400.
\<close>

theorem status_sent:
  "case atoi (pathValue r ''code'') of
     None \<Rightarrow> statusOf (finish (status host r newWriter)) = Some 400
   | Some c \<Rightarrow>
       if 200 \<le> c \<and> c \<le> 599 \<or> c = 101 then
         statusOf (finish (status host r newWriter)) = Some c \<and> wInformational (status host r newWriter) = []
       else if 100 \<le> c \<and> c \<le> 199 then
         statusOf (finish (status host r newWriter)) = Some 200 \<and>
         map fst (wInformational (status host r newWriter)) = [c]
       else statusOf (finish (status host r newWriter)) = Some 400"
proof (cases "atoi (pathValue r ''code'')")
  case None
  then show ?thesis by (simp add: status_def bad_request_finish)
next
  case (Some c)
  define w where "w = (if queryGet (urlQuery r) ''location'' \<noteq> []
    then setHeader ''Location'' (queryGet (urlQuery r) ''location'') newWriter else newWriter)"
  have w: "fresh w" by (simp add: w_def)
  consider "200 \<le> c \<and> c \<le> 599 \<or> c = 101" | "100 \<le> c \<and> c \<le> 199 \<and> c \<noteq> 101" | "c < 100 \<or> 599 < c" by linarith
  then show ?thesis
  proof cases
    case 1
    then have "finalCode c" by (auto simp: finalCode_def)
    then have "wStatus (writeHeader c w) = Some (c, wHeader w)" "wInformational (writeHeader c w) = []"
      using w by (simp_all add: fresh_def)
    moreover have "wInformational (writeBody d v) = wInformational v" if "wStatus v \<noteq> None" for d v
      using that by (auto simp: writeBody_def ensureHeader_def Let_def split: option.splits)
    moreover have "status host r newWriter = (if c \<noteq> 204 \<and> c \<noteq> 304 \<and> reqMethod r \<noteq> ''HEAD''
        then writeBody (itoa c @ '' '' @ statusText host c @ [CHR 0x0A]) (writeHeader c w) else writeHeader c w)"
      using 1 Some by (auto simp: status_def Let_def w_def)
    ultimately show ?thesis
      using 1 Some writeBody.status_committed
      by (auto simp: finish_def ensureHeader_def statusOf_def)
  next
    case 2
    then have "writeHeader c w = w\<lparr>wInformational := [(c, wHeader w)]\<rparr>"
      using w by (simp add: writeHeader_informational)
    moreover from 2 have "status host r newWriter = (if reqMethod r \<noteq> ''HEAD''
        then writeBody (itoa c @ '' '' @ statusText host c @ [CHR 0x0A]) (writeHeader c w) else writeHeader c w)"
      using Some by (auto simp: status_def Let_def w_def)
    ultimately show ?thesis
      using 2 Some w
      by (auto simp: fresh_def finish_def ensureHeader_def statusOf_def writeBody_def bodyAllowedForStatus_def Let_def
          split: option.splits)
  next
    case 3
    then show ?thesis using Some by (auto simp: status_def bad_request_finish)
  qed
qed

subsection \<open>Redirects\<close>

lemma formatNat_no_slash: "CHR ''/'' \<notin> set (formatNat n)"
  using list_all_isDigit_formatNat [of n] by (auto simp: list_all_iff isDigit_def)

lemma beforeLastSlash_append: "CHR ''/'' \<notin> set s \<Longrightarrow> beforeLastSlash (p @ ''/'' @ s) = Ok p"
  by (simp add: beforeLastSlash_def dropWhile_append)

lemma trimSlashes_name: "CHR ''/'' \<notin> set name \<Longrightarrow> trimSlashes (CHR ''/'' # name) = name"
proof -
  assume a: "CHR ''/'' \<notin> set name"
  have "dropWhile (\<lambda>c. c = CHR ''/'') s = s" if "CHR ''/'' \<notin> set s" for s
    using that by (cases s) auto
  with a show ?thesis by (simp add: trimSlashes_def)
qed

lemma redirect_step:
  assumes "urlPath r = ''/'' @ name @ ''/'' @ formatNat n" "pathValue r ''count'' = formatNat n"
    and "CHR ''/'' \<notin> set name" "1 \<le> n" "n \<le> 100"
  shows "redirect absolute r newWriter =
    writeHeader 302 (setHeader ''Location''
      ((if absolute then baseURL r else []) @
       (if n = 1 then ''/anything'' else ''/'' @ name @ ''/'' @ formatNat (n - 1))) newWriter)"
proof -
  have "atoi (formatNat n) = Some (int n)" using assms(5) by (intro atoi_formatNat) simp
  moreover have "beforeLastSlash (urlPath r) = Ok (CHR ''/'' # name)"
    using beforeLastSlash_append [OF formatNat_no_slash, of "CHR ''/'' # name" n] assms(1) by simp
  moreover have "itoa (int n - 1) = formatNat (n - 1)"
    using assms(4) by (simp add: itoa_def nat_diff_distrib)
  ultimately show ?thesis
    using assms(2-5) by (auto simp: redirect_def trimSlashes_name Let_def)
qed

lemma redirect_response:
  "statusOf (writeHeader 302 (setHeader ''Location'' target newWriter)) = Some 302"
  "sentHeader (writeHeader 302 (setHeader ''Location'' target newWriter)) ''Location'' = Some target"
  by (simp_all add: statusOf_def sentHeader_def)

subsection \<open>Bodies\<close>

text \<open>
  \<open>/bytes/{n}\<close> for 0 to 10 MiB answers 200 with exactly \<open>n\<close> bytes, the ones the random source
  gave, and declares that length; any other \<open>n\<close> is refused with 400.
\<close>

lemma bytes_exact:
  assumes "\<And>n b. randRead host n = Ok b \<Longrightarrow> length b = n"
    and "atoi (pathValue r ''count'') = Some c" "randRead host (nat c) = Ok body"
  shows "if 0 \<le> c \<and> c \<le> 10485760
    then statusOf (bytes host r newWriter) = Some 200 \<and> wBody (bytes host r newWriter) = body \<and>
         length (wBody (bytes host r newWriter)) = nat c \<and>
         sentHeader (bytes host r newWriter) ''Content-Length'' = Some (itoa c)
    else statusOf (bytes host r newWriter) = Some 400"
proof (cases "0 \<le> c \<and> c \<le> 10485760")
  case True
  let ?w = "setHeader ''Content-Length'' (itoa c) (setHeader ''Content-Type'' ''application/octet-stream'' newWriter)"
  have len: "length body = nat c" using assms(1,3) by blast
  have "declaredLength (wHeader ?w) \<in> {Some c, None}"
    using True declaredLength_itoa [of "nat c" "headerSet ''Content-Type'' ''application/octet-stream'' []"] by simp
  then have "wStatus (writeBody body ?w) = Some (200, wHeader ?w)" "wBody (writeBody body ?w) = body"
    using True len writeBody_fresh [of ?w body] by auto
  with True assms len show ?thesis by (simp add: bytes_def statusOf_def sentHeader_def Let_def)
next
  case False
  then show ?thesis
    using assms(2) by (auto simp: bytes_def httpError_on_fresh bodyAllowedForStatus_def)
qed

text \<open>Where the flushes fall when each piece is flushed after it is written.\<close>

fun flushPoints :: "nat \<Rightarrow> string list \<Rightarrow> nat list" where
  "flushPoints p [] = []"
| "flushPoints p (l # ls) = (p + length l) # flushPoints (p + length l) ls"

text \<open>A writer whose status is, or will be, 200 with headers \<open>h\<close>.\<close>

definition sending :: "header \<Rightarrow> writer \<Rightarrow> bool" where
  "sending h w \<longleftrightarrow> wStatus (ensureHeader w) = Some (200, h)"

lemma sending_fresh: "fresh w \<Longrightarrow> sending (wHeader w) w"
  by (simp add: sending_def ensureHeader_def fresh_def)

lemma ensureHeader_fields [simp]:
  "wBody (ensureHeader w) = wBody w" "wFlushes (ensureHeader w) = wFlushes w"
  "wWritten (ensureHeader w) = wWritten w" "wWaits (ensureHeader w) = wWaits w" "wPanic (ensureHeader w) = wPanic w"
  by (simp_all add: ensureHeader_def writeHeader_def)

lemma piece_written:
  assumes "sending h w" "\<forall>n. declaredLength h = Some n \<longrightarrow> int (wWritten w + length d) \<le> n"
  shows "wStatus (flush (writeBody d w)) = Some (200, h)" "wBody (flush (writeBody d w)) = wBody w @ d"
    "wWritten (flush (writeBody d w)) = wWritten w + length d"
    "wFlushes (flush (writeBody d w)) = wFlushes w @ [length (wBody w) + length d]"
    "wWaits (flush (writeBody d w)) = wWaits w" "wPanic (flush (writeBody d w)) = wPanic w"
proof -
  define v where "v = ensureHeader w"
  have v: "wStatus v = Some (200, h)" "wBody v = wBody w" "wFlushes v = wFlushes w" "wWritten v = wWritten w"
      "wWaits v = wWaits w" "wPanic v = wPanic w"
    using assms(1) by (simp_all add: v_def sending_def)
  have "writeBody d w = (if d = [] then v else v\<lparr>wWritten := wWritten w + length d, wBody := wBody w @ d\<rparr>)"
    using assms(2) v by (auto simp: writeBody_def v_def [symmetric] bodyAllowedForStatus_def Let_def split: option.splits)
  with v show "wStatus (flush (writeBody d w)) = Some (200, h)" "wBody (flush (writeBody d w)) = wBody w @ d"
    "wWritten (flush (writeBody d w)) = wWritten w + length d"
    "wFlushes (flush (writeBody d w)) = wFlushes w @ [length (wBody w) + length d]"
    "wWaits (flush (writeBody d w)) = wWaits w" "wPanic (flush (writeBody d w)) = wPanic w"
    by (simp_all add: flush_def ensureHeader_def Let_def)
qed

lemma sending_committed: "wStatus w = Some (200, h) \<Longrightarrow> sending h w"
  by (simp add: sending_def ensureHeader_def)

lemma pieces_written:
  assumes "sending h w" "declaredLength h = None"
  shows "sending h (foldl (\<lambda>w l. flush (writeBody l w)) w ls) \<and>
    wBody (foldl (\<lambda>w l. flush (writeBody l w)) w ls) = wBody w @ concat ls \<and>
    wFlushes (foldl (\<lambda>w l. flush (writeBody l w)) w ls) = wFlushes w @ flushPoints (length (wBody w)) ls"
  using assms
proof (induction ls arbitrary: w)
  case (Cons l ls)
  note p = piece_written [OF Cons.prems(1), of l]
  from p(1) Cons.prems have "sending h (flush (writeBody l w))" by (simp add: sending_committed)
  from Cons.IH [OF this] p Cons.prems(2) show ?case by simp
qed simp

text \<open>
  \<open>/stream/{n}\<close> for 1 to 1000 answers 200 with \<open>n\<close> numbered lines and no declared length, and
  flushes after each line, so that every line can be read before the next is written.
\<close>

lemma stream_lines:
  assumes "atoi (pathValue r ''lines'') = Some (int n)" "1 \<le> n" "n \<le> 1000"
  shows "statusOf (stream host r newWriter) = Some 200 \<and>
    wBody (stream host r newWriter) = concat (map (streamLine host r) [0..<n]) \<and>
    wFlushes (stream host r newWriter) = flushPoints 0 (map (streamLine host r) [0..<n]) \<and>
    sentHeader (stream host r newWriter) ''Content-Length'' = None"
proof -
  let ?w = "setHeader ''Content-Type'' ''application/json'' newWriter"
  let ?ls = "map (streamLine host r) [0..<n]"
  let ?f = "foldl (\<lambda>w l. flush (writeBody l w)) ?w ?ls"
  have eq: "stream host r newWriter = ?f"
    using assms by (simp add: stream_def foldl_map)
  have len: "declaredLength (wHeader ?w) = None" by (simp add: declaredLength_def)
  have "sending (wHeader ?w) ?w" by (rule sending_fresh) simp
  note pieces = pieces_written [OF this len, of ?ls]
  obtain m where "n = Suc m" using assms(2) by (cases n) auto
  then have "?f = flush (writeBody (streamLine host r m) (foldl (\<lambda>w l. flush (writeBody l w)) ?w (map (streamLine host r) [0..<m])))"
    by simp
  moreover have "sending (wHeader ?w) (foldl (\<lambda>w l. flush (writeBody l w)) ?w (map (streamLine host r) [0..<m]))"
    using pieces_written [OF \<open>sending (wHeader ?w) ?w\<close> len] by blast
  ultimately have "wStatus ?f = Some (200, wHeader ?w)"
    using piece_written(1) len by simp
  with pieces eq show ?thesis by (simp add: statusOf_def sentHeader_def)
qed

lemma dripLoop_run:
  assumes "sending h w" "\<forall>m. declaredLength h = Some m \<longrightarrow> int (wWritten w + n) \<le> m"
    and "\<forall>k. \<not> cancelled host k" "\<forall>k. \<not> writeFails host k"
  shows "(wStatus w \<noteq> None \<or> 0 < n \<longrightarrow> wStatus (dripLoop host pause n w) = Some (200, h)) \<and>
    wBody (dripLoop host pause n w) = wBody w @ replicate n (CHR ''*'') \<and>
    wFlushes (dripLoop host pause n w) = wFlushes w @ map (\<lambda>k. length (wBody w) + k) [1..<Suc n] \<and>
    wWaits (dripLoop host pause n w) = wWaits w @ replicate n pause"
  using assms
proof (induction n arbitrary: w)
  case (Suc n)
  let ?v = "flush (writeBody ''*'' w)"
  let ?u = "?v\<lparr>wWaits := wWaits ?v @ [pause]\<rparr>"
  have "\<forall>m. declaredLength h = Some m \<longrightarrow> int (wWritten w + length ''*'') \<le> m" using Suc.prems(2) by auto
  note p = piece_written [OF Suc.prems(1) this]
  have "sending h ?u" "wStatus ?u \<noteq> None" using p(1) by (simp_all add: sending_def ensureHeader_def)
  moreover have "\<forall>m. declaredLength h = Some m \<longrightarrow> int (wWritten ?u + n) \<le> m" using p(3) Suc.prems(2) by auto
  moreover have "dripLoop host pause (Suc n) w = dripLoop host pause n ?u"
    using Suc.prems(3,4) by (simp add: waitFor_def)
  moreover have "map (\<lambda>k. length (wBody w) + k) [1..<Suc (Suc n)]
      = (length (wBody w) + 1) # map (\<lambda>k. Suc (length (wBody w)) + k) [1..<Suc n]"
    by (simp add: upt_conv_Cons map_Suc_upt [symmetric] del: upt_Suc)
  ultimately show ?case
    using Suc.IH [of ?u] Suc.prems(3,4) p by (simp del: upt_Suc)
qed (auto simp: sending_def ensureHeader_def split: if_splits)

text \<open>
  Query parameters are bounded.  \<open>queryInt\<close> always gives a number between its limits (its
  fallback being one), and exactly the one asked for when that lies between them.
\<close>

lemma queryInt_bounded:
  assumes "low \<le> fallback" "fallback \<le> high"
  shows "low \<le> queryInt q name fallback low high \<and> queryInt q name fallback low high \<le> high \<and>
    (\<forall>v vs n. map_of q name = Some (v # vs) \<and> atoi v = Some n \<and> low \<le> n \<and> n \<le> high \<longrightarrow>
       queryInt q name fallback low high = n)"
  using assms by (auto simp: queryInt_unfold queryValues_def split: list.splits option.splits)

lemma queryInt_range: "low \<le> fallback \<Longrightarrow> fallback \<le> high \<Longrightarrow>
    low \<le> queryInt q name fallback low high \<and> queryInt q name fallback low high \<le> high"
  by (auto simp: queryInt_unfold queryValues_def split: list.splits option.splits)

lemma pause_sum: "0 \<le> d \<Longrightarrow> int n * (d sdiv max (int n) 1) \<le> d" for d :: int
proof (cases n)
  case (Suc m)
  assume "0 \<le> d"
  then have "d sdiv int n = d div int n"
    by (simp add: signed_divide_int_def sgn_if Suc)
  moreover have "int n * (d div int n) \<le> d"
  proof -
    have "0 \<le> d mod int n" by (simp add: Suc)
    then show ?thesis by (simp add: minus_mod_eq_mult_div [symmetric])
  qed
  ultimately have "int n * (d sdiv int n) \<le> d" by (simp only:)
  then show ?thesis by (simp add: Suc)
qed simp

text \<open>
  C35: \<open>/drip\<close> on a client that stays sends exactly the number of bytes it declares, one at a time
  with a flush after each, and the pauses between them add up to no more than the duration asked
  for.
\<close>

theorem drip_exact:
  assumes "\<forall>k. \<not> cancelled host k" "\<forall>k. \<not> writeFails host k"
    and "n = nat (queryInt (urlQuery r) ''bytes'' 10 1 1048576)"
    and "d = queryDuration host (urlQuery r) ''duration'' 1000000000" "0 \<le> d"
  shows "1 \<le> n \<and> n \<le> 1048576 \<and> statusOf (drip host r newWriter) = Some 200 \<and>
    wBody (drip host r newWriter) = replicate n (CHR ''*'') \<and>
    sentHeader (drip host r newWriter) ''Content-Length'' = Some (itoa (int n)) \<and>
    wFlushes (drip host r newWriter) = [1..<Suc n] \<and>
    (\<exists>pause initial. wWaits (drip host r newWriter) = initial @ replicate n pause \<and> length initial \<le> 1 \<and> int n * pause \<le> d)"
proof -
  have n: "1 \<le> n" "n \<le> 1048576" "queryInt (urlQuery r) ''bytes'' 10 1 1048576 = int n"
    using queryInt_range [of 1 10 1048576 "urlQuery r" "''bytes''"] assms(3) by auto
  have body: "statusOf (dripBody host (int n) d w) = Some 200 \<and>
      wBody (dripBody host (int n) d w) = replicate n (CHR ''*'') \<and>
      sentHeader (dripBody host (int n) d w) ''Content-Length'' = Some (itoa (int n)) \<and>
      wFlushes (dripBody host (int n) d w) = [1..<Suc n] \<and>
      wWaits (dripBody host (int n) d w) = wWaits w @ replicate n (d sdiv max (int n) 1)"
    if "fresh w" for w
  proof -
    let ?v = "setHeader ''Content-Length'' (itoa (int n)) (setHeader ''Content-Type'' ''application/octet-stream'' w)"
    have v: "fresh ?v" using that by simp
    have "\<forall>m. declaredLength (wHeader ?v) = Some m \<longrightarrow> int (wWritten ?v + n) \<le> m"
      using declaredLength_itoa [of n "headerSet ''Content-Type'' ''application/octet-stream'' (wHeader w)"] v
      by (auto simp: fresh_def)
    note run = dripLoop_run [OF sending_fresh [OF v] this assms(1,2), of "d sdiv max (int n) 1"]
    have "wStatus (dripBody host (int n) d w) = Some (200, wHeader ?v)"
      using run n(1) by (simp add: dripBody_def Let_def)
    then have "statusOf (dripBody host (int n) d w) = Some 200"
        "sentHeader (dripBody host (int n) d w) ''Content-Length'' = Some (itoa (int n))"
      by (simp_all add: statusOf_def sentHeader_def)
    moreover have "map ((+) 0) xs = xs" for xs :: "nat list" by (simp add: map_idI)
    ultimately show ?thesis using run v by (simp add: dripBody_def Let_def fresh_def del: upt_Suc)
  qed
  define initial where "initial = queryDuration host (urlQuery r) ''delay'' 0"
  define w where "w = (if 0 < initial then newWriter\<lparr>wWaits := [initial]\<rparr> else newWriter)"
  have w: "fresh w" "length (wWaits w) \<le> 1" by (simp_all add: w_def fresh_def)
  have "drip host r newWriter = dripBody host (int n) d w"
    using assms(1,4) n(3) by (simp add: drip_def w_def initial_def waitFor_def Let_def)
  with body [OF w(1)] n(1,2) w(2) pause_sum [OF assms(5), of n] show ?thesis by auto
qed

lemma drip_exact_witness:
  "wBody (drip exampleHost (exampleRequest\<lparr>urlQuery := [(''bytes'', [''3''])]\<rparr>) newWriter) = ''***'' \<and>
   wFlushes (drip exampleHost (exampleRequest\<lparr>urlQuery := [(''bytes'', [''3''])]\<rparr>) newWriter) = [1, 2, 3]"
proof -
  have "atoi ''3'' = Some 3" by (simp add: strconv_simps)
  then have "queryInt [(''bytes'', [''3''])] ''bytes'' 10 1 1048576 = 3" by (simp add: queryInt_unfold queryValues_def)
  then show ?thesis
    using drip_exact [of exampleHost 3 "exampleRequest\<lparr>urlQuery := [(''bytes'', [''3''])]\<rparr>" 1000000000]
    by (simp add: exampleHost_def queryDuration_absent queryValues_def upt_rec numeral_3_eq_3)
qed

text \<open>
  C40: a NaN is in no range.  Neither comparison of the guard holds for it, so \<open>/delay/nan\<close> is not
  refused: a seconds value that is not between 0 and 60 passes the check that says so.
\<close>

theorem delay_accepts_nan:
  assumes "parseFloat host (pathValue r ''seconds'') = Some NaN" "\<not> cancelled host 0"
  shows "delay host s r newWriter = anything host s r (newWriter\<lparr>wWaits := [secondsDuration host NaN]\<rparr>)"
  using assms by (simp add: delay_def waitFor_def)

lemma delay_accepts_nan_witness:
  "delay (exampleHost\<lparr>parseFloat := (\<lambda>_. Some NaN)\<rparr>) exampleServer (exampleRequest\<lparr>pathValues := [(''seconds'', ''nan'')]\<rparr>) newWriter
   = anything (exampleHost\<lparr>parseFloat := (\<lambda>_. Some NaN)\<rparr>) exampleServer (exampleRequest\<lparr>pathValues := [(''seconds'', ''nan'')]\<rparr>)
       (newWriter\<lparr>wWaits := [0]\<rparr>)"
  using delay_accepts_nan [of "exampleHost\<lparr>parseFloat := (\<lambda>_. Some NaN)\<rparr>"
      "exampleRequest\<lparr>pathValues := [(''seconds'', ''nan'')]\<rparr>" exampleServer]
  by (simp add: exampleHost_def)

subsection \<open>Credentials\<close>

lemma basicCredentials_client:
  assumes "headerGet (reqHeader r) ''Authorization'' =
      ''Basic '' @ encodeToString StdEncoding (bytes_of (user @ '':'' @ password))"
    and "CHR '':'' \<notin> set user"
  shows "basicCredentials r = Some (user, password)"
proof -
  have "map lowerChar ''Basic '' = ''basic ''"
    by (simp add: lowerChar_def isUpper_def) (simp add: char_of_def bit_0)
  moreover have "takeWhile (\<lambda>c. c \<noteq> CHR '':'') (user @ CHR '':'' # password) = user"
    "dropWhile (\<lambda>c. c \<noteq> CHR '':'') (user @ CHR '':'' # password) = CHR '':'' # password"
    using assms(2) by (auto simp: takeWhile_append dropWhile_append)
  ultimately show ?thesis
    using assms(1) std.decode_encode [of "bytes_of (user @ '':'' @ password)"]
    by (simp add: basicCredentials_def Let_def flip: bytes_of_append)
qed

text \<open>
  C36: \<open>/basic-auth/{user}/{password}\<close> answers 200 exactly when the request carries those
  credentials, and 401 with a challenge otherwise; and the header a client builds for a user name
  without a colon carries exactly the credentials it was built from.
\<close>

theorem basicAuth_gate:
  "(statusOf (basicAuth r newWriter) = Some 200 \<longleftrightarrow>
      basicCredentials r = Some (pathValue r ''user'', pathValue r ''password'')) \<and>
   (statusOf (basicAuth r newWriter) \<noteq> Some 200 \<longrightarrow>
      statusOf (basicAuth r newWriter) = Some 401 \<and>
      sentHeader (basicAuth r newWriter) ''WWW-Authenticate'' \<noteq> None \<and> wBody (basicAuth r newWriter) = []) \<and>
   (\<forall>user password. headerGet (reqHeader r) ''Authorization''
        = ''Basic '' @ encodeToString StdEncoding (bytes_of (user @ '':'' @ password)) \<and> CHR '':'' \<notin> set user \<longrightarrow>
      basicCredentials r = Some (user, password))"
proof -
  have ok: "statusOf (writeJSON 200 j newWriter) = Some 200" for j
    by (rule writeJSON_response(1)) (simp_all add: bodyAllowedForStatus_def)
  define challenge where "challenge = writeHeader 401
    (setHeader ''WWW-Authenticate'' (''Basic realm='' @ [CHR 0x22] @ ''okhttp-testbed'' @ [CHR 0x22]) newWriter)"
  have no: "statusOf challenge = Some 401" "sentHeader challenge ''WWW-Authenticate'' \<noteq> None" "wBody challenge = []"
    by (simp_all add: challenge_def statusOf_def sentHeader_def)
  have eq: "basicAuth r newWriter =
      (if basicCredentials r = Some (pathValue r ''user'', pathValue r ''password'')
       then writeJSON 200 (jsonMap [(''authenticated'', JBool True), (''user'', JString (pathValue r ''user''))]) newWriter
       else challenge)"
    unfolding basicAuth_def challenge_def [symmetric] Let_def
    by (cases "basicCredentials r") (auto split: if_splits)
  show ?thesis
    unfolding eq using ok no basicCredentials_client [of r] by (simp del: append_Cons append.simps)
qed

definition authRequest :: req where
  "authRequest = exampleRequest\<lparr>pathValues := [(''user'', ''al''), (''password'', ''s:t'')],
     reqHeader := [(''Authorization'', [''Basic '' @ encodeToString StdEncoding (bytes_of (''al'' @ '':'' @ ''s:t''))])]\<rparr>"

lemma basicAuth_gate_witness: "statusOf (basicAuth authRequest newWriter) = Some 200"
proof -
  have "headerGet (reqHeader authRequest) ''Authorization''
      = ''Basic '' @ encodeToString StdEncoding (bytes_of (''al'' @ '':'' @ ''s:t''))"
    unfolding authRequest_def headerGet_def headerValues_def by simp
  moreover have "CHR '':'' \<notin> set ''al''" by simp
  ultimately have "basicCredentials authRequest = Some (''al'', ''s:t'')"
    using basicAuth_gate [of authRequest] by blast
  moreover have "pathValue authRequest ''user'' = ''al''" "pathValue authRequest ''password'' = ''s:t''"
    by (simp_all add: authRequest_def pathValue_def)
  ultimately show ?thesis using basicAuth_gate [of authRequest] by simp
qed

subsection \<open>Conditional requests\<close>

text \<open>
  C37: \<open>/cache\<close> always sends its validators; it answers 304, with no body, exactly to a request that
  repeats the entity tag or names a time not before the modification time, and 200 otherwise.
\<close>

theorem cache_revalidates:
  "sentHeader (cache host r newWriter) ''ETag'' = Some etag \<and>
   sentHeader (cache host r newWriter) ''Last-Modified'' = Some ''Thu, 01 Jan 2026 00:00:00 GMT'' \<and>
   (statusOf (cache host r newWriter) = Some 304 \<longleftrightarrow>
      headerGet (reqHeader r) ''If-None-Match'' = etag \<or>
      (\<exists>t. parseTime host (headerGet (reqHeader r) ''If-Modified-Since'') = Some t \<and> modified \<le> t)) \<and>
   (if statusOf (cache host r newWriter) = Some 304 then wBody (cache host r newWriter) = []
    else statusOf (cache host r newWriter) = Some 200)"
proof -
  let ?w = "setHeader ''Last-Modified'' ''Thu, 01 Jan 2026 00:00:00 GMT'' (setHeader ''ETag'' etag newWriter)"
  let ?cond = "headerGet (reqHeader r) ''If-None-Match'' = etag \<or>
      (\<exists>t. parseTime host (headerGet (reqHeader r) ''If-Modified-Since'') = Some t \<and> modified \<le> t)"
  let ?j = "jsonMap [(''cached'', JBool True), (''protocol'', JString (reqProto r))]"
  have eq: "cache host r newWriter = (if ?cond then writeHeader 304 ?w else writeJSON 200 ?j ?w)"
    by (auto simp: cache_def Let_def split: option.splits)
  have "wStatus (writeJSON 200 ?j ?w) = Some (200, headerSet ''Content-Length'' (itoa (int (length (renderJSON 0 ?j) + 1)))
        (headerSet ''Content-Type'' ''application/json'' (wHeader ?w)))"
    by (rule writeJSON_fresh(1)) (simp_all add: bodyAllowedForStatus_def)
  then show ?thesis
    unfolding eq by (cases ?cond) (simp_all add: statusOf_def sentHeader_def)
qed

lemma cache_revalidates_witness:
  "statusOf (cache exampleHost (exampleRequest\<lparr>reqHeader := [(''If-None-Match'', [etag])]\<rparr>) newWriter) = Some 304 \<and>
   wBody (cache exampleHost (exampleRequest\<lparr>reqHeader := [(''If-None-Match'', [etag])]\<rparr>) newWriter) = []"
proof -
  let ?r = "exampleRequest\<lparr>reqHeader := [(''If-None-Match'', [etag])]\<rparr>"
  have "headerGet (reqHeader ?r) ''If-None-Match'' = etag"
    unfolding headerGet_def headerValues_def by simp
  with cache_revalidates [of exampleHost ?r] show ?thesis by (auto split: if_splits)
qed

end
