(* ===== verification/Hostile.thy ===== *)
theory Hostile
  imports Handler_Facts
begin

text \<open>
  \<open>hostile.go\<close>: the endpoints that answer with broken or awkward responses, the hijacking wrapper,
  and the raw listener.  What a hostile endpoint does is a list of actions on its connection.
  The specification is a reader of HTTP/1.1 responses in the strict sense of RFC 9112; the theorems
  say, for every value of the query parameters, which fault each endpoint shows to such a reader.
\<close>

subsection \<open>The endpoints\<close>

datatype connAction = Send string | Pause int | SetLinger0 | CloseWrite | CloseConn | Panics

text \<open>An expression that may panic in the middle of a handler: what follows it is never done.\<close>

definition orPanic :: "(string, connAction list) result \<Rightarrow> connAction list" where
  "orPanic m = (case m of Ok as \<Rightarrow> as | _ \<Rightarrow> [Panics])"

lemma orPanic_Ok [simp]: "orPanic (Ok as) = as"
  by (simp add: orPanic_def)

datatype hostile =
    NoResponse
  | Reset
  | TruncatedBody
  | TruncatedChunks
  | InvalidChunkSize
  | InvalidStatusLine
  | DuplicateContentLength
  | ContentLengthAndChunked
  | SlowHeaders
  | HugeHeader
  | InformationalStorm
  | HalfClose

definition crlf :: string where
  "crlf = [CHR 0x0D, CHR 0x0A]"

text \<open>The loop of \<open>slow-headers\<close>: one byte, one pause, until the client is gone.\<close>

fun slowLoop :: "(nat \<Rightarrow> bool) \<Rightarrow> int \<Rightarrow> nat \<Rightarrow> string \<Rightarrow> connAction list" where
  "slowLoop fails pause n [] = []"
| "slowLoop fails pause n (b # bs) =
     (if fails n then [] else Send [b] # Pause pause # slowLoop fails pause (Suc n) bs)"

definition hostileWrite :: "host \<Rightarrow> bool \<Rightarrow> hostile \<Rightarrow> header \<Rightarrow> connAction list" where
  "hostileWrite host isTCP endpoint query =
     (case endpoint of
        NoResponse \<Rightarrow> []
      | Reset \<Rightarrow>
          orPanic (bindR (queryIntR query ''after'' 8 0 65536) (\<lambda>after.
            Ok ([Send (''HTTP/1.1 200 OK'' @ crlf @ ''Content-Type: text/plain'' @ crlf
                       @ ''Content-Length: 1024'' @ crlf @ crlf)]
                @ orPanic (bindR (repeatString ''x'' after) (\<lambda>body.
                    Ok ([Send body] @ (if isTCP then [SetLinger0] else [])))))))
      | TruncatedBody \<Rightarrow>
          orPanic (bindR (queryIntR query ''promised'' 1024 1 1048576) (\<lambda>promised.
            bindR (queryIntR query ''sent'' 16 0 1048576) (\<lambda>sent.
            Ok ([Send (''HTTP/1.1 200 OK'' @ crlf @ ''Content-Type: text/plain'' @ crlf
                       @ ''Content-Length: '' @ itoa promised @ crlf @ crlf)]
                @ orPanic (bindR (repeatString ''x'' (min sent promised)) (\<lambda>body. Ok [Send body]))))))
      | TruncatedChunks \<Rightarrow>
          [Send (''HTTP/1.1 200 OK'' @ crlf @ ''Transfer-Encoding: chunked'' @ crlf @ crlf),
           Send (''8'' @ crlf @ ''xxxxxxxx'' @ crlf)]
      | InvalidChunkSize \<Rightarrow>
          [Send (''HTTP/1.1 200 OK'' @ crlf @ ''Transfer-Encoding: chunked'' @ crlf @ crlf),
           Send (''zz'' @ crlf @ ''xxxxxxxx'' @ crlf @ ''0'' @ crlf @ crlf)]
      | InvalidStatusLine \<Rightarrow>
          [Send (''HTTP/1.1 2000 Not A Status'' @ crlf @ ''Content-Length: 0'' @ crlf @ crlf)]
      | DuplicateContentLength \<Rightarrow>
          [Send (''HTTP/1.1 200 OK'' @ crlf @ ''Content-Length: 4'' @ crlf @ ''Content-Length: 8'' @ crlf @ crlf
                 @ ''xxxx'')]
      | ContentLengthAndChunked \<Rightarrow>
          [Send (''HTTP/1.1 200 OK'' @ crlf @ ''Content-Length: 8'' @ crlf @ ''Transfer-Encoding: chunked'' @ crlf @ crlf
                 @ ''4'' @ crlf @ ''xxxx'' @ crlf @ ''0'' @ crlf @ crlf)]
      | SlowHeaders \<Rightarrow>
          orPanic (bindR (queryDurationR host query ''delay'' 100000000) (\<lambda>pause.
            Ok (slowLoop (writeFails host) pause 0
              (''HTTP/1.1 200 OK'' @ crlf @ ''Content-Type: text/plain'' @ crlf @ ''Content-Length: 2'' @ crlf @ crlf @ ''ok''))))
      | HugeHeader \<Rightarrow>
          orPanic (bindR (queryIntR query ''size'' 65536 1 1048576) (\<lambda>size.
            bindR (repeatString ''x'' size) (\<lambda>padding.
            Ok [Send (''HTTP/1.1 200 OK'' @ crlf @ ''Content-Length: 0'' @ crlf
                      @ ''X-Testbed-Huge: '' @ padding @ crlf @ crlf)])))
      | InformationalStorm \<Rightarrow>
          orPanic (bindR (queryIntR query ''count'' 5 1 100) (\<lambda>count.
            Ok (replicate (nat count) (Send (''HTTP/1.1 100 Continue'' @ crlf @ crlf))
                @ [Send (''HTTP/1.1 200 OK'' @ crlf @ ''Content-Length: 2'' @ crlf @ crlf @ ''ok'')])))
      | HalfClose \<Rightarrow>
          [Send (''HTTP/1.1 200 OK'' @ crlf @ ''Content-Length: 2'' @ crlf @ crlf @ ''ok'')]
          @ (if isTCP then [CloseWrite] else []) @ [Pause 100000000])"

text \<open>
  \<open>hijacked\<close>: a writer that cannot be hijacked (HTTP/2) gets 501, a failing hijack 500; otherwise
  the connection belongs to the endpoint, and is closed after it.
\<close>

datatype hijack = NotHijacker | HijackFails string | Conn bool

datatype outcome = Responded writer | Hijacked "connAction list"

definition hijacked :: "hijack \<Rightarrow> (bool \<Rightarrow> 'tls request \<Rightarrow> connAction list) \<Rightarrow> 'tls request \<Rightarrow> writer \<Rightarrow> outcome" where
  "hijacked hj write r w =
     (case hj of
        NotHijacker \<Rightarrow>
          Responded (httpError
            (''this endpoint writes raw bytes and needs the connection to itself, which '' @ reqProto r
             @ '' does not allow; use the plain port or negotiate http/1.1'') 501 w)
      | HijackFails e \<Rightarrow> Responded (httpError e 500 w)
      | Conn isTCP \<Rightarrow> Hijacked (write isTCP r @ [CloseConn]))"

text \<open>The bytes written to the connection.\<close>

fun sentBytes :: "connAction list \<Rightarrow> string" where
  "sentBytes [] = []"
| "sentBytes (Send s # as) = s @ sentBytes as"
| "sentBytes (a # as) = sentBytes as"

lemma sentBytes_append [simp]: "sentBytes (as @ bs) = sentBytes as @ sentBytes bs"
  by (induction as rule: sentBytes.induct) auto

lemma sentBytes_replicate [simp]: "sentBytes (replicate n (Send s)) = concat (replicate n s)"
  by (induction n) auto

lemma sentBytes_slowLoop: "\<forall>k. \<not> fails k \<Longrightarrow> sentBytes (slowLoop fails pause n s) = s"
  by (induction s arbitrary: n) auto

subsection \<open>The raw listener\<close>

text \<open>
  The loop of \<open>echoRequestHead\<close> over the bytes that arrive: lines up to and including the blank one,
  or everything when the stream ends first.  The second component says whether the blank line came.
\<close>

definition lineEnd :: "string \<Rightarrow> string \<times> string" where
  "lineEnd s =
     (let l = takeWhile (\<lambda>c. c \<noteq> CHR 0x0A) s; r = dropWhile (\<lambda>c. c \<noteq> CHR 0x0A) s
      in case r of [] \<Rightarrow> (l, []) | c # cs \<Rightarrow> (l @ [c], cs))"

lemma lineEnd_shorter: "CHR 0x0A \<in> set s \<Longrightarrow> length (snd (lineEnd s)) < length s"
proof -
  assume "CHR 0x0A \<in> set s"
  then have "dropWhile (\<lambda>c. c \<noteq> CHR 0x0A) s \<noteq> []" by auto
  then show ?thesis
    using length_dropWhile_le [of "\<lambda>c. c \<noteq> CHR 0x0A" s]
    by (auto simp: lineEnd_def Let_def split: list.splits)
qed

function headLoop :: "string \<Rightarrow> string \<times> bool" where
  "headLoop s =
     (if CHR 0x0A \<notin> set s then (s, False)
      else if fst (lineEnd s) = crlf \<or> fst (lineEnd s) = [CHR 0x0A] then (fst (lineEnd s), True)
      else (let (more, blank) = headLoop (snd (lineEnd s)) in (fst (lineEnd s) @ more, blank)))"
  by pat_completeness auto
termination
  by (relation "measure length") (auto simp: lineEnd_shorter)

declare headLoop.simps [simp del]

text \<open>
  The connection ends (or 64 KiB have been read), or stays open with nothing more to read: then the
  deadline of 30 seconds passes and the writes fail with the read.
\<close>

definition echoRequestHead :: "string \<Rightarrow> bool \<Rightarrow> connAction list" where
  "echoRequestHead input ended =
     (let (body, blank) = headLoop (take 65536 input)
      in if \<not> blank \<and> \<not> ended \<and> length input < 65536 then [CloseConn]
         else [Send (''HTTP/1.1 200 OK'' @ crlf),
               Send (''Content-Type: text/plain; charset=utf-8'' @ crlf),
               Send (''Content-Length: '' @ itoa (int (length body)) @ crlf),
               Send (''Connection: close'' @ crlf @ crlf),
               Send body,
               CloseConn])"

datatype 'c accepted = Accepted 'c | Timeout | AcceptError

text \<open>\<open>serveRaw\<close> over the outcomes of \<open>Accept\<close>: the connections it starts a goroutine for, and whether it returned.\<close>

fun serveRaw :: "'c accepted list \<Rightarrow> 'c list \<times> bool" where
  "serveRaw [] = ([], False)"
| "serveRaw (Accepted c # as) = (let (cs, returned) = serveRaw as in (c # cs, returned))"
| "serveRaw (Timeout # as) = serveRaw as"
| "serveRaw (AcceptError # as) = ([], True)"

subsection \<open>Specification: a strict reader of HTTP/1.1 responses\<close>

fun readLine :: "string \<Rightarrow> (string \<times> string) option" where
  "readLine (c # d # cs) =
     (if c = CHR 0x0D \<and> d = CHR 0x0A then Some ([], cs)
      else map_option (\<lambda>(l, rest). (c # l, rest)) (readLine (d # cs)))"
| "readLine _ = None"

lemma readLine_shorter: "readLine s = Some (l, rest) \<Longrightarrow> length rest < length s"
  by (induction s arbitrary: l rest rule: readLine.induct) (fastforce split: if_splits dest: less_SucI)+

definition headerOf :: "string \<Rightarrow> (string \<times> string) option" where
  "headerOf l =
     (if CHR '':'' \<in> set l
      then Some (map lowerChar (takeWhile (\<lambda>c. c \<noteq> CHR '':'') l),
                 dropWhile (\<lambda>c. c = CHR '' '') (tl (dropWhile (\<lambda>c. c \<noteq> CHR '':'') l)))
      else None)"

function readHeaders :: "string \<Rightarrow> ((string \<times> string) list \<times> string) option" where
  "readHeaders s =
     (case readLine s of
        None \<Rightarrow> None
      | Some (l, rest) \<Rightarrow>
          if l = [] then Some ([], rest)
          else (case headerOf l of
                  None \<Rightarrow> None
                | Some kv \<Rightarrow> map_option (\<lambda>(kvs, body). (kv # kvs, body)) (readHeaders rest)))"
  by pat_completeness auto
termination
  by (relation "measure length") (auto simp: readLine_shorter)

declare readHeaders.simps [simp del]

text \<open>\<open>HTTP-version SP 3DIGIT SP [reason]\<close>.\<close>

definition statusOfLine :: "string \<Rightarrow> int option" where
  "statusOfLine l =
     (let code = take 3 (drop 9 l)
      in if prefix ''HTTP/1.1 '' l \<and> length code = 3 \<and> allDigits code \<and> take 1 (drop 12 l) = '' ''
         then Some (int (digitsValue code)) else None)"

datatype fault = NoStatusLine | BadStatusLine | BadHeaders | ConflictingFraming | BadChunkSize | Incomplete

datatype reply = Complete int string | Broken fault

definition hexNumber :: "string \<Rightarrow> nat option" where
  "hexNumber s =
     (if s \<noteq> [] \<and> list_all (\<lambda>c. hexValue c \<noteq> None) s
      then Some (foldl (\<lambda>n c. n * 16 + the (hexValue c)) 0 s) else None)"

function readChunks :: "int \<Rightarrow> string \<Rightarrow> string \<Rightarrow> reply" where
  "readChunks code acc s =
     (case readLine s of
        None \<Rightarrow> Broken Incomplete
      | Some (l, rest) \<Rightarrow>
          (case hexNumber l of
             None \<Rightarrow> Broken BadChunkSize
           | Some n \<Rightarrow>
               if n = 0 then (if readLine rest = None then Broken Incomplete else Complete code acc)
               else if take 2 (drop n rest) \<noteq> crlf then Broken Incomplete
               else readChunks code (acc @ take n rest) (drop (n + 2) rest)))"
  by pat_completeness auto
termination
  by (relation "measure (\<lambda>(_, _, s). length s)") (auto dest: readLine_shorter)

declare readChunks.simps [simp del]

definition valuesOf :: "string \<Rightarrow> (string \<times> string) list \<Rightarrow> string list" where
  "valuesOf name kvs = map snd (filter (\<lambda>(k, _). k = name) kvs)"

definition readFramed :: "int \<Rightarrow> (string \<times> string) list \<Rightarrow> string \<Rightarrow> reply" where
  "readFramed code kvs body =
     (let cls = remdups (valuesOf ''content-length'' kvs); te = valuesOf ''transfer-encoding'' kvs
      in if te \<noteq> [] \<and> cls \<noteq> [] then Broken ConflictingFraming
         else if te = [''chunked''] then readChunks code [] body
         else if te \<noteq> [] then Broken ConflictingFraming
         else (case cls of
                 [] \<Rightarrow> Complete code body
               | [v] \<Rightarrow> (if \<not> allDigits v then Broken ConflictingFraming
                         else if length body < digitsValue v then Broken Incomplete
                         else Complete code (take (digitsValue v) body))
               | _ \<Rightarrow> Broken ConflictingFraming))"

text \<open>A final response after any number of informational ones; every head takes at least one unit of fuel.\<close>

fun readReply :: "nat \<Rightarrow> string \<Rightarrow> reply" where
  "readReply 0 s = Broken NoStatusLine"
| "readReply (Suc fuel) s =
     (case readLine s of
        None \<Rightarrow> Broken NoStatusLine
      | Some (l, rest) \<Rightarrow>
          (case statusOfLine l of
             None \<Rightarrow> Broken BadStatusLine
           | Some code \<Rightarrow>
               (case readHeaders rest of
                  None \<Rightarrow> Broken BadHeaders
                | Some (kvs, body) \<Rightarrow>
                    if 100 \<le> code \<and> code < 200 then readReply fuel body
                    else readFramed code kvs body)))"

declare readReply.simps [simp del]

definition clientSees :: "connAction list \<Rightarrow> reply" where
  "clientSees as = readReply (Suc (length (sentBytes as))) (sentBytes as)"

subsection \<open>Reading what the endpoints write\<close>

lemma readLine_crlf [simp]: "CHR 0x0D \<notin> set l \<Longrightarrow> readLine (l @ crlf @ rest) = Some (l, rest)"
proof (induction l)
  case Nil
  then show ?case by (simp add: crlf_def)
next
  case (Cons c l)
  then show ?case by (cases l) (auto simp: crlf_def)
qed

lemma readHeaders_end [simp]: "readHeaders (crlf @ body) = Some ([], body)"
  using readLine_crlf [of "[]" body] by (subst readHeaders.simps) simp

lemma readHeaders_line:
  assumes "CHR 0x0D \<notin> set l" "l \<noteq> []" "headerOf l = Some kv" "readHeaders rest = Some (kvs, body)"
  shows "readHeaders (l @ crlf @ rest) = Some (kv # kvs, body)"
  using assms by (subst readHeaders.simps) simp

lemma headerOf_field:
  assumes "CHR '':'' \<notin> set k" "v = [] \<or> hd v \<noteq> CHR '' ''"
  shows "headerOf (k @ '': '' @ v) = Some (map lowerChar k, v)"
proof -
  have "dropWhile (\<lambda>c. c = CHR '' '') v = v" using assms(2) by (cases v) auto
  moreover have "takeWhile (\<lambda>c. c \<noteq> CHR '':'') (k @ CHR '':'' # x) = k"
    "dropWhile (\<lambda>c. c \<noteq> CHR '':'') (k @ CHR '':'' # x) = CHR '':'' # x" for x
    using assms(1) by (auto simp: takeWhile_append dropWhile_append)
  ultimately show ?thesis by (simp add: headerOf_def)
qed

lemma status_lines:
  "statusOfLine ''HTTP/1.1 200 OK'' = Some 200" "statusOfLine ''HTTP/1.1 100 Continue'' = Some 100"
  "statusOfLine ''HTTP/1.1 2000 Not A Status'' = None"
  by (simp_all add: statusOfLine_def Let_def strconv_simps)

lemma lower_names:
  "map lowerChar ''Content-Length'' = ''content-length''" "map lowerChar ''Transfer-Encoding'' = ''transfer-encoding''"
  "map lowerChar ''Content-Type'' = ''content-type''" "map lowerChar ''X-Testbed-Huge'' = ''x-testbed-huge''"
  "map lowerChar ''Connection'' = ''connection''"
  by (simp_all add: lowerChar_def isUpper_def) (simp_all add: char_of_def bit_0)

text \<open>The header lines the endpoints write; \<open>d\<close> is a decimal number.\<close>

lemma formatNat_value: "formatNat n = [] \<or> hd (formatNat n) \<noteq> CHR '' ''" "CHR 0x0D \<notin> set (formatNat n)"
proof -
  have d: "isDigit c" if "c \<in> set (formatNat n)" for c
    using that list_all_isDigit_formatNat [of n] by (simp add: list_all_iff)
  then have "isDigit (hd (formatNat n))" by simp
  then show "formatNat n = [] \<or> hd (formatNat n) \<noteq> CHR '' ''" by (auto simp: isDigit_def)
  show "CHR 0x0D \<notin> set (formatNat n)" using d [of "CHR 0x0D"] by (auto simp: isDigit_def)
qed

lemma readHeaders_field:
  assumes "CHR '':'' \<notin> set k" "CHR 0x0D \<notin> set k" "CHR 0x0D \<notin> set v" "v = [] \<or> hd v \<noteq> CHR '' ''"
    and "readHeaders rest = Some (kvs, body)"
  shows "readHeaders (k @ '': '' @ v @ crlf @ rest) = Some ((map lowerChar k, v) # kvs, body)"
  using readHeaders_line [of "k @ '': '' @ v" "(map lowerChar k, v)" rest kvs body] headerOf_field [OF assms(1,4)] assms
  by simp

lemmas field_rules =
  readHeaders_field [of "''Content-Length''", simplified lower_names]
  readHeaders_field [of "''Content-Type''", simplified lower_names]
  readHeaders_field [of "''Transfer-Encoding''", simplified lower_names]
  readHeaders_field [of "''X-Testbed-Huge''", simplified lower_names]
  readHeaders_field [of "''Connection''", simplified lower_names]

lemma reply_final:
  assumes "CHR 0x0D \<notin> set l" "statusOfLine l = Some 200" "readHeaders rest = Some (kvs, body)"
  shows "readReply (Suc n) (l @ crlf @ rest) = readFramed 200 kvs body"
  using assms by (simp add: readReply.simps)

lemma framed_length:
  "readFramed 200 [(''content-length'', formatNat n)] body
     = (if length body < n then Broken Incomplete else Complete 200 (take n body))"
  "readFramed 200 [(''content-type'', t), (''content-length'', formatNat n)] body
     = (if length body < n then Broken Incomplete else Complete 200 (take n body))"
  by (simp_all add: readFramed_def valuesOf_def Let_def)

lemma formatNat_literals:
  "''1024'' = formatNat 1024" "''0'' = formatNat 0" "''2'' = formatNat 2"
  by (simp_all add: formatNat.simps digitChar_def) (simp_all add: char_of_def bit_0)

text \<open>A response head with a length, read with any body.\<close>

lemma reads_length:
  "readReply (Suc fuel) (''HTTP/1.1 200 OK'' @ crlf @ ''Content-Length: '' @ formatNat n @ crlf @ crlf @ body)
     = (if length body < n then Broken Incomplete else Complete 200 (take n body))"
proof -
  have "readHeaders (''Content-Length'' @ '': '' @ formatNat n @ crlf @ crlf @ body)
      = Some ([(''content-length'', formatNat n)], body)"
    using field_rules(1) [of "formatNat n" "crlf @ body" "[]" body] formatNat_value by simp
  from reply_final [OF _ status_lines(1) this, of fuel] show ?thesis by (simp add: framed_length)
qed

lemma reads_typed_length:
  "readReply (Suc fuel) (''HTTP/1.1 200 OK'' @ crlf @ ''Content-Type: text/plain'' @ crlf
       @ ''Content-Length: '' @ formatNat n @ crlf @ crlf @ body)
     = (if length body < n then Broken Incomplete else Complete 200 (take n body))"
proof -
  have "readHeaders (''Content-Length'' @ '': '' @ formatNat n @ crlf @ crlf @ body)
      = Some ([(''content-length'', formatNat n)], body)"
    using field_rules(1) [of "formatNat n" "crlf @ body" "[]" body] formatNat_value by simp
  then have "readHeaders (''Content-Type'' @ '': '' @ ''text/plain'' @ crlf
        @ ''Content-Length: '' @ formatNat n @ crlf @ crlf @ body)
      = Some ([(''content-type'', ''text/plain''), (''content-length'', formatNat n)], body)"
    using field_rules(2) [of "''text/plain''" "''Content-Length: '' @ formatNat n @ crlf @ crlf @ body"
        "[(''content-length'', formatNat n)]" body] by simp
  from reply_final [OF _ status_lines(1) this, of fuel] show ?thesis by (simp add: framed_length)
qed

lemma reads_chunked:
  "readReply (Suc fuel) (''HTTP/1.1 200 OK'' @ crlf @ ''Transfer-Encoding: chunked'' @ crlf @ crlf @ body)
     = readChunks 200 [] body"
proof -
  have "readHeaders (''Transfer-Encoding'' @ '': '' @ ''chunked'' @ crlf @ crlf @ body)
      = Some ([(''transfer-encoding'', ''chunked'')], body)"
    using field_rules(3) [of "''chunked''" "crlf @ body" "[]" body] by simp
  from reply_final [OF _ status_lines(1) this, of fuel] show ?thesis
    by (simp add: readFramed_def valuesOf_def Let_def)
qed

lemma reads_storm:
  "readReply (Suc (fuel + n)) (concat (replicate n (''HTTP/1.1 100 Continue'' @ crlf @ crlf)) @ rest)
     = readReply (Suc fuel) rest"
proof (induction n)
  case (Suc n)
  have "readReply (Suc m) (''HTTP/1.1 100 Continue'' @ crlf @ crlf @ s) = readReply m s" for m s
    using readLine_crlf [of "''HTTP/1.1 100 Continue''" "crlf @ s"] by (simp add: status_lines readReply.simps)
  from this [of "Suc (fuel + n)" "concat (replicate n (''HTTP/1.1 100 Continue'' @ crlf @ crlf)) @ rest"] Suc
  show ?case by simp
qed simp

lemma reads_chunk_faults:
  "readChunks 200 [] (''8'' @ crlf @ ''xxxxxxxx'' @ crlf) = Broken Incomplete"
  "readChunks 200 [] (''zz'' @ crlf @ ''xxxxxxxx'' @ crlf @ ''0'' @ crlf @ crlf) = Broken BadChunkSize"
proof -
  have "hexNumber ''8'' = Some 8" "hexNumber ''zz'' = None"
    by (simp_all add: hexNumber_def hexValue_def inRange_def)
  moreover have "readChunks 200 acc [] = Broken Incomplete" for acc by (simp add: readChunks.simps)
  ultimately show "readChunks 200 [] (''8'' @ crlf @ ''xxxxxxxx'' @ crlf) = Broken Incomplete"
    "readChunks 200 [] (''zz'' @ crlf @ ''xxxxxxxx'' @ crlf @ ''0'' @ crlf @ crlf) = Broken BadChunkSize"
    using readLine_crlf [of "''8''" "''xxxxxxxx'' @ crlf"]
      readLine_crlf [of "''zz''" "''xxxxxxxx'' @ crlf @ ''0'' @ crlf @ crlf"]
    by (simp_all add: readChunks.simps [of _ _ "CHR ''8'' # _"] readChunks.simps [of _ _ "CHR ''z'' # _"] crlf_def)
qed

lemma sees_length:
  "sentBytes as = ''HTTP/1.1 200 OK'' @ crlf @ ''Content-Length: '' @ formatNat n @ crlf @ crlf @ body \<Longrightarrow>
   clientSees as = (if length body < n then Broken Incomplete else Complete 200 (take n body))"
  by (simp only: clientSees_def reads_length)

lemma sees_typed_length:
  "sentBytes as = ''HTTP/1.1 200 OK'' @ crlf @ ''Content-Type: text/plain'' @ crlf
       @ ''Content-Length: '' @ formatNat n @ crlf @ crlf @ body \<Longrightarrow>
   clientSees as = (if length body < n then Broken Incomplete else Complete 200 (take n body))"
  by (simp only: clientSees_def reads_typed_length)

lemma reads_two_lengths:
  "readReply (Suc fuel) (''HTTP/1.1 200 OK'' @ crlf @ ''Content-Length: 4'' @ crlf @ ''Content-Length: 8'' @ crlf @ crlf @ body)
     = Broken ConflictingFraming"
proof -
  have "readHeaders (''Content-Length: 8'' @ crlf @ crlf @ body) = Some ([(''content-length'', ''8'')], body)"
    using field_rules(1) [of "''8''" "crlf @ body" "[]" body] by simp
  then have "readHeaders (''Content-Length: 4'' @ crlf @ ''Content-Length: 8'' @ crlf @ crlf @ body)
      = Some ([(''content-length'', ''4''), (''content-length'', ''8'')], body)"
    using field_rules(1) [of "''4''" "''Content-Length: 8'' @ crlf @ crlf @ body" "[(''content-length'', ''8'')]" body] by simp
  from reply_final [OF _ status_lines(1) this, of fuel] show ?thesis
    by (simp add: readFramed_def valuesOf_def Let_def)
qed

lemma reads_two_framings:
  "readReply (Suc fuel) (''HTTP/1.1 200 OK'' @ crlf @ ''Content-Length: 8'' @ crlf @ ''Transfer-Encoding: chunked'' @ crlf @ crlf @ body)
     = Broken ConflictingFraming"
proof -
  have "readHeaders (''Transfer-Encoding: chunked'' @ crlf @ crlf @ body) = Some ([(''transfer-encoding'', ''chunked'')], body)"
    using field_rules(3) [of "''chunked''" "crlf @ body" "[]" body] by simp
  then have "readHeaders (''Content-Length: 8'' @ crlf @ ''Transfer-Encoding: chunked'' @ crlf @ crlf @ body)
      = Some ([(''content-length'', ''8''), (''transfer-encoding'', ''chunked'')], body)"
    using field_rules(1) [of "''8''" "''Transfer-Encoding: chunked'' @ crlf @ crlf @ body"
        "[(''transfer-encoding'', ''chunked'')]" body] by simp
  from reply_final [OF _ status_lines(1) this, of fuel] show ?thesis
    by (simp add: readFramed_def valuesOf_def Let_def)
qed

lemma reads_huge:
  "readReply (Suc fuel) (''HTTP/1.1 200 OK'' @ crlf @ ''Content-Length: 0'' @ crlf
       @ ''X-Testbed-Huge: '' @ replicate n (CHR ''x'') @ crlf @ crlf) = Complete 200 []"
proof -
  have "readHeaders (''X-Testbed-Huge: '' @ replicate n (CHR ''x'') @ crlf @ crlf)
      = Some ([(''x-testbed-huge'', replicate n (CHR ''x''))], [])"
    using field_rules(4) [of "replicate n (CHR ''x'')" crlf "[]" "[]"] readHeaders_end [of "[]"]
    by (cases n) auto
  then have "readHeaders (''Content-Length: 0'' @ crlf @ ''X-Testbed-Huge: '' @ replicate n (CHR ''x'') @ crlf @ crlf)
      = Some ([(''content-length'', ''0''), (''x-testbed-huge'', replicate n (CHR ''x''))], [])"
    using field_rules(1) [of "''0''" "''X-Testbed-Huge: '' @ replicate n (CHR ''x'') @ crlf @ crlf"] by simp
  from reply_final [OF _ status_lines(1) this, of fuel] show ?thesis
    by (simp add: readFramed_def valuesOf_def Let_def allDigits_def isDigit_def digitsValue_def digitValue_def)
qed

text \<open>The query parameters of the endpoints are in range, so their bodies can be made.\<close>

lemma hostile_parameters:
  "1 \<le> queryInt q ''promised'' 1024 1 1048576" "0 \<le> queryInt q ''sent'' 16 0 1048576"
  "0 \<le> queryInt q ''after'' 8 0 65536" "1 \<le> queryInt q ''size'' 65536 1 1048576"
  using queryInt_range [of 1 1024 1048576 q "''promised''"] queryInt_range [of 0 16 1048576 q "''sent''"]
    queryInt_range [of 0 8 65536 q "''after''"] queryInt_range [of 1 65536 1048576 q "''size''"] by simp_all

lemma hostile_repeats [simp]:
  "repeatString ''x'' (queryInt q ''after'' 8 0 65536) = Ok (replicate (nat (queryInt q ''after'' 8 0 65536)) (CHR ''x''))"
  "repeatString ''x'' (queryInt q ''size'' 65536 1 1048576) = Ok (replicate (nat (queryInt q ''size'' 65536 1 1048576)) (CHR ''x''))"
  "repeatString ''x'' (min (queryInt q ''sent'' 16 0 1048576) (queryInt q ''promised'' 1024 1 1048576))
     = Ok (replicate (nat (min (queryInt q ''sent'' 16 0 1048576) (queryInt q ''promised'' 1024 1 1048576))) (CHR ''x''))"
  using hostile_parameters [of q] by simp_all

lemma slowLoop_no_panic: "Panics \<notin> set (slowLoop fails pause n s)"
  by (induction s arbitrary: n) auto

lemma hostileWrite_no_panic: "Panics \<notin> set (hostileWrite host tcp h q)"
  by (cases h) (simp_all add: hostileWrite_def slowLoop_no_panic)

text \<open>
  C23: each hostile response is broken in its own way.  To a strict reader of HTTP/1.1 the six fixed
  faults are: nothing at all, a chunked body that stops, a chunk size that is no number, a status
  line that is none, and two kinds of contradictory framing; none of them is a complete response.
\<close>

theorem hostile_faults:
  "clientSees (hostileWrite host tcp NoResponse q) = Broken NoStatusLine \<and>
   clientSees (hostileWrite host tcp TruncatedChunks q) = Broken Incomplete \<and>
   clientSees (hostileWrite host tcp InvalidChunkSize q) = Broken BadChunkSize \<and>
   clientSees (hostileWrite host tcp InvalidStatusLine q) = Broken BadStatusLine \<and>
   clientSees (hostileWrite host tcp DuplicateContentLength q) = Broken ConflictingFraming \<and>
   clientSees (hostileWrite host tcp ContentLengthAndChunked q) = Broken ConflictingFraming"
proof (intro conjI)
  show "clientSees (hostileWrite host tcp NoResponse q) = Broken NoStatusLine"
    by (simp add: clientSees_def hostileWrite_def readReply.simps)
  have "sentBytes (hostileWrite host tcp TruncatedChunks q) =
      ''HTTP/1.1 200 OK'' @ crlf @ ''Transfer-Encoding: chunked'' @ crlf @ crlf @ ''8'' @ crlf @ ''xxxxxxxx'' @ crlf"
    by (simp add: hostileWrite_def)
  then show "clientSees (hostileWrite host tcp TruncatedChunks q) = Broken Incomplete"
    by (simp only: clientSees_def reads_chunked reads_chunk_faults)
  have "sentBytes (hostileWrite host tcp InvalidChunkSize q) =
      ''HTTP/1.1 200 OK'' @ crlf @ ''Transfer-Encoding: chunked'' @ crlf @ crlf
      @ ''zz'' @ crlf @ ''xxxxxxxx'' @ crlf @ ''0'' @ crlf @ crlf"
    by (simp add: hostileWrite_def)
  then show "clientSees (hostileWrite host tcp InvalidChunkSize q) = Broken BadChunkSize"
    by (simp only: clientSees_def reads_chunked reads_chunk_faults)
  have "sentBytes (hostileWrite host tcp InvalidStatusLine q) =
      ''HTTP/1.1 2000 Not A Status'' @ crlf @ ''Content-Length: 0'' @ crlf @ crlf"
    by (simp add: hostileWrite_def)
  moreover have "readLine (''HTTP/1.1 2000 Not A Status'' @ crlf @ rest) = Some (''HTTP/1.1 2000 Not A Status'', rest)" for rest
    by (rule readLine_crlf) simp
  ultimately show "clientSees (hostileWrite host tcp InvalidStatusLine q) = Broken BadStatusLine"
    by (simp only: clientSees_def readReply.simps option.case prod.case status_lines)
  have "sentBytes (hostileWrite host tcp DuplicateContentLength q) =
      ''HTTP/1.1 200 OK'' @ crlf @ ''Content-Length: 4'' @ crlf @ ''Content-Length: 8'' @ crlf @ crlf @ ''xxxx''"
    by (simp add: hostileWrite_def)
  then show "clientSees (hostileWrite host tcp DuplicateContentLength q) = Broken ConflictingFraming"
    by (simp only: clientSees_def reads_two_lengths)
  have "sentBytes (hostileWrite host tcp ContentLengthAndChunked q) =
      ''HTTP/1.1 200 OK'' @ crlf @ ''Content-Length: 8'' @ crlf @ ''Transfer-Encoding: chunked'' @ crlf @ crlf
      @ ''4'' @ crlf @ ''xxxx'' @ crlf @ ''0'' @ crlf @ crlf"
    by (simp add: hostileWrite_def)
  then show "clientSees (hostileWrite host tcp ContentLengthAndChunked q) = Broken ConflictingFraming"
    by (simp only: clientSees_def reads_two_framings)
qed

subsection \<open>Specification: an abortive close\<close>

text \<open>
  \<open>SetLinger(0)\<close> makes the close discard what the client has not acknowledged, so all that is known
  of the bytes that arrive is that they are a prefix of the bytes written; otherwise all arrive.
\<close>

definition mayReceive :: "connAction list \<Rightarrow> string \<Rightarrow> bool" where
  "mayReceive as s \<longleftrightarrow> (if SetLinger0 \<in> set as then prefix s (sentBytes as) else s = sentBytes as)"

definition readAll :: "string \<Rightarrow> reply" where
  "readAll s = readReply (Suc (length s)) s"

lemma clientSees_readAll: "clientSees as = readAll (sentBytes as)"
  by (simp add: clientSees_def readAll_def)

definition resetHead :: string where
  "resetHead = ''HTTP/1.1 200 OK'' @ crlf @ ''Content-Type: text/plain'' @ crlf @ ''Content-Length: 1024'' @ crlf @ crlf"

lemma resetHead_prefixes: "list_all (\<lambda>k. case readAll (take k resetHead) of Broken _ \<Rightarrow> True | _ \<Rightarrow> False) [0..<67]"
  by code_simp


lemma reads_resetHead:
  "readAll (resetHead @ body) = (if length body < 1024 then Broken Incomplete else Complete 200 (take 1024 body))"
  using reads_typed_length [of "length (resetHead @ body)" 1024 body]
  by (simp add: readAll_def resetHead_def flip: formatNat_literals)

lemma reads_reset_prefix:
  assumes "prefix s (resetHead @ replicate n (CHR ''x''))"
  shows "(\<exists>f. readAll s = Broken f) \<or> 1024 \<le> n \<and> readAll s = Complete 200 (replicate 1024 (CHR ''x''))"
proof (cases "length s < 67")
  case True
  have "length resetHead = 67" by (simp add: resetHead_def crlf_def)
  moreover have "s = take (length s) (resetHead @ replicate n (CHR ''x''))"
    using assms by (metis append_eq_conv_conj prefix_def)
  ultimately have "s = take (length s) resetHead" using True by simp
  moreover have "case readAll (take (length s) resetHead) of Broken _ \<Rightarrow> True | _ \<Rightarrow> False"
    using resetHead_prefixes True by (auto simp: list_all_iff)
  ultimately show ?thesis by (auto split: reply.splits)
next
  case False
  have len: "length resetHead = 67" by (simp add: resetHead_def crlf_def)
  have "s = resetHead" if "prefix s resetHead"
    using that len False prefix_length_le [OF that] by (metis append_eq_conv_conj not_less order_antisym prefix_def take_all)
  then obtain body where s: "s = resetHead @ body" "prefix body (replicate n (CHR ''x''))"
    using assms by (auto simp: prefix_append)
  then have "body = replicate (length body) (CHR ''x'')" "length body \<le> n"
    by (metis append_eq_conv_conj length_replicate prefix_def prefix_length_le take_replicate min_absorb1)
      (use s(2) prefix_length_le in fastforce)
  then have "take 1024 body = replicate (min 1024 (length body)) (CHR ''x'')" by (metis take_replicate)
  with \<open>length body \<le> n\<close> show ?thesis unfolding s(1) reads_resetHead by auto
qed

lemma reset_sent:
  "sentBytes (hostileWrite host tcp Reset q) = resetHead @ replicate (nat (queryInt q ''after'' 8 0 65536)) (CHR ''x'')"
  "SetLinger0 \<in> set (hostileWrite host tcp Reset q) \<longleftrightarrow> tcp"
  by (simp_all add: hostileWrite_def resetHead_def)

text \<open>
  C33: how much is truncated.  Whatever \<open>promised\<close> and \<open>sent\<close> ask for, the reader of \<open>truncated-body\<close> gets
  an incomplete body exactly when fewer bytes are sent than announced, and a complete response otherwise.
  The close of \<open>reset\<close> is abortive exactly on a plain TCP connection, and there it may lose all that was
  written.  With \<open>after\<close> below 1024 no prefix that arrives is ever a complete response; with 1024 or more the
  response may arrive whole, and over TLS, where the close is an ordinary one, it always does.  The
  half-close, too, happens exactly on plain TCP.
\<close>

theorem hostile_truncation:
  assumes after_def: "after = queryInt q ''after'' 8 0 65536"
    and promised_def: "promised = queryInt q ''promised'' 1024 1 1048576" and sent_def: "sent = queryInt q ''sent'' 16 0 1048576"
  shows "(\<forall>s. mayReceive (hostileWrite host tcp TruncatedBody q) s \<longrightarrow>
      readAll s = (if sent < promised then Broken Incomplete else Complete 200 (replicate (nat promised) (CHR ''x'')))) \<and>
    (\<forall>s. mayReceive (hostileWrite host tcp Reset q) s \<longrightarrow>
      (case readAll s of
         Complete code body \<Rightarrow> 1024 \<le> after \<and> code = 200 \<and> body = replicate 1024 (CHR ''x'')
       | Broken f \<Rightarrow> tcp \<or> after < 1024 \<and> f = Incomplete)) \<and>
    mayReceive (hostileWrite host tcp Reset q) (sentBytes (hostileWrite host tcp Reset q)) \<and>
    (1024 \<le> after \<longrightarrow> readAll (sentBytes (hostileWrite host tcp Reset q)) = Complete 200 (replicate 1024 (CHR ''x''))) \<and>
    (mayReceive (hostileWrite host tcp Reset q) [] \<longleftrightarrow> tcp) \<and>
    (CloseWrite \<in> set (hostileWrite host tcp HalfClose q) \<longleftrightarrow> tcp)"
proof (intro conjI allI impI)
  fix s assume "mayReceive (hostileWrite host tcp TruncatedBody q) s"
  moreover have sent: "sentBytes (hostileWrite host tcp TruncatedBody q) = ''HTTP/1.1 200 OK'' @ crlf @ ''Content-Type: text/plain'' @ crlf
       @ ''Content-Length: '' @ formatNat (nat promised) @ crlf @ crlf @ replicate (nat (min sent promised)) (CHR ''x'')"
    using hostile_parameters [of q] by (simp add: hostileWrite_def itoa_def promised_def sent_def)
  moreover have "SetLinger0 \<notin> set (hostileWrite host tcp TruncatedBody q)" by (simp add: hostileWrite_def)
  ultimately have "readAll s = clientSees (hostileWrite host tcp TruncatedBody q)"
    by (simp add: mayReceive_def clientSees_readAll)
  with sees_typed_length [OF sent] hostile_parameters [of q]
  show "readAll s = (if sent < promised then Broken Incomplete else Complete 200 (replicate (nat promised) (CHR ''x'')))"
    by (auto simp: min_def promised_def sent_def)
next
  fix s assume s: "mayReceive (hostileWrite host tcp Reset q) s"
  then have "prefix s (resetHead @ replicate (nat after) (CHR ''x''))"
    by (auto simp: mayReceive_def reset_sent after_def split: if_splits)
  note cases = reads_reset_prefix [OF this]
  have "readAll s = (if nat after < 1024 then Broken Incomplete else Complete 200 (replicate 1024 (CHR ''x'')))" if "\<not> tcp"
    using s that by (simp add: mayReceive_def reset_sent after_def reads_resetHead min_def)
  with cases show "case readAll s of
         Complete code body \<Rightarrow> 1024 \<le> after \<and> code = 200 \<and> body = replicate 1024 (CHR ''x'')
       | Broken f \<Rightarrow> tcp \<or> after < 1024 \<and> f = Incomplete"
    by (cases tcp) (auto split: if_splits)
next
  show "readAll (sentBytes (hostileWrite host tcp Reset q)) = Complete 200 (replicate 1024 (CHR ''x''))" if "1024 \<le> after"
    using that by (simp add: reset_sent reads_resetHead after_def)
  show "mayReceive (hostileWrite host tcp Reset q) [] \<longleftrightarrow> tcp"
    by (auto simp: mayReceive_def reset_sent resetHead_def)
qed (auto simp: mayReceive_def hostileWrite_def)

lemma hostile_truncation_witness:
  "readAll (sentBytes (hostileWrite exampleHost True Reset [(''after'', [''2000''])])) = Complete 200 (replicate 1024 (CHR ''x'')) \<and>
   readAll (sentBytes (hostileWrite exampleHost False Reset [])) = Broken Incomplete \<and>
   mayReceive (hostileWrite exampleHost True Reset []) []"
proof -
  have "atoi ''2000'' = Some 2000" by (simp add: strconv_simps)
  then have "queryInt [(''after'', [''2000''])] ''after'' 8 0 65536 = 2000" "queryInt [] ''after'' 8 0 65536 = 8"
    by (simp_all add: queryInt_unfold queryValues_def)
  note eight = hostile_truncation [OF this(2) [symmetric] refl refl, of exampleHost False]
    and many = hostile_truncation [OF this(1) [symmetric] refl refl, of exampleHost True]
  have "(1024 :: int) \<le> 2000" by simp
  with many have "readAll (sentBytes (hostileWrite exampleHost True Reset [(''after'', [''2000''])]))
      = Complete 200 (replicate 1024 (CHR ''x''))" by blast
  moreover have "readAll (sentBytes (hostileWrite exampleHost False Reset [])) = Broken Incomplete"
  proof -
    have "case readAll (sentBytes (hostileWrite exampleHost False Reset [])) of
        Complete code body \<Rightarrow> (1024 :: int) \<le> 8 \<and> code = 200 \<and> body = replicate 1024 (CHR ''x'')
      | Broken f \<Rightarrow> False \<or> (8 :: int) < 1024 \<and> f = Incomplete"
      using eight by blast
    then show ?thesis by (simp split: reply.splits)
  qed
  moreover have "mayReceive (hostileWrite exampleHost True Reset []) []"
    using hostile_truncation [OF refl refl refl, of exampleHost True "[]"] by blast
  ultimately show ?thesis by blast
qed

lemma storm_fuel:
  "\<exists>fuel. length (concat (replicate n (''HTTP/1.1 100 Continue'' @ crlf @ crlf)) @ rest) = fuel + n"
proof (induction n)
  case (Suc n)
  then obtain fuel where "length (concat (replicate n (''HTTP/1.1 100 Continue'' @ crlf @ crlf)) @ rest) = fuel + n" ..
  then show ?case by (intro exI [of _ "fuel + 24"]) (simp add: crlf_def)
qed simp

text \<open>
  C34: the awkward but valid ones.  However slowly the head arrives, however large the extra header
  and however many informational responses precede it, a strict reader gets the complete response
  in the end.
\<close>

theorem awkward_responses_complete:
  assumes "\<forall>k. \<not> writeFails host k"
  shows "clientSees (hostileWrite host tcp SlowHeaders q) = Complete 200 ''ok'' \<and>
    clientSees (hostileWrite host tcp HugeHeader q) = Complete 200 [] \<and>
    clientSees (hostileWrite host tcp InformationalStorm q) = Complete 200 ''ok'' \<and>
    clientSees (hostileWrite host tcp HalfClose q) = Complete 200 ''ok''"
proof (intro conjI)
  have "sentBytes (hostileWrite host tcp SlowHeaders q) = ''HTTP/1.1 200 OK'' @ crlf @ ''Content-Type: text/plain'' @ crlf
       @ ''Content-Length: '' @ formatNat 2 @ crlf @ crlf @ ''ok''"
    using assms by (simp add: hostileWrite_def sentBytes_slowLoop flip: formatNat_literals)
  from sees_typed_length [OF this] show "clientSees (hostileWrite host tcp SlowHeaders q) = Complete 200 ''ok''" by simp
  have "sentBytes (hostileWrite host tcp HugeHeader q) = ''HTTP/1.1 200 OK'' @ crlf @ ''Content-Length: 0'' @ crlf
       @ ''X-Testbed-Huge: '' @ replicate (nat (queryInt q ''size'' 65536 1 1048576)) (CHR ''x'') @ crlf @ crlf"
    by (simp add: hostileWrite_def Let_def)
  then show "clientSees (hostileWrite host tcp HugeHeader q) = Complete 200 []"
    by (simp only: clientSees_def reads_huge)
  have ok: "''HTTP/1.1 200 OK'' @ crlf @ ''Content-Length: 2'' @ crlf @ crlf @ ''ok''
      = ''HTTP/1.1 200 OK'' @ crlf @ ''Content-Length: '' @ formatNat 2 @ crlf @ crlf @ ''ok''"
    by (simp flip: formatNat_literals)
  have "sentBytes (hostileWrite host tcp HalfClose q) = ''HTTP/1.1 200 OK'' @ crlf @ ''Content-Length: 2'' @ crlf @ crlf @ ''ok''"
    by (simp add: hostileWrite_def)
  from sees_length [OF this [unfolded ok]] show "clientSees (hostileWrite host tcp HalfClose q) = Complete 200 ''ok''" by simp
  let ?n = "nat (queryInt q ''count'' 5 1 100)"
  let ?last = "''HTTP/1.1 200 OK'' @ crlf @ ''Content-Length: 2'' @ crlf @ crlf @ ''ok''"
  let ?storm = "concat (replicate ?n (''HTTP/1.1 100 Continue'' @ crlf @ crlf)) @ ?last"
  obtain fuel where fuel: "length ?storm = fuel + ?n"
    using storm_fuel [of ?n ?last] by blast
  have "sentBytes (hostileWrite host tcp InformationalStorm q) = ?storm"
    by (simp add: hostileWrite_def Let_def)
  then have "clientSees (hostileWrite host tcp InformationalStorm q) = readReply (Suc fuel) ?last"
    by (simp only: clientSees_def fuel reads_storm)
  also have "\<dots> = Complete 200 ''ok''"
    unfolding ok reads_length by simp
  finally show "clientSees (hostileWrite host tcp InformationalStorm q) = Complete 200 ''ok''" .
qed

lemma awkward_responses_complete_witness:
  "clientSees (hostileWrite exampleHost True InformationalStorm [(''count'', [''3''])]) = Complete 200 ''ok''"
  using awkward_responses_complete [of exampleHost True "[(''count'', [''3''])]"] by (simp add: exampleHost_def)

subsection \<open>The raw listener echoes verbatim\<close>

definition headLine :: "string \<Rightarrow> bool" where
  "headLine l \<longleftrightarrow> l \<noteq> [] \<and> last l = CHR 0x0A \<and> CHR 0x0A \<notin> set (butlast l) \<and> l \<noteq> crlf \<and> l \<noteq> [CHR 0x0A]"

definition blankLine :: "string \<Rightarrow> bool" where
  "blankLine l \<longleftrightarrow> l = crlf \<or> l = [CHR 0x0A]"

lemma lineEnd_line:
  assumes "l \<noteq> []" "last l = CHR 0x0A" "CHR 0x0A \<notin> set (butlast l)"
  shows "lineEnd (l @ rest) = (l, rest)" "CHR 0x0A \<in> set (l @ rest)"
proof -
  define p where "p = butlast l"
  have l: "l = p @ [CHR 0x0A]" "CHR 0x0A \<notin> set p"
    using assms append_butlast_last_id [OF assms(1)] by (simp_all add: p_def)
  have "takeWhile (\<lambda>c. c \<noteq> CHR 0x0A) (p @ CHR 0x0A # rest) = p"
    "dropWhile (\<lambda>c. c \<noteq> CHR 0x0A) (p @ CHR 0x0A # rest) = CHR 0x0A # rest"
    using l(2) by (auto simp: takeWhile_append dropWhile_append)
  then show "lineEnd (l @ rest) = (l, rest)" by (simp add: l(1) lineEnd_def)
  show "CHR 0x0A \<in> set (l @ rest)" by (simp add: l(1))
qed

lemma headLoop_blank: "blankLine b \<Longrightarrow> headLoop (b @ rest) = (b, True)"
  using lineEnd_line [of b rest]
  by (auto simp: blankLine_def crlf_def headLoop.simps [of "b @ rest"])

lemma headLoop_line:
  assumes "headLine l"
  shows "headLoop (l @ s) = (l @ fst (headLoop s), snd (headLoop s))"
  using assms lineEnd_line [of l s]
  by (auto simp: headLine_def headLoop.simps [of "l @ s"] split: prod.splits)

lemma headLoop_head: "\<forall>l \<in> set ls. headLine l \<Longrightarrow> blankLine b \<Longrightarrow> headLoop (concat ls @ b @ rest) = (concat ls @ b, True)"
  by (induction ls) (simp_all add: headLoop_blank headLoop_line)

lemma reads_raw:
  "readReply (Suc fuel) (''HTTP/1.1 200 OK'' @ crlf @ ''Content-Type: text/plain; charset=utf-8'' @ crlf
       @ ''Content-Length: '' @ formatNat (length body) @ crlf @ ''Connection: close'' @ crlf @ crlf @ body)
     = Complete 200 body"
proof -
  have "readHeaders (''Connection: close'' @ crlf @ crlf @ body) = Some ([(''connection'', ''close'')], body)"
    using field_rules(5) [of "''close''" "crlf @ body" "[]" body] by simp
  then have "readHeaders (''Content-Length: '' @ formatNat (length body) @ crlf @ ''Connection: close'' @ crlf @ crlf @ body)
      = Some ([(''content-length'', formatNat (length body)), (''connection'', ''close'')], body)"
    using field_rules(1) [of "formatNat (length body)" "''Connection: close'' @ crlf @ crlf @ body"
        "[(''connection'', ''close'')]" body] formatNat_value by simp
  then have "readHeaders (''Content-Type: text/plain; charset=utf-8'' @ crlf
        @ ''Content-Length: '' @ formatNat (length body) @ crlf @ ''Connection: close'' @ crlf @ crlf @ body)
      = Some ([(''content-type'', ''text/plain; charset=utf-8''), (''content-length'', formatNat (length body)),
               (''connection'', ''close'')], body)"
    using field_rules(2) [of "''text/plain; charset=utf-8''"
        "''Content-Length: '' @ formatNat (length body) @ crlf @ ''Connection: close'' @ crlf @ crlf @ body"] by simp
  from reply_final [OF _ status_lines(1) this, of fuel] show ?thesis
    by (simp add: readFramed_def valuesOf_def Let_def)
qed

text \<open>
  C24: the raw listener reports the bytes on the wire.  For a request head of at most 64 KiB, whatever
  its lines are and whether they end in CRLF or LF, the answer is a complete 200 response whose body
  is the head byte for byte, up to and including the blank line and nothing after it, whether or
  not the client closes.
\<close>

theorem raw_echo_verbatim:
  assumes "\<forall>l \<in> set ls. headLine l" "blankLine b" "length (concat ls @ b) \<le> 65536"
  shows "clientSees (echoRequestHead (concat ls @ b @ rest) ended) = Complete 200 (concat ls @ b)"
proof -
  let ?body = "concat ls @ b"
  have "take 65536 (concat ls @ b @ rest) = concat ls @ b @ take (65536 - length ?body) rest"
    using assms(3) by simp
  then have "headLoop (take 65536 (concat ls @ b @ rest)) = (?body, True)"
    using headLoop_head [OF assms(1,2)] by (simp only:)
  then have "sentBytes (echoRequestHead (concat ls @ b @ rest) ended) =
      ''HTTP/1.1 200 OK'' @ crlf @ ''Content-Type: text/plain; charset=utf-8'' @ crlf
       @ ''Content-Length: '' @ formatNat (length ?body) @ crlf @ ''Connection: close'' @ crlf @ crlf @ ?body"
    by (simp add: echoRequestHead_def itoa_def nat_add_distrib)
  then show ?thesis by (simp only: clientSees_def reads_raw)
qed

lemma raw_echo_verbatim_witness:
  "clientSees (echoRequestHead (concat [''GET / HTTP/1.1'' @ crlf, ''zZ-Odd-CASE: 1'' @ crlf] @ crlf @ ''body'') False)
   = Complete 200 (''GET / HTTP/1.1'' @ crlf @ ''zZ-Odd-CASE: 1'' @ crlf @ crlf)"
  using raw_echo_verbatim [of "[''GET / HTTP/1.1'' @ crlf, ''zZ-Odd-CASE: 1'' @ crlf]" crlf "''body''" False]
  by (simp add: headLine_def blankLine_def crlf_def)

lemma hijacked_h2: "hijacked NotHijacker write r newWriter = Responded w \<Longrightarrow> statusOf w = Some 501"
  by (auto simp: hijacked_def httpError_on_fresh bodyAllowedForStatus_def)

end
