(* ===== verification/Router.thy ===== *)
theory Router
  imports Hostile Serve_Mux
begin

text \<open>
  The routes of \<open>handler()\<close> and \<open>registerHostile\<close>, the rules by which \<open>http.ServeMux\<close> matches a pattern,
  and the dispatch of a request to its handler.  Paths are what \<open>ServeMux\<close> matches: escaped, clean and split
  at slashes, each segment unescaped by the argument \<open>unescape\<close> (\<open>Serve_Mux\<close>).

  No two patterns of this server match the same path, so the precedence rules of \<open>ServeMux\<close> never
  come into play and the first match is the only one.
\<close>

subsection \<open>Patterns\<close>

datatype segment = Lit string | Wild string | Multi string | EndMark

definition restPath :: "string list \<Rightarrow> string" where
  "restPath ss = join ''/'' (map (\<lambda>s. if s = ''/'' then [] else s) ss)"

fun matchSegs :: "segment list \<Rightarrow> string list \<Rightarrow> (string \<times> string) list option" where
  "matchSegs [] [] = Some []"
| "matchSegs [] (s # ss) = None"
| "matchSegs (p # ps) [] = None"
| "matchSegs (Lit l # ps) (s # ss) = (if l = s then matchSegs ps ss else None)"
| "matchSegs (Wild n # ps) (s # ss) =
     (if s = ''/'' then None else map_option (\<lambda>vs. (n, s) # vs) (matchSegs ps ss))"
| "matchSegs (Multi n # ps) (s # ss) = Some [(n, restPath (s # ss))]"
| "matchSegs (EndMark # ps) (s # ss) = (if s = ''/'' \<and> ss = [] then Some [] else None)"

subsection \<open>The routes\<close>

datatype endpoint =
    Health | Info | CaPEM | ClientPEM | Tls | Anything | Headers | Status | Redirect bool | RedirectTo | Delay
  | Bytes | Stream | Drip | Compressed string | Trailers | BasicAuth | Cookies | SetCookies | Cache
  | CacheControl | HostileList | HostileAt hostile | Index

definition hostileRoutes :: "(string \<times> segment list \<times> endpoint) list" where
  "hostileRoutes =
    [(''GET'', [Lit ''hostile''], HostileList),
     (''GET'', [Lit ''hostile'', Lit ''no-response''], HostileAt NoResponse),
     (''GET'', [Lit ''hostile'', Lit ''reset''], HostileAt Reset),
     (''GET'', [Lit ''hostile'', Lit ''truncated-body''], HostileAt TruncatedBody),
     (''GET'', [Lit ''hostile'', Lit ''truncated-chunks''], HostileAt TruncatedChunks),
     (''GET'', [Lit ''hostile'', Lit ''invalid-chunk-size''], HostileAt InvalidChunkSize),
     (''GET'', [Lit ''hostile'', Lit ''invalid-status-line''], HostileAt InvalidStatusLine),
     (''GET'', [Lit ''hostile'', Lit ''duplicate-content-length''], HostileAt DuplicateContentLength),
     (''GET'', [Lit ''hostile'', Lit ''content-length-and-chunked''], HostileAt ContentLengthAndChunked),
     (''GET'', [Lit ''hostile'', Lit ''slow-headers''], HostileAt SlowHeaders),
     (''GET'', [Lit ''hostile'', Lit ''huge-header''], HostileAt HugeHeader),
     (''GET'', [Lit ''hostile'', Lit ''informational-storm''], HostileAt InformationalStorm),
     (''GET'', [Lit ''hostile'', Lit ''half-close''], HostileAt HalfClose)]"

definition routes :: "(string \<times> segment list \<times> endpoint) list" where
  "routes =
    [(''GET'', [Lit ''health''], Health),
     (''GET'', [Lit ''info''], Info),
     (''GET'', [Lit ''ca.pem''], CaPEM),
     (''GET'', [Lit ''client.pem''], ClientPEM),
     ([], [Lit ''tls''], Tls),
     ([], [Lit ''anything''], Anything),
     ([], [Lit ''anything'', Multi ''path''], Anything),
     (''GET'', [Lit ''headers''], Headers),
     ([], [Lit ''status'', Wild ''code''], Status),
     (''GET'', [Lit ''redirect'', Wild ''count''], Redirect False),
     (''GET'', [Lit ''absolute-redirect'', Wild ''count''], Redirect True),
     (''GET'', [Lit ''redirect-to''], RedirectTo),
     ([], [Lit ''delay'', Wild ''seconds''], Delay),
     (''GET'', [Lit ''bytes'', Wild ''count''], Bytes),
     (''GET'', [Lit ''stream'', Wild ''lines''], Stream),
     (''GET'', [Lit ''drip''], Drip),
     (''GET'', [Lit ''gzip''], Compressed ''gzip''),
     (''GET'', [Lit ''deflate''], Compressed ''deflate''),
     (''GET'', [Lit ''trailers''], Trailers),
     (''GET'', [Lit ''basic-auth'', Wild ''user'', Wild ''password''], BasicAuth),
     (''GET'', [Lit ''cookies''], Cookies),
     (''GET'', [Lit ''cookies'', Lit ''set''], SetCookies),
     (''GET'', [Lit ''cache''], Cache),
     (''GET'', [Lit ''cache'', Wild ''seconds''], CacheControl)]
    @ hostileRoutes @
    [(''GET'', [EndMark], Index)]"

subsection \<open>The index pages\<close>

definition padRight :: "nat \<Rightarrow> string \<Rightarrow> string" where
  "padRight n s = s @ replicate (n - length s) (CHR '' '')"

definition endpointIndex :: "(string \<times> string) list" where
  "endpointIndex =
    [(''/health'', ''liveness''),
     (''/info'', ''listeners, certificate mode, and the URL this request arrived as''),
     (''/ca.pem'', ''the generated CA, when the server minted its own certificate''),
     (''/client.pem'', ''a client certificate and key this CA signed, for the mtls listener''),
     (''/tls'', ''the negotiated handshake and the ClientHello it was chosen from''),
     (''/anything'', ''the whole request echoed back as JSON (any method)''),
     (''/headers'', ''request headers, as net/http parsed them''),
     (''/status/{code}'', ''that status code''),
     (''/redirect/{n}'', ''n relative redirects, then /anything''),
     (''/absolute-redirect/{n}'', ''the same with absolute Location headers''),
     (''/redirect-to?url=&status='', ''a redirect to a given URL''),
     (''/delay/{seconds}'', ''a response after a delay''),
     (''/bytes/{n}'', ''n random bytes with a Content-Length''),
     (''/stream/{n}'', ''n JSON lines, chunked''),
     (''/drip?duration=&bytes=&delay='', ''a body dribbled out over time''),
     (''/gzip, /deflate'', ''an encoded body''),
     (''/trailers'', ''a chunked body with trailing headers''),
     (''/basic-auth/{user}/{password}'', ''401 until those credentials arrive''),
     (''/cookies, /cookies/set?a=b'', ''cookie round-trip''),
     (''/cache'', ''conditional GET: ETag and Last-Modified, 304 on revalidation''),
     (''/cache/{seconds}'', ''a cacheable response with max-age''),
     (''/hostile/...'', ''responses that are wrong on purpose; GET /hostile for the list'')]"

definition hostileIndex :: "(string \<times> string) list" where
  "hostileIndex =
    [(''/hostile/no-response'', ''accepts the connection and closes it, writing nothing''),
     (''/hostile/reset?after='', ''headers, part of a body, then RST''),
     (''/hostile/truncated-body?promised=&sent='', ''fewer body bytes than Content-Length promised''),
     (''/hostile/truncated-chunks'', ''chunks with no terminating zero-length chunk''),
     (''/hostile/invalid-chunk-size'', ''a chunk size that is not hexadecimal''),
     (''/hostile/invalid-status-line'', ''a four-digit status code''),
     (''/hostile/duplicate-content-length'', ''two Content-Length headers that disagree''),
     (''/hostile/content-length-and-chunked'', ''both framings at once''),
     (''/hostile/slow-headers?delay='', ''the response head, one byte at a time''),
     (''/hostile/huge-header?size='', ''a response header far past any sane limit''),
     (''/hostile/informational-storm?count='', ''a run of 100 Continue before the real response''),
     (''/hostile/half-close'', ''a complete response, then the write half shut'')]"

definition writeLines :: "nat \<Rightarrow> (string \<times> string) list \<Rightarrow> writer \<Rightarrow> writer" where
  "writeLines width docs w =
     foldl (\<lambda>w (path, description). writeBody (''  '' @ padRight width path @ '' '' @ description @ [CHR 0x0A]) w) w docs"

definition indexHandler :: "'tls request \<Rightarrow> writer \<Rightarrow> writer" where
  "indexHandler r w =
     (let w = setHeader ''Content-Type'' ''text/plain; charset=utf-8'' w;
          w = writeBody (''okhttp-testbed test-server'' @ [CHR 0x0A, CHR 0x0A]) w;
          w = writeBody (''Reached over '' @ reqProto r @ '' as '' @ baseURL r @ [CHR 0x0A, CHR 0x0A]) w
      in writeLines 34 endpointIndex w)"

definition hostileListHandler :: "writer \<Rightarrow> writer" where
  "hostileListHandler w = writeLines 38 hostileIndex (setHeader ''Content-Type'' ''text/plain; charset=utf-8'' w)"

subsection \<open>Dispatch\<close>

fun handle :: "host \<Rightarrow> hijack \<Rightarrow> server \<Rightarrow> endpoint \<Rightarrow> req \<Rightarrow> writer \<Rightarrow> outcome" where
  "handle host hj s Health r w = Responded (health w)"
| "handle host hj s Info r w = Responded (info host s r w)"
| "handle host hj s CaPEM r w = Responded (caPEMHandler host s w)"
| "handle host hj s ClientPEM r w = Responded (clientPEMHandler host s w)"
| "handle host hj s Tls r w = Responded (tlsInfo host s r w)"
| "handle host hj s Anything r w = Responded (anything host s r w)"
| "handle host hj s Headers r w = Responded (headersHandler r w)"
| "handle host hj s Status r w = Responded (status host r w)"
| "handle host hj s (Redirect absolute) r w = Responded (redirect absolute r w)"
| "handle host hj s RedirectTo r w = Responded (redirectTo r w)"
| "handle host hj s Delay r w = Responded (delay host s r w)"
| "handle host hj s Bytes r w = Responded (bytes host r w)"
| "handle host hj s Stream r w = Responded (stream host r w)"
| "handle host hj s Drip r w = Responded (drip host r w)"
| "handle host hj s (Compressed enc) r w = Responded (compressed host enc r w)"
| "handle host hj s Trailers r w = Responded (trailers host r w)"
| "handle host hj s BasicAuth r w = Responded (basicAuth r w)"
| "handle host hj s Cookies r w = Responded (cookies r w)"
| "handle host hj s SetCookies r w = Responded (setCookies r w)"
| "handle host hj s Cache r w = Responded (cache host r w)"
| "handle host hj s CacheControl r w = Responded (cacheControl r w)"
| "handle host hj s HostileList r w = Responded (hostileListHandler w)"
| "handle host hj s (HostileAt h) r w = hijacked hj (\<lambda>tcp r. hostileWrite host tcp h (urlQuery r)) r w"
| "handle host hj s Index r w = Responded (indexHandler r w)"

definition methodMatches :: "string \<Rightarrow> string \<Rightarrow> bool" where
  "methodMatches pattern_method verb \<longleftrightarrow>
     pattern_method = [] \<or> pattern_method = verb \<or> pattern_method = ''GET'' \<and> verb = ''HEAD''"

text \<open>
  \<open>ServeMux.ServeHTTP\<close>: what the mux answers itself, else the matching route; a path known for other
  methods only is 405 with \<open>Allow\<close> (here always \<open>GET, HEAD\<close>), any other path 404.  No pattern ends in a slash,
  so none is added to a path.
\<close>

definition serveMux :: "(string \<Rightarrow> string) \<Rightarrow> host \<Rightarrow> hijack \<Rightarrow> server \<Rightarrow> req \<Rightarrow> writer \<Rightarrow> outcome" where
  "serveMux unescape host hj s r w =
     (case muxOwn r w of
        Some w' \<Rightarrow> Responded w'
      | None \<Rightarrow>
          (let ss = segmentsOf unescape (escapedPath r)
           in case find (\<lambda>(m, p, e). matchSegs p ss \<noteq> None \<and> methodMatches m (reqMethod r)) routes of
                Some (m, p, e) \<Rightarrow>
                  handle host hj s e (r\<lparr>pathValues := (case matchSegs p ss of Some vs \<Rightarrow> vs | None \<Rightarrow> [])\<rparr>) w
              | None \<Rightarrow>
                  (if list_ex (\<lambda>(m, p, e). matchSegs p ss \<noteq> None) routes
                   then Responded (httpError ''Method Not Allowed'' 405 (setHeader ''Allow'' ''GET, HEAD'' w))
                   else Responded (httpError ''404 page not found'' 404 w))))"

text \<open>\<open>logRequests\<close>: the response of the handler it wraps, and the line it logs, up to the duration.\<close>

definition logRequests :: "(req \<Rightarrow> writer \<Rightarrow> outcome) \<Rightarrow> req \<Rightarrow> writer \<Rightarrow> outcome \<times> string" where
  "logRequests handler r w =
     (handler r w, scheme r @ '' '' @ reqProto r @ '' '' @ reqMethod r @ '' '' @ requestURI r @ '' '')"

definition handler :: "(string \<Rightarrow> string) \<Rightarrow> host \<Rightarrow> hijack \<Rightarrow> server \<Rightarrow> req \<Rightarrow> writer \<Rightarrow> outcome \<times> string" where
  "handler unescape host hj s = logRequests (serveMux unescape host hj s)"

subsection \<open>No two routes match one path\<close>

fun overlap :: "segment list \<Rightarrow> segment list \<Rightarrow> bool" where
  "overlap [] [] = True"
| "overlap [] (q # qs) = False"
| "overlap (p # ps) [] = False"
| "overlap (Lit a # ps) (Lit b # qs) = (a = b \<and> overlap ps qs)"
| "overlap (Lit a # ps) (Wild n # qs) = overlap ps qs"
| "overlap (Wild n # ps) (Lit b # qs) = overlap ps qs"
| "overlap (Wild n # ps) (Wild m # qs) = overlap ps qs"
| "overlap (EndMark # ps) (Lit b # qs) = (b = ''/'')"
| "overlap (Lit b # ps) (EndMark # qs) = (b = ''/'')"
| "overlap (EndMark # ps) (Wild n # qs) = False"
| "overlap (Wild n # ps) (EndMark # qs) = False"
| "overlap (p # ps) (q # qs) = True"

lemma match_overlap: "matchSegs p ss \<noteq> None \<Longrightarrow> matchSegs q ss \<noteq> None \<Longrightarrow> overlap p q"
  by (induction p q arbitrary: ss rule: overlap.induct; case_tac ss; auto split: if_splits)

definition patterns :: "segment list list" where
  "patterns = map (\<lambda>(m, p, e). p) routes"

lemma patterns_disjoint: "sorted_wrt (\<lambda>p q. \<not> overlap p q) patterns"
  by (simp add: patterns_def routes_def hostileRoutes_def)

lemma at_most_one:
  "sorted_wrt R xs \<Longrightarrow> (\<And>x y. R x y \<Longrightarrow> \<not> (P x \<and> P y)) \<Longrightarrow> length (filter P xs) \<le> 1"
proof (induction xs)
  case (Cons x xs)
  show ?case
  proof (cases "P x")
    case True
    with Cons.prems have "filter P xs = []" by (auto simp: filter_empty_conv)
    with True show ?thesis by simp
  next
    case False
    with Cons show ?thesis by simp
  qed
qed simp

lemma routes_disjoint: "length (filter (\<lambda>(m, p, e). matchSegs p ss \<noteq> None) routes) \<le> 1"
proof -
  have "length (filter (\<lambda>p. matchSegs p ss \<noteq> None) patterns) \<le> 1"
    using patterns_disjoint by (rule at_most_one) (use match_overlap in blast)
  then show ?thesis by (simp add: patterns_def filter_map o_def case_prod_unfold)
qed

text \<open>
  C21: routing is unambiguous.  Whatever the path, at most one registered pattern matches it, so which
  handler answers depends neither on the order of registration nor on precedence between patterns.
\<close>

theorem routes_unambiguous:
  "length (filter (\<lambda>(m, p, e). matchSegs p ss \<noteq> None) routes) \<le> 1"
  by (rule routes_disjoint)

subsection \<open>Reaching a route\<close>

lemma find_unique:
  assumes "length (filter Q xs) \<le> 1" "x \<in> set xs" "P x" "\<And>y. P y \<Longrightarrow> Q y"
  shows "find P xs = Some x"
  using assms(1,2)
proof (induction xs)
  case (Cons y ys)
  show ?case
  proof (cases "P y")
    case True
    have "x = y"
    proof (rule ccontr)
      assume "x \<noteq> y"
      with Cons.prems(2) have "x \<in> set (filter Q ys)" using assms(3,4) by auto
      moreover from True assms(4) Cons.prems(1) have "filter Q ys = []" by auto
      ultimately show False by simp
    qed
    with True show ?thesis by simp
  next
    case False
    with Cons assms(3) show ?thesis by (auto split: if_splits)
  qed
qed simp

lemma serveMux_route:
  assumes "(m, p, e) \<in> set routes" "matchSegs p (segmentsOf unescape (escapedPath r)) = Some vs"
    and "methodMatches m (reqMethod r)" "requestURI r \<noteq> ''*''" "\<not> needsCleaning r"
  shows "serveMux unescape host hj s r w = handle host hj s e (r\<lparr>pathValues := vs\<rparr>) w"
proof -
  have "find (\<lambda>(m, p, e). matchSegs p (segmentsOf unescape (escapedPath r)) \<noteq> None \<and> methodMatches m (reqMethod r)) routes
      = Some (m, p, e)"
    using assms by (intro find_unique [OF routes_disjoint]) auto
  moreover have "muxOwn r w = None" using assms(4,5) by (simp add: muxOwn_None)
  ultimately show ?thesis using assms(2) by (simp add: serveMux_def)
qed

subsection \<open>Redirect chains\<close>

text \<open>
  A client that follows redirects: the paths it asks for, one after the other.  An absolute
  location on the server itself is followed on the server.
\<close>

definition resolve :: "string \<Rightarrow> string \<Rightarrow> string" where
  "resolve base location = (if prefix base location then drop (length base) location else location)"

definition getPath :: "req \<Rightarrow> string \<Rightarrow> req" where
  "getPath r path = r\<lparr>reqMethod := ''GET'', urlPath := path, requestURI := path\<rparr>"

fun follow :: "(req \<Rightarrow> outcome) \<Rightarrow> req \<Rightarrow> nat \<Rightarrow> string \<Rightarrow> string list" where
  "follow serve r 0 path = [path]"
| "follow serve r (Suc n) path =
     path # (case serve (getPath r path) of
               Hijacked _ \<Rightarrow> []
             | Responded w \<Rightarrow>
                 (if statusOf w = Some 302
                  then (case sentHeader w ''Location'' of
                          None \<Rightarrow> []
                        | Some l \<Rightarrow> follow serve r n (resolve (baseURL r) l))
                  else []))"

lemma getPath_fields [simp]:
  "urlPath (getPath r p) = p" "reqMethod (getPath r p) = ''GET''" "baseURL (getPath r p) = baseURL r"
  "reqBody (getPath r p) = reqBody r"
  by (auto simp: getPath_def baseURL_def scheme_def)

text \<open>A path of plain segments is served as it is.\<close>

lemma getPath_plain:
  assumes "ss \<noteq> []" "\<forall>s \<in> set ss. plainSegment s \<and> CHR ''?'' \<notin> set s"
  shows "escapedPath (getPath r (CHR ''/'' # join ''/'' ss)) = CHR ''/'' # join ''/'' ss"
    "requestURI (getPath r (CHR ''/'' # join ''/'' ss)) \<noteq> ''*''" "\<not> needsCleaning (getPath r (CHR ''/'' # join ''/'' ss))"
proof -
  have "CHR ''?'' \<notin> set (join ''/'' ss)" using assms(2) by (induction "''/''" ss rule: join.induct) auto
  then have "takeWhile (\<lambda>c. c \<noteq> CHR ''?'') (join ''/'' ss) = join ''/'' ss" by (auto simp: takeWhile_eq_all_conv)
  then show path: "escapedPath (getPath r (CHR ''/'' # join ''/'' ss)) = CHR ''/'' # join ''/'' ss"
    by (simp add: escapedPath_def getPath_def)
  show "requestURI (getPath r (CHR ''/'' # join ''/'' ss)) \<noteq> ''*''" by (simp add: getPath_def)
  show "\<not> needsCleaning (getPath r (CHR ''/'' # join ''/'' ss))"
    using cleanPath_id assms by (simp add: needsCleaning_def path)
qed

lemma redirect_served:
  assumes "1 \<le> n" "n \<le> 100" "\<And>x. CHR ''%'' \<notin> set x \<Longrightarrow> unescape x = x"
    and "absolute \<longleftrightarrow> name = ''absolute-redirect''" "name \<in> {''redirect'', ''absolute-redirect''}"
  shows "serveMux unescape host hj s (getPath r (''/'' @ name @ ''/'' @ formatNat n)) newWriter =
    Responded (writeHeader 302 (setHeader ''Location''
      ((if absolute then baseURL r else []) @
       (if n = 1 then ''/anything'' else ''/'' @ name @ ''/'' @ formatNat (n - 1))) newWriter))"
proof -
  have no_percent: "CHR ''%'' \<notin> set (formatNat n)"
    using list_all_isDigit_formatNat [of n] by (auto simp: list_all_iff isDigit_def)
  have name: "CHR ''/'' \<notin> set name" "CHR ''%'' \<notin> set name" "name \<noteq> []" using assms(5) by auto
  have "split (CHR ''/'') (name @ CHR ''/'' # formatNat n) = [name, formatNat n]"
    using name(1) formatNat_no_slash by (simp add: split_append_sep split_no_sep)
  then have segs: "segmentsOf unescape (''/'' @ name @ ''/'' @ formatNat n) = [name, formatNat n]"
    using assms(3) name no_percent by (simp add: segmentsOf_def)
  have "plainSegment name" "plainSegment (formatNat n)" "CHR ''?'' \<notin> set name" "CHR ''?'' \<notin> set (formatNat n)"
    using assms(5) list_all_isDigit_formatNat [of n] by (auto simp: plainSegment_def list_all_iff isDigit_def)
  then have plain: "escapedPath (getPath r (''/'' @ name @ ''/'' @ formatNat n)) = ''/'' @ name @ ''/'' @ formatNat n"
      "requestURI (getPath r (''/'' @ name @ ''/'' @ formatNat n)) \<noteq> ''*''"
      "\<not> needsCleaning (getPath r (''/'' @ name @ ''/'' @ formatNat n))"
    using getPath_plain [of "[name, formatNat n]" r] by simp_all
  have "(''GET'', [Lit name, Wild ''count''], Redirect absolute) \<in> set routes"
    using assms(4,5) by (auto simp: routes_def)
  moreover have "formatNat n \<noteq> ''/''" using formatNat_no_slash [of n] by auto
  ultimately have "serveMux unescape host hj s (getPath r (''/'' @ name @ ''/'' @ formatNat n)) newWriter
      = handle host hj s (Redirect absolute)
          ((getPath r (''/'' @ name @ ''/'' @ formatNat n))\<lparr>pathValues := [(''count'', formatNat n)]\<rparr>) newWriter"
    using segs plain
    by (intro serveMux_route [of "''GET''" "[Lit name, Wild ''count'']"]) (simp_all del: append_Cons append_Nil add: methodMatches_def)
  moreover have "baseURL ((getPath r p)\<lparr>pathValues := v\<rparr>) = baseURL r" for p v
    by (auto simp: getPath_def baseURL_def scheme_def)
  ultimately show ?thesis
    using redirect_step [of "(getPath r (''/'' @ name @ ''/'' @ formatNat n))\<lparr>pathValues := [(''count'', formatNat n)]\<rparr>" name n absolute]
      name(1) assms(1,2)
    by (simp add: pathValue_def)
qed

lemma anything_not_redirect: "statusOf (anything host s r newWriter) \<noteq> Some 302"
proof (cases "readBody r")
  case (Ok bt)
  obtain b tr where "bt = (b, tr)" by (cases bt)
  with Ok writeJSON_response(1) [of newWriter 200] show ?thesis
    by (simp add: anything_def bodyAllowedForStatus_def)
next
  case (Err e)
  with httpError_on_fresh(1) [of newWriter 400] show ?thesis by (simp add: anything_def bodyAllowedForStatus_def)
next
  case Panic
  then show ?thesis by (simp add: anything_def statusOf_def)
qed

lemma anything_served:
  assumes "\<And>x. CHR ''%'' \<notin> set x \<Longrightarrow> unescape x = x"
  shows "\<exists>w. serveMux unescape host hj s (getPath r ''/anything'') newWriter = Responded w \<and> statusOf w \<noteq> Some 302"
proof -
  have "([], [Lit ''anything''], Anything) \<in> set routes" by (simp add: routes_def)
  moreover have "segmentsOf unescape ''/anything'' = [''anything'']"
    using assms [of "''anything''"] by (simp add: segmentsOf_def)
  ultimately show ?thesis
    using anything_not_redirect getPath_plain [of "[''anything'']" r]
    by (subst serveMux_route [of "[]" "[Lit ''anything'']" Anything]) (simp_all add: methodMatches_def plainSegment_def)
qed

lemma resolve_base: "resolve base ((if absolute then base else []) @ CHR ''/'' # p) = CHR ''/'' # p"
  if "base = sch @ ''://'' @ h" "sch \<noteq> []" "hd sch \<noteq> CHR ''/''" for base sch h :: string
  using that by (cases sch) (auto simp: resolve_def)

text \<open>
  C8: redirect chains end where they should.  A client that follows redirects from \<open>/redirect/n\<close> or
  \<open>/absolute-redirect/n\<close>, for n from 1 to 100, asks for n, n-1, down to 1 and then \<open>/anything\<close>, and is
  redirected no further; with absolute locations every hop stays on the host and port the request was
  made to.
\<close>

theorem redirect_chain:
  assumes "1 \<le> n" "n \<le> 100" "n < fuel" "\<And>x. CHR ''%'' \<notin> set x \<Longrightarrow> unescape x = x"
    and "name = ''redirect'' \<or> name = ''absolute-redirect''"
    and "scheme r \<noteq> []" "hd (scheme r) \<noteq> CHR ''/''"
  shows "follow (\<lambda>q. serveMux unescape host hj s q newWriter) r fuel (''/'' @ name @ ''/'' @ formatNat n)
    = map (\<lambda>k. ''/'' @ name @ ''/'' @ formatNat k) (rev [1..<Suc n]) @ [''/anything'']"
  using assms(1-3)
proof (induction n arbitrary: fuel)
  case (Suc n)
  define absolute where "absolute = (name = ''absolute-redirect'')"
  obtain m where fuel: "fuel = Suc m" using Suc.prems(3) by (cases fuel) auto
  let ?next = "if Suc n = 1 then ''/anything'' else ''/'' @ name @ ''/'' @ formatNat n"
  have served: "serveMux unescape host hj s (getPath r (''/'' @ name @ ''/'' @ formatNat (Suc n))) newWriter =
      Responded (writeHeader 302 (setHeader ''Location'' ((if absolute then baseURL r else []) @ ?next) newWriter))"
    using redirect_served [OF Suc.prems(1,2) assms(4), of absolute name] assms(5) by (auto simp: absolute_def)
  have "\<exists>p. ?next = CHR ''/'' # p" by simp
  then have "resolve (baseURL r) ((if absolute then baseURL r else []) @ ?next) = ?next"
    using resolve_base [of "baseURL r" "scheme r" "reqHost r" absolute] assms(6,7) by (auto simp: baseURL_def)
  then have step: "follow (\<lambda>q. serveMux unescape host hj s q newWriter) r fuel (''/'' @ name @ ''/'' @ formatNat (Suc n))
      = (''/'' @ name @ ''/'' @ formatNat (Suc n)) # follow (\<lambda>q. serveMux unescape host hj s q newWriter) r m ?next"
    unfolding fuel follow.simps served by (simp only: outcome.case redirect_response option.case simp_thms if_True)
  show ?case
  proof (cases "n = 0")
    case True
    obtain k where "m = Suc k" using Suc.prems(3) fuel True by (cases m) auto
    moreover obtain w where "serveMux unescape host hj s (getPath r ''/anything'') newWriter = Responded w"
        "statusOf w \<noteq> Some 302"
      using anything_served [OF assms(4)] by blast
    ultimately have "follow (\<lambda>q. serveMux unescape host hj s q newWriter) r m ''/anything'' = [''/anything'']" by simp
    with step True show ?thesis by simp
  next
    case False
    then have "follow (\<lambda>q. serveMux unescape host hj s q newWriter) r m (''/'' @ name @ ''/'' @ formatNat n)
        = map (\<lambda>k. ''/'' @ name @ ''/'' @ formatNat k) (rev [1..<Suc n]) @ [''/anything'']"
      using Suc.prems fuel by (intro Suc.IH) auto
    with step False show ?thesis by (simp del: append_Cons)
  qed
qed simp

lemma redirect_chain_witness:
  "follow (\<lambda>q. serveMux id exampleHost NotHijacker exampleServer q newWriter) exampleRequest 5
     (''/'' @ ''absolute-redirect'' @ ''/'' @ formatNat 2)
   = [''/absolute-redirect/'' @ formatNat 2, ''/absolute-redirect/'' @ formatNat 1, ''/anything'']"
proof -
  have "scheme exampleRequest = ''https''" by (simp add: scheme_def exampleRequest_def)
  then have chain: "follow (\<lambda>q. serveMux id exampleHost NotHijacker exampleServer q newWriter) exampleRequest 5
      (''/'' @ ''absolute-redirect'' @ ''/'' @ formatNat 2)
      = map (\<lambda>k. ''/'' @ ''absolute-redirect'' @ ''/'' @ formatNat k) (rev [1..<Suc 2]) @ [''/anything'']"
    by (intro redirect_chain) simp_all
  have "rev [1..<Suc 2] = [2, 1 :: nat]" by (simp add: upt_conv_Cons)
  with chain show ?thesis by simp
qed

end
