(* ===== verification/Panic_Freedom.thy ===== *)
theory Panic_Freedom
  imports Router
begin

text \<open>
  No request makes \<open>test-server\<close> panic.  The panics of the model are those the code could raise: a status
  code that \<open>WriteHeader\<close> refuses, an index or a slice out of range (\<open>queryInt\<close>, \<open>queryDuration\<close>,
  \<open>readBody\<close>, \<open>redirect\<close>), \<open>make\<close> or \<open>strings.Repeat\<close> with a negative count (\<open>bytes\<close>, the hostile endpoints) and
  a division by zero (\<open>drip\<close>).  On a response writer they set \<open>wPanic\<close>, on a hijacked connection they are the
  action \<open>Panics\<close>.  Pointers that may be nil are options, which the model cannot dereference unchecked.
  Every operation on the response writer is shown
  to leave that flag alone, then every handler, then the dispatch over all routes.
\<close>

named_theorems quiet \<open>operations that do not panic\<close>

subsection \<open>The writer\<close>

lemma writeHeader_quiet [quiet]: "100 \<le> code \<Longrightarrow> code \<le> 999 \<Longrightarrow> wPanic (writeHeader code w) = wPanic w"
  by (simp add: writeHeader_def)

lemma ensureHeader_quiet [quiet]: "wPanic (ensureHeader w) = wPanic w"
  by (simp add: ensureHeader_def quiet)

lemma writeBody_quiet [quiet]: "wPanic (writeBody data w) = wPanic w"
  using ensureHeader_quiet [of w] by (auto simp: writeBody_def Let_def split: option.splits)

lemma flush_quiet [quiet]: "wPanic (flush w) = wPanic w"
  by (simp add: flush_def Let_def quiet)

lemma httpError_quiet [quiet]: "100 \<le> code \<Longrightarrow> code \<le> 999 \<Longrightarrow> wPanic (httpError msg code w) = wPanic w"
  by (simp add: httpError_def Let_def quiet)

lemma writeJSON_quiet [quiet]: "100 \<le> code \<Longrightarrow> code \<le> 999 \<Longrightarrow> wPanic (writeJSON code body w) = wPanic w"
  by (simp add: writeJSON_def marshalIndent_def Let_def quiet)

lemma waitFor_quiet [quiet]: "wPanic (fst (waitFor gone d w)) = wPanic w"
  by (simp add: waitFor_def)

text \<open>Loops over the writer: an operation that does not panic can be repeated.\<close>

locale quiet_operation =
  fixes op :: "'a \<Rightarrow> writer \<Rightarrow> writer"
  assumes op_quiet: "wPanic (op a w) = wPanic w"
begin

lemma foldl_quiet: "wPanic (foldl (\<lambda>w a. op a w) w xs) = wPanic w"
  by (induction xs arbitrary: w) (simp_all add: op_quiet)

end

interpretation line: quiet_operation "\<lambda>(path, description). writeBody (''  '' @ padRight n path @ '' '' @ description @ [CHR 0x0A])"
  by unfold_locales (simp add: quiet split: prod.splits)

interpretation streamed: quiet_operation "\<lambda>i w. flush (writeBody (streamLine host r i) w)"
  by unfold_locales (simp add: quiet)

interpretation cookie: quiet_operation "\<lambda>v. setCookie name v"
  by unfold_locales (simp add: setCookie_def Let_def)

interpretation cookies: quiet_operation "\<lambda>(name, values) w. foldl (\<lambda>w v. setCookie name v w) w values"
  by unfold_locales (simp add: cookie.foldl_quiet split: prod.splits)

subsection \<open>The handlers\<close>

lemma information_quiet [quiet]:
  "wPanic (health w) = wPanic w" "wPanic (info host s r w) = wPanic w" "wPanic (caPEMHandler host s w) = wPanic w"
  "wPanic (clientPEMHandler host s w) = wPanic w" "wPanic (tlsInfo host s r w) = wPanic w"
  "wPanic (headersHandler r w) = wPanic w"
  by (simp_all add: health_def info_def caPEMHandler_def clientPEMHandler_def tlsInfo_def headersHandler_def quiet
      split: option.splits)

lemma readBody_no_panic: "readBody r \<noteq> Panic"
  by (auto simp: readBody_def readLimited_def slice_def split: option.splits if_splits)

lemma anything_quiet [quiet]: "wPanic (anything host s r w) = wPanic w"
  using readBody_no_panic [of r] by (auto simp: anything_def quiet split: result.splits)

lemma status_quiet [quiet]: "wPanic (status host r w) = wPanic w"
  by (auto simp: status_def Let_def quiet split: option.splits)

lemma redirect_quiet [quiet]: "CHR ''/'' \<in> set (urlPath r) \<Longrightarrow> wPanic (redirect absolute r w) = wPanic w"
  by (auto simp: redirect_def beforeLastSlash_def bindR_def Let_def quiet split: option.splits)

lemma redirectTo_quiet [quiet]: "wPanic (redirectTo r w) = wPanic w"
  by (auto simp: redirectTo_def Let_def quiet split: option.splits)

lemma delay_quiet [quiet]: "wPanic (delay host s r w) = wPanic w"
  by (auto simp: delay_def waitFor_def quiet split: option.splits)

lemma bytes_quiet [quiet]: "(\<And>n. randRead host n \<noteq> Panic) \<Longrightarrow> wPanic (bytes host r w) = wPanic w"
  by (auto simp: bytes_def Let_def quiet split: option.splits result.splits)

lemma stream_quiet [quiet]: "wPanic (stream host r w) = wPanic w"
  by (auto simp: stream_def quiet streamed.foldl_quiet split: option.splits)

lemma dripLoop_quiet [quiet]: "wPanic (dripLoop host pause n w) = wPanic w"
  by (induction host pause n w rule: dripLoop.induct) (auto simp: waitFor_def quiet)

lemma drip_quiet [quiet]: "wPanic (drip host r w) = wPanic w"
  by (auto simp: drip_def dripBody_def waitFor_def Let_def quiet)

lemma body_handlers_quiet [quiet]:
  "wPanic (compressed host enc r w) = wPanic w" "wPanic (trailers host r w) = wPanic w"
  "wPanic (basicAuth r w) = wPanic w" "wPanic (cookies r w) = wPanic w"
  "wPanic (cache host r w) = wPanic w" "wPanic (cacheControl r w) = wPanic w"
  by (auto simp: compressed_def marshal_def trailers_def basicAuth_def cookies_def cache_def cacheControl_def Let_def quiet
      split: option.splits)

lemma setCookies_quiet [quiet]: "wPanic (setCookies r w) = wPanic w"
  using cookies.foldl_quiet [of w "urlQuery r"]
  by (simp add: setCookies_def Let_def quiet case_prod_unfold)

lemma writeLines_quiet [quiet]: "wPanic (writeLines n docs w) = wPanic w"
  using line.foldl_quiet [of n w docs] by (simp add: writeLines_def case_prod_unfold)

lemma pages_quiet [quiet]: "wPanic (indexHandler r w) = wPanic w" "wPanic (hostileListHandler w) = wPanic w"
  by (simp_all add: indexHandler_def hostileListHandler_def Let_def quiet)

subsection \<open>Dispatch\<close>

definition outcomePanics :: "outcome \<Rightarrow> bool" where
  "outcomePanics out = (case out of Responded w \<Rightarrow> wPanic w | Hijacked as \<Rightarrow> Panics \<in> set as)"

lemma handle_quiet:
  assumes "\<And>n. randRead host n \<noteq> Panic" "\<And>a. e = Redirect a \<Longrightarrow> CHR ''/'' \<in> set (urlPath r)"
  shows "outcomePanics (handle host hj s e r newWriter) = False"
  using assms
  by (cases e) (auto simp: outcomePanics_def hijacked_def hostileWrite_no_panic quiet split: hijack.splits)

lemma redirect_routes:
  "(m, p, Redirect a) \<in> set routes \<Longrightarrow> \<exists>name. p = [Lit name, Wild ''count'']"
  by (auto simp: routes_def hostileRoutes_def)

lemma two_segments:
  assumes "matchSegs [Lit name, Wild n] (segmentsOf unescape path) \<noteq> None"
  shows "CHR ''/'' \<in> set path"
proof (rule ccontr)
  assume "CHR ''/'' \<notin> set path"
  then have "CHR ''/'' \<notin> set (tl path)" by (cases path) auto
  with assms show False by (simp add: segmentsOf_def split_no_sep split: if_splits)
qed

lemma muxOwn_quiet: "muxOwn r w = Some w' \<Longrightarrow> wPanic w' = wPanic w"
  by (auto simp: muxOwn_def redirectMoved_def Let_def quiet split: if_splits)

text \<open>What \<open>net/url\<close> promises of a parsed request URI: unescaping a path keeps its slashes.\<close>

definition decodesPath :: "'tls request \<Rightarrow> bool" where
  "decodesPath r \<longleftrightarrow> (CHR ''/'' \<in> set (escapedPath r) \<longrightarrow> CHR ''/'' \<in> set (urlPath r))"

lemma serveMux_quiet:
  assumes "\<And>n. randRead host n \<noteq> Panic" "decodesPath r"
  shows "\<not> outcomePanics (serveMux unescape host hj s r newWriter)"
proof (cases "muxOwn r newWriter")
  case (Some w)
  then have "\<not> wPanic w" using muxOwn_quiet by fastforce
  with Some show ?thesis by (simp add: serveMux_def outcomePanics_def)
next
  case own: None
  let ?ss = "segmentsOf unescape (escapedPath r)"
  let ?match = "\<lambda>(m, p, e). matchSegs p ?ss \<noteq> None \<and> methodMatches m (reqMethod r)"
  show ?thesis
  proof (cases "find ?match routes")
    case None
    with own show ?thesis by (simp add: serveMux_def Let_def outcomePanics_def quiet)
  next
    case (Some found)
    obtain m p e where found: "found = (m, p, e)" by (cases found) auto
    have "found \<in> set routes \<and> ?match found"
      using Some unfolding find_Some_iff by (metis nth_mem)
    then have route: "(m, p, e) \<in> set routes" "matchSegs p ?ss \<noteq> None" by (simp_all add: found)
    have "CHR ''/'' \<in> set (urlPath r)" if "e = Redirect a" for a
      using redirect_routes [of m p a] route that two_segments assms(2) unfolding decodesPath_def by blast
    then have "\<not> outcomePanics (handle host hj s e (r\<lparr>pathValues := vs\<rparr>) newWriter)" for vs
      using handle_quiet [OF assms(1), of e "r\<lparr>pathValues := vs\<rparr>" hj s] by simp
    with own Some found show ?thesis by (simp add: serveMux_def Let_def)
  qed
qed

text \<open>
  C3: no request makes a handler panic.  Whatever the method, path, query, headers and body, and
  whatever the state of the server, the handler that \<open>ServeMux\<close> picks, on a hijacked connection too, does not
  index or slice out of range, does not ask \<open>make\<close> or \<open>strings.Repeat\<close> for a negative length, does not divide by
  zero and writes no status that \<open>net/http\<close> refuses.  The two hypotheses are that the system's entropy source
  does not panic and that the decoded path has the slashes of the escaped one.
\<close>

theorem requests_never_panic:
  assumes "\<And>n. randRead host n \<noteq> Panic" "decodesPath r"
  shows "\<not> outcomePanics (fst (handler unescape host hj s r newWriter))"
  using serveMux_quiet [OF assms] by (simp add: handler_def logRequests_def)

lemma requests_never_panic_witness:
  "\<not> outcomePanics (fst (handler id exampleHost NotHijacker exampleServer
     (exampleRequest\<lparr>reqMethod := ''GET'', urlPath := ''/redirect/7'', requestURI := ''/redirect/7''\<rparr>) newWriter))"
  by (rule requests_never_panic) (simp_all add: exampleHost_def decodesPath_def)

end
