(* ===== verification/Listeners.thy ===== *)
theory Listeners
  imports Handshake
begin

text \<open>
  The listeners of \<open>test-server\<close>: the TLS configurations (\<open>tls.go\<close>: \<open>tlsServerWith\<close>, \<open>mtlsServer\<close>,
  \<open>perVersionListeners\<close>, \<open>obsoleteCipherSuites\<close>), the bad-chain addresses (\<open>badchains.go\<close>), and \<open>main\<close>
  from the loaded certificates to the started servers, with what \<open>serve\<close> makes of a run function's result.

  \<open>insecure\<close> and \<open>modern\<close> are the suites of \<open>tls.InsecureCipherSuites\<close> and \<open>tls.CipherSuites\<close>; \<open>listen\<close>
  is \<open>net.Listen\<close>.  The theorems relate the table that \<open>/info\<close> reports to the servers that run.
\<close>

subsection \<open>Server configurations\<close>

record tlsVersions =
  vMin :: u16
  vMax :: u16

datatype clientAuth = RequestClientCert | RequireAndVerifyClientCert

text \<open>A field that is zero or empty leaves the choice to \<open>crypto/tls\<close>.\<close>

record tlsConfig =
  cfgCertificates :: "tlsCertificate list"
  cfgMinVersion :: u16
  cfgMaxVersion :: u16
  cfgClientAuth :: clientAuth
  cfgClientCAs :: "certificate list option"
  cfgCipherSuites :: "u16 list"
  cfgCurvePreferences :: "u16 list"
  cfgCapturesHello :: bool

record httpServer =
  srvAddr :: string
  srvTLS :: "tlsConfig option"
  srvReadHeaderTimeout :: int
  srvHTTP2 :: bool
  srvDropsHello :: bool

definition obsoleteCipherSuites :: "u16 list \<Rightarrow> u16 list \<Rightarrow> u16 list" where
  "obsoleteCipherSuites insecure modern = insecure @ modern"

definition tlsServerWith ::
    "u16 list \<times> u16 list \<Rightarrow> string \<Rightarrow> tlsVersions \<Rightarrow> bool \<Rightarrow> tlsCertificate \<Rightarrow> httpServer" where
  "tlsServerWith goSuites addr versions http2 cert =
     (let config = \<lparr>cfgCertificates = [cert], cfgMinVersion = versionTLS12, cfgMaxVersion = 0,
                    cfgClientAuth = RequestClientCert, cfgClientCAs = None, cfgCipherSuites = [],
                    cfgCurvePreferences = [], cfgCapturesHello = False\<rparr>;
          config = (if vMin versions \<noteq> 0
                    then config\<lparr>cfgMinVersion := vMin versions, cfgMaxVersion := vMax versions\<rparr> else config);
          config = (if vMin versions \<le> versionTLS11 \<and> vMin versions \<noteq> 0
                    then config\<lparr>cfgCipherSuites := obsoleteCipherSuites (fst goSuites) (snd goSuites)\<rparr> else config);
          config = config\<lparr>cfgCapturesHello := True\<rparr>
      in \<lparr>srvAddr = addr, srvTLS = Some config, srvReadHeaderTimeout = 30 * 1000000000,
          srvHTTP2 = http2, srvDropsHello = True\<rparr>)"

definition tlsServer :: "u16 list \<times> u16 list \<Rightarrow> server \<Rightarrow> string \<Rightarrow> tlsVersions \<Rightarrow> bool \<Rightarrow> httpServer" where
  "tlsServer goSuites s addr versions http2 = tlsServerWith goSuites addr versions http2 (leaf (certs s))"

definition noVersions :: tlsVersions where
  "noVersions = \<lparr>vMin = 0, vMax = 0\<rparr>"

definition mapTLS :: "(tlsConfig \<Rightarrow> tlsConfig) \<Rightarrow> httpServer \<Rightarrow> httpServer" where
  "mapTLS f srv = srv\<lparr>srvTLS := map_option f (srvTLS srv)\<rparr>"

definition mtlsServer :: "u16 list \<times> u16 list \<Rightarrow> server \<Rightarrow> string \<Rightarrow> httpServer" where
  "mtlsServer goSuites s addr =
     mapTLS (\<lambda>c. c\<lparr>cfgClientAuth := RequireAndVerifyClientCert, cfgClientCAs := clientCAs (certs s)\<rparr>)
       (tlsServerWith goSuites addr noVersions False (leaf (certs s)))"

definition plainServer :: "string \<Rightarrow> httpServer" where
  "plainServer addr =
     \<lparr>srvAddr = addr, srvTLS = None, srvReadHeaderTimeout = 30 * 1000000000, srvHTTP2 = False, srvDropsHello = False\<rparr>"

subsection \<open>Addresses\<close>

record versionListener =
  vlName :: string
  vlAddr :: string
  vlLabel :: string
  vlVersion :: u16
  vlNote :: string
  vlOptional :: bool

definition obsoleteNote :: string where
  "obsoleteNote = ''Go refuses TLS 1.0 and 1.1 by default; this listener enables them explicitly''"

definition perVersionListeners :: "environ \<Rightarrow> versionListener list" where
  "perVersionListeners e =
    [\<lparr>vlName = ''tls10'', vlAddr = env e ''TLS10_ADDR'' '':8410'', vlLabel = ''TLSv1.0'',
      vlVersion = versionTLS10, vlNote = obsoleteNote, vlOptional = True\<rparr>,
     \<lparr>vlName = ''tls11'', vlAddr = env e ''TLS11_ADDR'' '':8411'', vlLabel = ''TLSv1.1'',
      vlVersion = versionTLS11, vlNote = obsoleteNote, vlOptional = True\<rparr>,
     \<lparr>vlName = ''tls12'', vlAddr = env e ''TLS12_ADDR'' '':8412'', vlLabel = ''TLSv1.2'',
      vlVersion = versionTLS12, vlNote = [], vlOptional = False\<rparr>,
     \<lparr>vlName = ''tls13'', vlAddr = env e ''TLS13_ADDR'' '':8413'', vlLabel = ''TLSv1.3'',
      vlVersion = versionTLS13, vlNote = [], vlOptional = False\<rparr>]"

definition badChainEnv :: "string \<Rightarrow> string" where
  "badChainEnv name =
     (if name = ''expired'' then ''BADCHAIN_EXPIRED_ADDR''
      else if name = ''wrong-host'' then ''BADCHAIN_WRONG_HOST_ADDR''
      else if name = ''self-signed'' then ''BADCHAIN_SELF_SIGNED_ADDR''
      else if name = ''untrusted-root'' then ''BADCHAIN_UNTRUSTED_ROOT_ADDR''
      else if name = ''incomplete-chain'' then ''BADCHAIN_INCOMPLETE_CHAIN_ADDR''
      else [])"

definition badChainDefaultAddr :: "(string \<times> string) list" where
  "badChainDefaultAddr =
    [(''expired'', '':8420''), (''wrong-host'', '':8421''), (''self-signed'', '':8422''),
     (''untrusted-root'', '':8423''), (''incomplete-chain'', '':8424'')]"

definition badChainAddr :: "environ \<Rightarrow> string \<Rightarrow> string" where
  "badChainAddr e name =
     env e (badChainEnv name) (case map_of badChainDefaultAddr name of Some a \<Rightarrow> a | None \<Rightarrow> [])"

subsection \<open>\<open>main\<close>\<close>

text \<open>
  What \<open>main\<close> starts under a name: an HTTP or TLS server, or the raw listener.  Each block of \<open>main\<close> calls
  \<open>addListener\<close> and then \<open>serve\<close>; \<open>started\<close> keeps the two arguments together, and \<open>mainServer\<close> adds the entries
  in the same order.
\<close>

datatype runnable = ListenAndServe httpServer | ListenAndServeTLS httpServer | ServeRaw string

record started =
  stEntry :: listener
  stRun :: runnable
  stOptional :: bool

definition curveX25519MLKEM768 :: u16 where
  "curveX25519MLKEM768 = 4588"

definition start :: "listener \<Rightarrow> runnable \<Rightarrow> bool \<Rightarrow> started" where
  "start l run optional = \<lparr>stEntry = l, stRun = run, stOptional = optional\<rparr>"

definition httpListener :: "environ \<Rightarrow> started list" where
  "httpListener e =
     (let addr = env e ''HTTP_ADDR'' '':8080''
      in if addr = [] then []
         else [start \<lparr>lName = ''http'', lAddr = addr, lTLS = False, lMinVersion = [], lMaxVersion = [],
                      lALPN = ''http/1.1'', lNote = []\<rparr> (ListenAndServe (plainServer addr)) False])"

definition httpsListener :: "u16 list \<times> u16 list \<Rightarrow> environ \<Rightarrow> server \<Rightarrow> started list" where
  "httpsListener goSuites e s =
     (let addr = env e ''HTTPS_ADDR'' '':8443''
      in if addr = [] then []
         else [start \<lparr>lName = ''https'', lAddr = addr, lTLS = True, lMinVersion = ''TLSv1.2'',
                      lMaxVersion = ''TLSv1.3'', lALPN = ''h2, http/1.1'', lNote = []\<rparr>
                (ListenAndServeTLS (tlsServer goSuites s addr noVersions True)) False])"

definition versionListeners :: "u16 list \<times> u16 list \<Rightarrow> environ \<Rightarrow> server \<Rightarrow> started list" where
  "versionListeners goSuites e s =
     concat (map (\<lambda>v.
       if vlAddr v = [] then []
       else [start \<lparr>lName = vlName v, lAddr = vlAddr v, lTLS = True, lMinVersion = vlLabel v,
                    lMaxVersion = vlLabel v, lALPN = ''http/1.1'', lNote = vlNote v\<rparr>
              (ListenAndServeTLS (tlsServer goSuites s (vlAddr v) \<lparr>vMin = vlVersion v, vMax = vlVersion v\<rparr> False))
              (vlOptional v)])
       (perVersionListeners e))"

definition pqcListener :: "u16 list \<times> u16 list \<Rightarrow> environ \<Rightarrow> server \<Rightarrow> started list" where
  "pqcListener goSuites e s =
     (let addr = env e ''PQC_ADDR'' '':8414''
      in if addr = [] then []
         else [start \<lparr>lName = ''pqc'', lAddr = addr, lTLS = True, lMinVersion = ''TLSv1.3'',
                      lMaxVersion = ''TLSv1.3'', lALPN = ''http/1.1'',
                      lNote = ''requires the X25519MLKEM768 post-quantum hybrid named group''\<rparr>
                (ListenAndServeTLS
                  (mapTLS (\<lambda>c. c\<lparr>cfgCurvePreferences := [curveX25519MLKEM768]\<rparr>)
                    (tlsServer goSuites s addr \<lparr>vMin = versionTLS13, vMax = versionTLS13\<rparr> False)))
                False])"

definition mtlsListener :: "u16 list \<times> u16 list \<Rightarrow> environ \<Rightarrow> server \<Rightarrow> started list" where
  "mtlsListener goSuites e s =
     (let addr = env e ''MTLS_ADDR'' '':8425''
      in if addr = [] \<or> clientCAs (certs s) = None then []
         else [start \<lparr>lName = ''mtls'', lAddr = addr, lTLS = True, lMinVersion = ''TLSv1.2'',
                      lMaxVersion = ''TLSv1.3'', lALPN = ''http/1.1'',
                      lNote = ''requires a client certificate signed by the fixture CA; see /client.pem''\<rparr>
                (ListenAndServeTLS (mtlsServer goSuites s addr)) False])"

definition badChainListener :: "u16 list \<times> u16 list \<Rightarrow> environ \<Rightarrow> badChain \<Rightarrow> started list" where
  "badChainListener goSuites e b =
     (let addr = badChainAddr e (chainName b)
      in if addr = [] then []
         else [start \<lparr>lName = ''badchain-'' @ chainName b, lAddr = addr, lTLS = True,
                      lMinVersion = ''TLSv1.2'', lMaxVersion = ''TLSv1.3'', lALPN = ''http/1.1'', lNote = why b\<rparr>
                (ListenAndServeTLS (tlsServerWith goSuites addr noVersions False (served b))) False])"

definition badChainListeners :: "u16 list \<times> u16 list \<Rightarrow> environ \<Rightarrow> server \<Rightarrow> started list" where
  "badChainListeners goSuites e s = concat (map (badChainListener goSuites e) (badChains (certs s)))"

definition rawListener :: "environ \<Rightarrow> started list" where
  "rawListener e =
     (let addr = env e ''RAW_ADDR'' '':8081''
      in if addr = [] then []
         else [start \<lparr>lName = ''raw'', lAddr = addr, lTLS = False, lMinVersion = [], lMaxVersion = [],
                      lALPN = [], lNote = ''echoes the request head verbatim; not an HTTP server''\<rparr>
                (ServeRaw addr) False])"

text \<open>
  \<open>main\<close> up to its \<open>wg.Wait()\<close>: the server with its listener table, and everything started; a raw
  address that cannot be listened on ends the program.
\<close>

definition startAll :: "u16 list \<times> u16 list \<Rightarrow> environ \<Rightarrow> server \<Rightarrow> started list" where
  "startAll goSuites e s =
     httpListener e @ httpsListener goSuites e s @ versionListeners goSuites e s @ pqcListener goSuites e s
     @ mtlsListener goSuites e s @ badChainListeners goSuites e s @ rawListener e"

definition mainServer ::
    "(string \<Rightarrow> (string, unit) result) \<Rightarrow> u16 list \<times> u16 list \<Rightarrow> environ \<Rightarrow> certificates
     \<Rightarrow> (string, server \<times> started list) result" where
  "mainServer listen goSuites e cs =
     (let s = \<lparr>certs = cs, serverHellos = newHelloCache, listeners = []\<rparr>;
          all = startAll goSuites e s;
          s' = foldl (\<lambda>s st. addListener (stEntry st) s) s all;
          raw = env e ''RAW_ADDR'' '':8081''
      in if raw = [] then Ok (s', all)
         else (case listen raw of
                 Ok _ \<Rightarrow> Ok (s', all)
               | Err err \<Rightarrow> Err (''raw: '' @ err)
               | Panic \<Rightarrow> Panic))"

text \<open>What a run function returns, and whether \<open>serve\<close> ends the program over it.\<close>

datatype runResult = ReturnedNil | ErrServerClosed | Failed string

definition versionRun :: "bool \<Rightarrow> runResult \<Rightarrow> runResult" where
  "versionRun optional err =
     (if err \<noteq> ReturnedNil \<and> err \<noteq> ErrServerClosed \<and> optional then ReturnedNil else err)"

definition serveFatal :: "started \<Rightarrow> runResult \<Rightarrow> bool" where
  "serveFatal st err =
     (let err = versionRun (stOptional st) err in err \<noteq> ReturnedNil \<and> err \<noteq> ErrServerClosed)"

text \<open>
  On a signal \<open>shutdownWith\<close> shuts every HTTP server down, which makes its \<open>ListenAndServe\<close> return
  \<open>ErrServerClosed\<close>, and the goroutine of the raw listener closes it, which makes \<open>serveRaw\<close> return nil.
\<close>

definition afterShutdown :: runResult where
  "afterShutdown = ErrServerClosed"

definition afterRawClose :: runResult where
  "afterRawClose = ReturnedNil"

definition afterSignal :: "started \<Rightarrow> runResult" where
  "afterSignal st = (case stRun st of ServeRaw _ \<Rightarrow> afterRawClose | _ \<Rightarrow> afterShutdown)"

text \<open>
  Any other error: an HTTP server returns it, but \<open>serveRaw\<close> takes every error of \<open>Accept\<close> that is not
  a timeout for the listener having been closed, and returns nil.
\<close>

definition failing :: "started \<Rightarrow> string \<Rightarrow> runResult" where
  "failing st err = (case stRun st of ServeRaw _ \<Rightarrow> ReturnedNil | _ \<Rightarrow> Failed err)"

subsection \<open>Specification: what a server negotiates\<close>

text \<open>The versions a configuration allows, newest first, as \<open>crypto/tls\<close> prefers them.\<close>

definition allowedVersions :: "tlsConfig \<Rightarrow> u16 list" where
  "allowedVersions c =
     filter (\<lambda>v. cfgMinVersion c \<le> v \<and> (cfgMaxVersion c = 0 \<or> v \<le> cfgMaxVersion c))
       [versionTLS13, versionTLS12, versionTLS11, versionTLS10]"

text \<open>What \<open>/info\<close> says of a listener, compared with the server behind it.\<close>

definition truthful :: "started \<Rightarrow> bool" where
  "truthful st \<longleftrightarrow>
     (case stRun st of
        ListenAndServe srv \<Rightarrow>
          srvAddr srv = lAddr (stEntry st) \<and> srvTLS srv = None \<and> \<not> lTLS (stEntry st) \<and>
          lMinVersion (stEntry st) = [] \<and> lMaxVersion (stEntry st) = [] \<and> lALPN (stEntry st) = ''http/1.1''
      | ListenAndServeTLS srv \<Rightarrow>
          (case srvTLS srv of
             None \<Rightarrow> False
           | Some c \<Rightarrow>
               srvAddr srv = lAddr (stEntry st) \<and> lTLS (stEntry st) \<and>
               lMinVersion (stEntry st) = versionName (last (allowedVersions c)) \<and>
               lMaxVersion (stEntry st) = versionName (hd (allowedVersions c)) \<and> allowedVersions c \<noteq> [] \<and>
               lALPN (stEntry st) = (if srvHTTP2 srv then ''h2, http/1.1'' else ''http/1.1''))
      | ServeRaw addr \<Rightarrow> addr = lAddr (stEntry st) \<and> \<not> lTLS (stEntry st) \<and> lALPN (stEntry st) = [])"

subsection \<open>What the configurations negotiate\<close>

lemma versions_less:
  "versionTLS10 < versionTLS11" "versionTLS11 < versionTLS12" "versionTLS12 < versionTLS13"
  "versionTLS10 < versionTLS12" "versionTLS10 < versionTLS13" "versionTLS11 < versionTLS13"
  "versionTLS10 \<noteq> 0" "versionTLS11 \<noteq> 0" "versionTLS12 \<noteq> 0" "versionTLS13 \<noteq> 0"
  by (simp_all add: version_defs)

lemma tlsServerWith_fields [simp]:
  "srvAddr (tlsServerWith g addr v h2 cert) = addr" "srvHTTP2 (tlsServerWith g addr v h2 cert) = h2"
  "srvDropsHello (tlsServerWith g addr v h2 cert)"
  by (simp_all add: tlsServerWith_def Let_def)

lemma mapTLS_fields [simp]:
  "srvAddr (mapTLS f srv) = srvAddr srv" "srvHTTP2 (mapTLS f srv) = srvHTTP2 srv"
  "srvDropsHello (mapTLS f srv) = srvDropsHello srv" "srvTLS (mapTLS f srv) = map_option f (srvTLS srv)"
  by (simp_all add: mapTLS_def)

definition pinned :: "u16 \<Rightarrow> tlsVersions" where
  "pinned v = \<lparr>vMin = v, vMax = v\<rparr>"

lemma tlsServerWith_open:
  obtains c where "srvTLS (tlsServerWith g addr noVersions h2 cert) = Some c"
    "allowedVersions c = [versionTLS13, versionTLS12]" "cfgCapturesHello c" "cfgClientAuth c = RequestClientCert"
    "cfgCertificates c = [cert]" "cfgCipherSuites c = []" "cfgMinVersion c = versionTLS12"
  by (simp add: tlsServerWith_def Let_def noVersions_def allowedVersions_def version_defs)

lemma tlsServerWith_pinned:
  assumes "v \<in> {versionTLS10, versionTLS11, versionTLS12, versionTLS13}"
  obtains c where "srvTLS (tlsServerWith g addr (pinned v) h2 cert) = Some c"
    "allowedVersions c = [v]" "cfgCapturesHello c" "cfgClientAuth c = RequestClientCert"
    "cfgCertificates c = [cert]" "cfgMinVersion c = v" "cfgMaxVersion c = v"
    "cfgCipherSuites c = (if v \<le> versionTLS11 then fst g @ snd g else [])"
  using assms
  by (auto simp: tlsServerWith_def Let_def pinned_def allowedVersions_def obsoleteCipherSuites_def version_defs)

lemma allowed_update [simp]:
  "allowedVersions (c\<lparr>cfgCurvePreferences := ps\<rparr>) = allowedVersions c"
  "allowedVersions (c\<lparr>cfgClientAuth := a, cfgClientCAs := cas\<rparr>) = allowedVersions c"
  by (simp_all add: allowedVersions_def)

lemma versionName_labels [simp]:
  "versionName versionTLS10 = ''TLSv1.0''" "versionName versionTLS11 = ''TLSv1.1''"
  "versionName versionTLS12 = ''TLSv1.2''" "versionName versionTLS13 = ''TLSv1.3''"
  by (simp_all add: versionName_def version_defs)

lemmas listener_defs = httpListener_def httpsListener_def versionListeners_def pqcListener_def mtlsListener_def
  badChainListeners_def badChainListener_def rawListener_def start_def Let_def

subsection \<open>Contracts that every listener keeps\<close>

text \<open>
  A contract between the server and what it starts, proved once per group of listeners in \<open>main\<close>,
  holds of everything \<open>main\<close> starts.
\<close>

locale listener_contract =
  fixes P :: "server \<Rightarrow> started \<Rightarrow> bool"
  assumes http: "st \<in> set (httpListener e) \<Longrightarrow> P s st"
    and https: "st \<in> set (httpsListener g e s) \<Longrightarrow> P s st"
    and versions: "st \<in> set (versionListeners g e s) \<Longrightarrow> P s st"
    and pqc: "st \<in> set (pqcListener g e s) \<Longrightarrow> P s st"
    and mtls: "st \<in> set (mtlsListener g e s) \<Longrightarrow> P s st"
    and badChain: "b \<in> set (badChains (certs s)) \<Longrightarrow> st \<in> set (badChainListener g e b) \<Longrightarrow> P s st"
    and raw: "st \<in> set (rawListener e) \<Longrightarrow> P s st"
begin

lemma badChains: "st \<in> set (badChainListeners g e s) \<Longrightarrow> P s st"
  by (auto simp: badChainListeners_def intro: badChain)

lemma startAll: "st \<in> set (startAll g e s) \<Longrightarrow> P s st"
  unfolding startAll_def set_append by (elim UnE) (erule http https versions pqc mtls badChains raw)+

end

text \<open>The servers for one TLS version each, with their configuration unfolded.\<close>

lemma versionListener_cases:
  assumes "st \<in> set (versionListeners g e s)"
  obtains v c where "v \<in> set (perVersionListeners e)" "vlAddr v \<noteq> []"
    "st = start \<lparr>lName = vlName v, lAddr = vlAddr v, lTLS = True, lMinVersion = vlLabel v,
        lMaxVersion = vlLabel v, lALPN = ''http/1.1'', lNote = vlNote v\<rparr>
        (ListenAndServeTLS (tlsServerWith g (vlAddr v) (pinned (vlVersion v)) False (leaf (certs s)))) (vlOptional v)"
    "vlVersion v \<in> {versionTLS10, versionTLS11, versionTLS12, versionTLS13}" "vlLabel v = versionName (vlVersion v)"
    "srvTLS (tlsServerWith g (vlAddr v) (pinned (vlVersion v)) False (leaf (certs s))) = Some c"
    "allowedVersions c = [vlVersion v]" "cfgCapturesHello c" "cfgClientAuth c = RequestClientCert"
    "cfgCertificates c = [leaf (certs s)]" "cfgMinVersion c = vlVersion v"
proof -
  from assms obtain v where v: "v \<in> set (perVersionListeners e)" "vlAddr v \<noteq> []"
    and st: "st = start \<lparr>lName = vlName v, lAddr = vlAddr v, lTLS = True, lMinVersion = vlLabel v,
        lMaxVersion = vlLabel v, lALPN = ''http/1.1'', lNote = vlNote v\<rparr>
        (ListenAndServeTLS (tlsServerWith g (vlAddr v) (pinned (vlVersion v)) False (leaf (certs s)))) (vlOptional v)"
    by (auto simp: versionListeners_def tlsServer_def pinned_def split: if_splits)
  moreover have ver: "vlVersion v \<in> {versionTLS10, versionTLS11, versionTLS12, versionTLS13}"
      and "vlLabel v = versionName (vlVersion v)"
    using v(1) by (auto simp: perVersionListeners_def)
  ultimately show thesis
    by (rule_tac tlsServerWith_pinned [OF ver, of g "vlAddr v" False "leaf (certs s)"]) (rule that)
qed

subsection \<open>The table \<open>/info\<close> reports\<close>

lemma truthful_https: "st \<in> set (httpsListener g e s) \<Longrightarrow> truthful st"
  by (rule tlsServerWith_open [of g "env e ''HTTPS_ADDR'' '':8443''" True "leaf (certs s)"])
    (auto simp: listener_defs tlsServer_def truthful_def split: if_splits)

lemma truthful_versions: "st \<in> set (versionListeners g e s) \<Longrightarrow> truthful st"
  by (erule versionListener_cases) (auto simp: truthful_def start_def)

lemma truthful_pqc: "st \<in> set (pqcListener g e s) \<Longrightarrow> truthful st"
  by (rule tlsServerWith_pinned [of versionTLS13 g "env e ''PQC_ADDR'' '':8414''" False "leaf (certs s)"])
    (auto simp: listener_defs tlsServer_def truthful_def pinned_def split: if_splits)

lemma truthful_mtls: "st \<in> set (mtlsListener g e s) \<Longrightarrow> truthful st"
  by (rule tlsServerWith_open [of g "env e ''MTLS_ADDR'' '':8425''" False "leaf (certs s)"])
    (auto simp: listener_defs mtlsServer_def truthful_def split: if_splits)

lemma truthful_badChain: "st \<in> set (badChainListener g e b) \<Longrightarrow> truthful st"
  by (rule tlsServerWith_open [of g "badChainAddr e (chainName b)" False "served b"])
    (auto simp: badChainListener_def Let_def truthful_def start_def split: if_splits)

lemma truthful_http: "st \<in> set (httpListener e) \<Longrightarrow> truthful st"
  by (auto simp: listener_defs truthful_def plainServer_def split: if_splits)

lemma truthful_raw: "st \<in> set (rawListener e) \<Longrightarrow> truthful st"
  by (auto simp: listener_defs truthful_def split: if_splits)

interpretation truth: listener_contract "\<lambda>_. truthful"
  by unfold_locales
    (erule truthful_http truthful_https truthful_versions truthful_pqc truthful_mtls truthful_badChain truthful_raw)+

lemma foldl_addListener: "listeners (foldl (\<lambda>s st. addListener (stEntry st) s) s sts) = listeners s @ map stEntry sts"
  by (induction sts arbitrary: s) (simp_all add: addListener_def)

lemma mainServer_Ok:
  assumes "mainServer listen g e cs = Ok (s', all)"
  shows "all = startAll g e \<lparr>certs = cs, serverHellos = newHelloCache, listeners = []\<rparr>" "snapshot s' = map stEntry all"
  using assms by (auto simp: mainServer_def Let_def snapshot_def foldl_addListener split: if_splits result.splits)

text \<open>
  C13: \<open>/info\<close> tells the truth.  In every environment and with any certificates, the listener table
  has exactly one entry per server started, in that order, and for each entry the address, the use
  of TLS, the smallest and the largest version the server will negotiate and the protocols it
  offers are those of the server behind it.
\<close>

theorem listener_table_truthful:
  assumes "mainServer listen g e cs = Ok (s', all)"
  shows "snapshot s' = map stEntry all \<and> (\<forall>st \<in> set all. truthful st)"
proof -
  have "truthful st" if "st \<in> set all" for st
    using that unfolding mainServer_Ok(1) [OF assms] by (rule truth.startAll)
  with mainServer_Ok(2) [OF assms] show ?thesis by blast
qed

lemma listener_table_truthful_witness:
  "\<exists>s' all. mainServer (\<lambda>_. Ok ()) ([], []) (\<lambda>_. None) exampleCertificates = Ok (s', all) \<and>
     snapshot s' = map stEntry all \<and> length all = 8"
proof -
  obtain s' all where m: "mainServer (\<lambda>_. Ok ()) ([], []) (\<lambda>_. None) exampleCertificates = Ok (s', all)"
    by (simp add: mainServer_def Let_def env_def)
  have "length all = 8"
    unfolding mainServer_Ok(1) [OF m]
    by (simp add: startAll_def listener_defs env_def perVersionListeners_def exampleCertificates_def)
  with m listener_table_truthful [OF m] show ?thesis by blast
qed

text \<open>
  C31: with nothing configured \<open>loadCertificates\<close> makes the certificates, and with what it made the
  server starts exactly the fourteen listeners its documentation lists, on the documented ports, in
  this order.
\<close>

theorem default_listeners:
  assumes "loadCertificates loadX509KeyPair isIP now (\<lambda>_. None) draws = Ok (cs, draws')"
  shows "\<exists>s' all. mainServer (\<lambda>_. Ok ()) g (\<lambda>_. None) cs = Ok (s', all) \<and>
    map (\<lambda>l. (lName l, lAddr l)) (snapshot s') =
      [(''http'', '':8080''), (''https'', '':8443''), (''tls10'', '':8410''), (''tls11'', '':8411''),
       (''tls12'', '':8412''), (''tls13'', '':8413''), (''pqc'', '':8414''), (''mtls'', '':8425''),
       (''badchain-expired'', '':8420''), (''badchain-wrong-host'', '':8421''), (''badchain-self-signed'', '':8422''),
       (''badchain-untrusted-root'', '':8423''), (''badchain-incomplete-chain'', '':8424''), (''raw'', '':8081'')]"
proof -
  note minted = default_certificates [OF assms]
  obtain s' all where m: "mainServer (\<lambda>_. Ok ()) g (\<lambda>_. None) cs = Ok (s', all)"
    by (simp add: mainServer_def Let_def env_def)
  let ?s = "\<lparr>certs = cs, serverHellos = newHelloCache, listeners = []\<rparr>"
  let ?key = "\<lambda>st. (lName (stEntry st), lAddr (stEntry st))"
  have "map ?key (badChainListeners g (\<lambda>_. None) ?s) =
      concat (map (\<lambda>n. if badChainAddr (\<lambda>_. None) n = [] then [] else [(''badchain-'' @ n, badChainAddr (\<lambda>_. None) n)])
        (map chainName (badChains cs)))"
    by (simp add: badChainListeners_def badChainListener_def start_def Let_def map_concat o_def if_distrib cong: if_cong)
  also have "\<dots> = [(''badchain-expired'', '':8420''), (''badchain-wrong-host'', '':8421''),
      (''badchain-self-signed'', '':8422''), (''badchain-untrusted-root'', '':8423''),
      (''badchain-incomplete-chain'', '':8424'')]"
    unfolding minted(1) by (simp add: badChainAddr_def badChainDefaultAddr_def env_def)
  finally have bad: "map ?key (badChainListeners g (\<lambda>_. None) ?s) = \<dots>" .
  have "map ?key (startAll g (\<lambda>_. None) ?s) =
      [(''http'', '':8080''), (''https'', '':8443''), (''tls10'', '':8410''), (''tls11'', '':8411''),
       (''tls12'', '':8412''), (''tls13'', '':8413''), (''pqc'', '':8414''), (''mtls'', '':8425'')]
      @ map ?key (badChainListeners g (\<lambda>_. None) ?s) @ [(''raw'', '':8081'')]"
    using minted(2)
    by (simp add: startAll_def httpListener_def httpsListener_def versionListeners_def pqcListener_def mtlsListener_def
        rawListener_def start_def Let_def env_def perVersionListeners_def)
  moreover have "map (\<lambda>l. (lName l, lAddr l)) (snapshot s') = map ?key (startAll g (\<lambda>_. None) ?s)"
    using mainServer_Ok [OF m] by simp
  ultimately show ?thesis using m bad by simp
qed

lemma default_listeners_witness:
  "\<exists>cs draws' s' all. loadCertificates (\<lambda>_ _. Panic) (\<lambda>_. False) 0 (\<lambda>_. None) exampleEntropy = Ok (cs, draws') \<and>
     mainServer (\<lambda>_. Ok ()) ([], []) (\<lambda>_. None) cs = Ok (s', all) \<and> length (snapshot s') = 14"
proof -
  obtain cs draws' where l: "loadCertificates (\<lambda>_ _. Panic) (\<lambda>_. False) 0 (\<lambda>_. None) exampleEntropy = Ok (cs, draws')"
    using exampleEntropy_loads by blast
  from default_listeners [OF l, of "([], [])"] l show ?thesis by (auto dest: arg_cong [of _ _ length])
qed

subsection \<open>Policies\<close>

definition policy :: "started \<Rightarrow> bool" where
  "policy st \<longleftrightarrow>
     lAddr (stEntry st) \<noteq> [] \<and>
     (stOptional st \<longrightarrow> lName (stEntry st) \<in> {''tls10'', ''tls11''}) \<and>
     (case stRun st of
        ListenAndServeTLS srv \<Rightarrow>
          (\<exists>c. srvTLS srv = Some c \<and> cfgCapturesHello c \<and> srvDropsHello srv \<and>
             (cfgClientAuth c = RequireAndVerifyClientCert \<longleftrightarrow> lName (stEntry st) = ''mtls'') \<and>
             (srvHTTP2 srv \<longleftrightarrow> lName (stEntry st) = ''https'') \<and>
             (cfgMinVersion c < versionTLS12 \<longrightarrow> stOptional st))
      | _ \<Rightarrow> True)"

lemma policy_http: "st \<in> set (httpListener e) \<Longrightarrow> policy st"
  by (auto simp: httpListener_def policy_def start_def Let_def split: if_splits)

lemma policy_raw: "st \<in> set (rawListener e) \<Longrightarrow> policy st"
  by (auto simp: rawListener_def policy_def start_def Let_def split: if_splits)

lemma policy_https: "st \<in> set (httpsListener g e s) \<Longrightarrow> policy st"
  by (rule tlsServerWith_open [of g "env e ''HTTPS_ADDR'' '':8443''" True "leaf (certs s)"])
    (auto simp: httpsListener_def tlsServer_def policy_def start_def Let_def versions_less split: if_splits)

lemma policy_pqc: "st \<in> set (pqcListener g e s) \<Longrightarrow> policy st"
  by (rule tlsServerWith_pinned [of versionTLS13 g "env e ''PQC_ADDR'' '':8414''" False "leaf (certs s)"])
    (auto simp: pqcListener_def tlsServer_def policy_def pinned_def start_def Let_def versions_less not_less less_imp_le
      dest: less_asym split: if_splits)

lemma policy_mtls: "st \<in> set (mtlsListener g e s) \<Longrightarrow> policy st"
  by (rule tlsServerWith_open [of g "env e ''MTLS_ADDR'' '':8425''" False "leaf (certs s)"])
    (auto simp: mtlsListener_def mtlsServer_def policy_def start_def Let_def versions_less split: if_splits)

lemma policy_badChain: "st \<in> set (badChainListener g e b) \<Longrightarrow> policy st"
  by (rule tlsServerWith_open [of g "badChainAddr e (chainName b)" False "served b"])
    (auto simp: badChainListener_def policy_def start_def Let_def versions_less split: if_splits)

lemma policy_versions: "st \<in> set (versionListeners g e s) \<Longrightarrow> policy st"
proof (erule versionListener_cases)
  fix v c
  assume v: "v \<in> set (perVersionListeners e)"
  have "vlOptional v \<longrightarrow> vlName v \<in> {''tls10'', ''tls11''}" "vlVersion v < versionTLS12 \<longrightarrow> vlOptional v"
      "vlName v \<notin> {''mtls'', ''https''}"
    using v versions_less by (auto simp: perVersionListeners_def)
  moreover assume "st = start \<lparr>lName = vlName v, lAddr = vlAddr v, lTLS = True, lMinVersion = vlLabel v,
        lMaxVersion = vlLabel v, lALPN = ''http/1.1'', lNote = vlNote v\<rparr>
        (ListenAndServeTLS (tlsServerWith g (vlAddr v) (pinned (vlVersion v)) False (leaf (certs s)))) (vlOptional v)"
    "srvTLS (tlsServerWith g (vlAddr v) (pinned (vlVersion v)) False (leaf (certs s))) = Some c"
    "vlAddr v \<noteq> []" "cfgCapturesHello c" "cfgClientAuth c = RequestClientCert" "cfgMinVersion c = vlVersion v"
  ultimately show "policy st" by (auto simp: policy_def start_def)
qed

interpretation policies: listener_contract "\<lambda>_. policy"
  by unfold_locales
    (erule policy_http policy_https policy_versions policy_pqc policy_mtls policy_badChain policy_raw)+

text \<open>
  C30: the policy of every TLS listener, in every environment.  An empty address starts nothing; each
  TLS server records what its clients offer and forgets it when they leave; only \<open>mtls\<close> requires a
  client certificate, only \<open>https\<close> offers HTTP/2, and a version below TLS 1.2 is spoken only by the
  two listeners whose failure is not fatal.
\<close>

theorem listener_policy: "\<forall>st \<in> set (startAll goSuites e s). policy st"
  using policies.startAll by blast

lemma listener_policy_witness:
  "\<exists>st \<in> set (startAll ([], []) (\<lambda>_. None) \<lparr>certs = exampleCertificates, serverHellos = newHelloCache, listeners = []\<rparr>).
     policy st \<and> lName (stEntry st) = ''https''"
proof -
  let ?s = "\<lparr>certs = exampleCertificates, serverHellos = newHelloCache, listeners = []\<rparr>"
  obtain st where st: "httpsListener ([], []) (\<lambda>_. None) ?s = [st]" "lName (stEntry st) = ''https''"
    by (simp add: httpsListener_def start_def Let_def env_def)
  then have "st \<in> set (startAll ([], []) (\<lambda>_. None) ?s)" by (simp add: startAll_def)
  with st(2) listener_policy [of "([], [])" "\<lambda>_. None" ?s] show ?thesis by blast
qed

end
