(* ===== verification/Shutdown.thy ===== *)
theory Shutdown
  imports Listeners
begin

text \<open>
  The life of the process after everything is started: the goroutines of \<open>serve\<close>, the shutdown
  goroutines of \<open>shutdownWith\<close> and of the raw listener, and the \<open>wg.Wait()\<close> that ends \<open>main\<close>, as steps
  on an explicit state (\<open>main.go\<close>).  Their interleaving is an arbitrary sequence of events.

  What is relied on of \<open>net/http\<close>: \<open>Shutdown\<close> closes the listener first, so that \<open>ListenAndServe\<close>
  returns \<open>ErrServerClosed\<close> at once, and only then waits for the requests in flight; what is relied
  on of Go: when \<open>main\<close> returns, the process ends, whatever other goroutines are doing.
\<close>

subsection \<open>The process\<close>

datatype exit = Stopped | Fatal string

text \<open>One goroutine of \<open>serve\<close>: what it runs, whether its \<open>wg.Done()\<close> has happened, and its requests in flight.\<close>

record goroutine =
  gStarted :: started
  gDone :: bool
  gInFlight :: nat

record process =
  pSignalled :: bool
  pGoroutines :: "goroutine list"
  pExit :: "exit option"

datatype event =
    Signal                  \<comment> \<open>SIGINT or SIGTERM: \<open>ctx.Done()\<close> is closed\<close>
  | Request nat             \<comment> \<open>a server accepts a request\<close>
  | Respond nat             \<comment> \<open>a server answers one\<close>
  | Closed nat              \<comment> \<open>the shutdown goroutine has closed the listener: the run function returns\<close>
  | Fails nat string        \<comment> \<open>its \<open>Serve\<close> or \<open>Accept\<close> fails by itself\<close>
  | WaitReturns             \<comment> \<open>\<open>wg.Wait()\<close> returns and \<open>main\<close> with it\<close>

definition launch :: "started list \<Rightarrow> process" where
  "launch all = \<lparr>pSignalled = False,
     pGoroutines = map (\<lambda>st. \<lparr>gStarted = st, gDone = False, gInFlight = 0\<rparr>) all, pExit = None\<rparr>"

definition setGoroutine :: "nat \<Rightarrow> goroutine \<Rightarrow> process \<Rightarrow> process" where
  "setGoroutine i g p = p\<lparr>pGoroutines := (pGoroutines p)[i := g]\<rparr>"

text \<open>The goroutine's body after \<open>run()\<close>: \<open>log.Fatalf\<close> or the deferred \<open>wg.Done()\<close>.\<close>

definition settle :: "nat \<Rightarrow> goroutine \<Rightarrow> runResult \<Rightarrow> process \<Rightarrow> process" where
  "settle i g err p =
     (if serveFatal (gStarted g) err then p\<lparr>pExit := Some (Fatal (lName (stEntry (gStarted g))))\<rparr>
      else setGoroutine i (g\<lparr>gDone := True\<rparr>) p)"

definition withGoroutine :: "nat \<Rightarrow> process \<Rightarrow> (goroutine \<Rightarrow> process option) \<Rightarrow> process option" where
  "withGoroutine i p f = (if i < length (pGoroutines p) then f (pGoroutines p ! i) else None)"

definition processStep :: "event \<Rightarrow> process \<Rightarrow> process option" where
  "processStep ev p =
     (if pExit p \<noteq> None then None
      else case ev of
        Signal \<Rightarrow> Some (p\<lparr>pSignalled := True\<rparr>)
      | Request i \<Rightarrow> withGoroutine i p (\<lambda>g.
          if gDone g then None else Some (setGoroutine i (g\<lparr>gInFlight := Suc (gInFlight g)\<rparr>) p))
      | Respond i \<Rightarrow> withGoroutine i p (\<lambda>g.
          if gInFlight g = 0 then None else Some (setGoroutine i (g\<lparr>gInFlight := gInFlight g - 1\<rparr>) p))
      | Closed i \<Rightarrow> withGoroutine i p (\<lambda>g.
          if gDone g \<or> \<not> pSignalled p then None else Some (settle i g (afterSignal (gStarted g)) p))
      | Fails i m \<Rightarrow> withGoroutine i p (\<lambda>g.
          if gDone g then None else Some (settle i g (failing (gStarted g) m) p))
      | WaitReturns \<Rightarrow> if list_all gDone (pGoroutines p) then Some (p\<lparr>pExit := Some Stopped\<rparr>) else None)"

primrec runEvents :: "event list \<Rightarrow> process \<Rightarrow> process option" where
  "runEvents [] p = Some p"
| "runEvents (ev # evs) p = (case processStep ev p of None \<Rightarrow> None | Some p' \<Rightarrow> runEvents evs p')"

lemma runEvents_append: "runEvents (es @ fs) p = (case runEvents es p of None \<Rightarrow> None | Some p' \<Rightarrow> runEvents fs p')"
  by (induction es arbitrary: p) (simp_all split: option.splits)

lemma serveFatal_closed [simp]: "\<not> serveFatal st (afterSignal st)"
  by (simp add: serveFatal_def versionRun_def afterSignal_def afterShutdown_def afterRawClose_def split: runnable.splits)

text \<open>The listeners whose failure \<open>main\<close> survives: TLS 1.0 and 1.1, and the raw one.\<close>

definition expendable :: "started \<Rightarrow> bool" where
  "expendable st \<longleftrightarrow> stOptional st \<or> (case stRun st of ServeRaw _ \<Rightarrow> True | _ \<Rightarrow> False)"

lemma serveFatal_failing [simp]: "serveFatal st (failing st m) \<longleftrightarrow> \<not> expendable st"
  by (simp add: serveFatal_def versionRun_def failing_def expendable_def split: runnable.splits)

subsection \<open>How the process ends\<close>

text \<open>What the state says of the events that led to it.\<close>

definition explained :: "started list \<Rightarrow> event list \<Rightarrow> process \<Rightarrow> bool" where
  "explained all evs p \<longleftrightarrow>
     map gStarted (pGoroutines p) = all \<and> (pSignalled p \<longleftrightarrow> Signal \<in> set evs) \<and>
     (\<forall>i < length all. gDone (pGoroutines p ! i) \<longrightarrow>
        Signal \<in> set evs \<or> expendable (all ! i) \<and> (\<exists>m. Fails i m \<in> set evs)) \<and>
     (pExit p = Some Stopped \<longrightarrow> list_all gDone (pGoroutines p)) \<and>
     (case pExit p of
        Some (Fatal n) \<Rightarrow>
          (\<exists>before i m. evs = before @ [Fails i m] \<and> i < length all \<and> n = lName (stEntry (all ! i)) \<and> \<not> expendable (all ! i))
      | _ \<Rightarrow> (\<forall>i m. Fails i m \<in> set evs \<longrightarrow> expendable (all ! i)))"

lemma explained_launch: "explained all [] (launch all)"
  by (simp add: explained_def launch_def o_def)

lemma explained_nth:
  "explained all evs p \<Longrightarrow> i < length (pGoroutines p) \<Longrightarrow> gStarted (pGoroutines p ! i) = all ! i"
  by (auto simp: explained_def)

text \<open>A step that changes one goroutine, and explains it when it finishes it.\<close>

lemma explained_setGoroutine:
  assumes "explained all evs p" "pExit p = None" "i < length (pGoroutines p)" "ev \<noteq> Signal"
    and "gStarted g = all ! i" "\<And>j m. ev = Fails j m \<Longrightarrow> expendable (all ! j)"
    and "gDone g \<Longrightarrow> gDone (pGoroutines p ! i) \<or> pSignalled p \<or> expendable (all ! i) \<and> (\<exists>m. ev = Fails i m)"
  shows "explained all (evs @ [ev]) (setGoroutine i g p)"
proof -
  have len: "length all = length (pGoroutines p)" using assms(1) by (auto simp: explained_def)
  have "map gStarted ((pGoroutines p)[i := g]) = all"
    using assms(1,3,5) by (intro nth_equalityI) (auto simp: explained_def nth_list_update)
  moreover have "Signal \<in> set evs \<or> expendable (all ! j) \<and> (\<exists>m. Fails j m \<in> set (evs @ [ev]))"
    if "j < length all" "gDone ((pGoroutines p)[i := g] ! j)" for j
    using assms(1,3,7) that len by (cases "j = i") (auto simp: explained_def)
  ultimately show ?thesis
    using assms(1,2,4,6) by (auto simp: explained_def setGoroutine_def)
qed

lemma explained_fatal:
  assumes "explained all evs p" "i < length (pGoroutines p)" "\<not> expendable (all ! i)"
  shows "explained all (evs @ [Fails i m]) (p\<lparr>pExit := Some (Fatal (lName (stEntry (all ! i))))\<rparr>)"
  using assms by (auto simp: explained_def)

lemma explained_step:
  assumes "explained all evs p" "processStep ev p = Some p'"
  shows "explained all (evs @ [ev]) p'"
proof -
  have run: "pExit p = None" using assms(2) by (auto simp: processStep_def split: if_splits)
  note st = explained_nth [OF assms(1)] and set = explained_setGoroutine [OF assms(1) run]
  show ?thesis
  proof (cases ev)
    case (Fails i m)
    with assms(2) run have i: "i < length (pGoroutines p)" "p' = settle i (pGoroutines p ! i) (failing (all ! i) m) p"
      using st by (auto simp: processStep_def withGoroutine_def split: if_splits)
    show ?thesis
    proof (cases "expendable (all ! i)")
      case True
      with i st Fails show ?thesis by (auto simp: settle_def intro!: set)
    next
      case False
      with i st Fails explained_fatal [OF assms(1) i(1)] show ?thesis by (simp add: settle_def)
    qed
  next
    case (Closed i)
    with assms(2) run st show ?thesis
      by (auto simp: processStep_def withGoroutine_def settle_def split: if_splits intro!: set)
  next
    case Signal
    with assms(1,2) run show ?thesis by (auto simp: processStep_def explained_def)
  next
    case WaitReturns
    with assms(1,2) run show ?thesis by (auto simp: processStep_def explained_def split: if_splits)
  qed (use assms(2) run st in \<open>auto simp: processStep_def withGoroutine_def split: if_splits intro!: set\<close>)
qed

lemma explained_run: "runEvents evs (launch all) = Some p \<Longrightarrow> explained all evs p"
proof (induction evs arbitrary: p rule: rev_induct)
  case Nil
  then have "p = launch all" by simp
  then show ?case by (simp add: explained_launch)
next
  case (snoc ev evs)
  then obtain q where "runEvents evs (launch all) = Some q" "processStep ev q = Some p"
    by (auto simp: runEvents_append split: option.splits)
  with snoc.IH explained_step show ?case by blast
qed

text \<open>
  C32: how the process can end, whatever the order of requests, signals and failures.  It prints "stopped"
  only when every goroutine of \<open>serve\<close> has returned, and then a signal has arrived, or else every listener
  has failed by itself and is one whose failure is survived: TLS 1.0, TLS 1.1 or the raw one (with no listener
  configured it stops at once).  It dies with an error exactly when its last event is the failure of a listener
  that is none of these, and the error names that listener; while it runs, no such failure has happened.
\<close>

theorem exit_reasons:
  assumes "all = startAll goSuites e s" "runEvents evs (launch all) = Some p"
  shows "(pExit p = Some Stopped \<longrightarrow> list_all gDone (pGoroutines p) \<and>
      (Signal \<in> set evs \<or> (\<forall>i < length all. expendable (all ! i) \<and> (\<exists>m. Fails i m \<in> set evs)))) \<and>
    (\<forall>n. pExit p = Some (Fatal n) \<longleftrightarrow>
      (\<exists>before i m. evs = before @ [Fails i m] \<and> i < length all \<and> n = lName (stEntry (all ! i)) \<and> \<not> expendable (all ! i))) \<and>
    (pExit p = None \<longrightarrow> (\<forall>i m. Fails i m \<in> set evs \<longrightarrow> expendable (all ! i)))"
proof -
  have x: "explained all evs p" by (rule explained_run [OF assms(2)])
  then have len: "length all = length (pGoroutines p)" by (auto simp: explained_def)
  from x have reason: "case pExit p of
        Some (Fatal n) \<Rightarrow>
          (\<exists>before i m. evs = before @ [Fails i m] \<and> i < length all \<and> n = lName (stEntry (all ! i)) \<and> \<not> expendable (all ! i))
      | _ \<Rightarrow> (\<forall>i m. Fails i m \<in> set evs \<longrightarrow> expendable (all ! i))"
    unfolding explained_def by blast
  have "pExit p = Some (Fatal n)"
    if "evs = before @ [Fails i m]" "n = lName (stEntry (all ! i))" "\<not> expendable (all ! i)" for n before i m
    using reason that by (auto split: option.splits exit.splits)
  with reason have "pExit p = Some (Fatal n) \<longleftrightarrow>
      (\<exists>before i m. evs = before @ [Fails i m] \<and> i < length all \<and> n = lName (stEntry (all ! i)) \<and> \<not> expendable (all ! i))" for n
    by (auto split: option.splits exit.splits)
  moreover have "pExit p = Some Stopped \<longrightarrow> list_all gDone (pGoroutines p)"
      "\<forall>i < length all. gDone (pGoroutines p ! i) \<longrightarrow>
        Signal \<in> set evs \<or> expendable (all ! i) \<and> (\<exists>m. Fails i m \<in> set evs)"
    using x unfolding explained_def by blast+
  moreover have "pExit p = None \<longrightarrow> (\<forall>i m. Fails i m \<in> set evs \<longrightarrow> expendable (all ! i))"
    using reason by (auto split: option.splits)
  ultimately show ?thesis using len unfolding list_all_length by metis
qed

text \<open>The plain listener alone.\<close>

definition onlyHTTP :: environ where
  "onlyHTTP n = (if n = ''HTTP_ADDR'' then None else Some [])"

definition idleServer :: server where
  "idleServer = \<lparr>certs = exampleCertificates, serverHellos = newHelloCache, listeners = []\<rparr>"

lemma onlyHTTP_starts:
  "\<exists>st. startAll ([], []) onlyHTTP idleServer = [st] \<and> lName (stEntry st) = ''http'' \<and> \<not> expendable st"
  by (simp add: startAll_def listener_defs env_def perVersionListeners_def exampleCertificates_def onlyHTTP_def
      idleServer_def expendable_def)

lemma exit_reasons_witness:
  "\<exists>p. runEvents [Request 0, Fails 0 ''address in use''] (launch (startAll ([], []) onlyHTTP idleServer)) = Some p \<and>
     pExit p = Some (Fatal ''http'')"
proof -
  obtain st where st: "startAll ([], []) onlyHTTP idleServer = [st]" "lName (stEntry st) = ''http''" "\<not> expendable st"
    using onlyHTTP_starts by blast
  have "\<exists>p. runEvents [Request 0, Fails 0 ''address in use''] (launch (startAll ([], []) onlyHTTP idleServer)) = Some p"
    by (simp add: st(1) launch_def processStep_def withGoroutine_def setGoroutine_def)
  then obtain p where run: "runEvents [Request 0, Fails 0 ''address in use''] (launch (startAll ([], []) onlyHTTP idleServer)) = Some p" ..
  have "\<exists>before i m. [Request 0, Fails 0 ''address in use''] = before @ [Fails i m] \<and>
      i < length (startAll ([], []) onlyHTTP idleServer) \<and>
      ''http'' = lName (stEntry (startAll ([], []) onlyHTTP idleServer ! i)) \<and> \<not> expendable (startAll ([], []) onlyHTTP idleServer ! i)"
    by (intro exI [of _ "[Request 0]"] exI [of _ 0] exI [of _ "''address in use''"]) (simp add: st)
  with exit_reasons [OF refl run] run show ?thesis by blast
qed

subsection \<open>After a signal\<close>

definition unfinished :: "process \<Rightarrow> nat list" where
  "unfinished p = filter (\<lambda>i. \<not> gDone (pGoroutines p ! i)) [0..<length (pGoroutines p)]"

lemma processStep_closed:
  assumes "pExit p = None" "pSignalled p" "i < length (pGoroutines p)" "\<not> gDone (pGoroutines p ! i)"
  shows "processStep (Closed i) p = Some (setGoroutine i ((pGoroutines p ! i)\<lparr>gDone := True\<rparr>) p)"
  using assms by (simp add: processStep_def withGoroutine_def settle_def)

text \<open>The shutdown goroutines, in any order, settle every goroutine that is not done and nothing else.\<close>

lemma runEvents_closed:
  assumes "pExit p = None" "pSignalled p" "distinct is"
    and "\<forall>i \<in> set is. i < length (pGoroutines p) \<and> \<not> gDone (pGoroutines p ! i)"
  shows "\<exists>p'. runEvents (map Closed is) p = Some p' \<and> pExit p' = None \<and>
    length (pGoroutines p') = length (pGoroutines p) \<and>
    (\<forall>i < length (pGoroutines p). pGoroutines p' ! i =
       (if i \<in> set is then (pGoroutines p ! i)\<lparr>gDone := True\<rparr> else pGoroutines p ! i))"
  using assms
proof (induction "is" arbitrary: p)
  case (Cons i "is")
  let ?p = "setGoroutine i ((pGoroutines p ! i)\<lparr>gDone := True\<rparr>) p"
  from Cons.prems have st: "processStep (Closed i) p = Some ?p" by (intro processStep_closed) auto
  have "\<exists>p'. runEvents (map Closed is) ?p = Some p' \<and> pExit p' = None \<and>
    length (pGoroutines p') = length (pGoroutines ?p) \<and>
    (\<forall>j < length (pGoroutines ?p). pGoroutines p' ! j =
       (if j \<in> set is then (pGoroutines ?p ! j)\<lparr>gDone := True\<rparr> else pGoroutines ?p ! j))"
    using Cons.prems by (intro Cons.IH) (auto simp: setGoroutine_def nth_list_update)
  then obtain p' where p': "runEvents (map Closed is) ?p = Some p'" "pExit p' = None"
      "length (pGoroutines p') = length (pGoroutines p)"
      "\<And>j. j < length (pGoroutines p) \<Longrightarrow> pGoroutines p' ! j =
        (if j \<in> set is then (pGoroutines ?p ! j)\<lparr>gDone := True\<rparr> else pGoroutines ?p ! j)"
    by (auto simp: setGoroutine_def)
  with st Cons.prems show ?case by (auto simp: setGoroutine_def nth_list_update)
qed simp

lemma shutdown_run:
  assumes "pExit p = None" "pSignalled p" "distinct is" "set is = set (unfinished p)"
  obtains p' where "runEvents (map Closed is @ [WaitReturns]) p = Some p'" "pExit p' = Some Stopped"
    "map gInFlight (pGoroutines p') = map gInFlight (pGoroutines p)"
proof -
  obtain q where q: "runEvents (map Closed is) p = Some q" "pExit q = None" "length (pGoroutines q) = length (pGoroutines p)"
    "\<And>i. i < length (pGoroutines p) \<Longrightarrow> pGoroutines q ! i =
       (if i \<in> set is then (pGoroutines p ! i)\<lparr>gDone := True\<rparr> else pGoroutines p ! i)"
    using runEvents_closed [OF assms(1-3)] assms(4) by (auto simp: unfinished_def)
  have "list_all gDone (pGoroutines q)"
    unfolding list_all_length using q(3,4) assms(4) by (auto simp: unfinished_def)
  moreover have "map gInFlight (pGoroutines q) = map gInFlight (pGoroutines p)"
    by (rule nth_equalityI) (simp_all add: q(3,4))
  ultimately show thesis
    using q(1,2) by (intro that [of "q\<lparr>pExit := Some Stopped\<rparr>"]) (simp_all add: runEvents_append processStep_def)
qed

text \<open>Every step after a signal, short of a failure, keeps the process on its way to the stop.\<close>

definition isClosed :: "event \<Rightarrow> bool" where
  "isClosed ev \<longleftrightarrow> (case ev of Closed _ \<Rightarrow> True | _ \<Rightarrow> False)"

lemma set_unfinished: "set (unfinished p) = {i. i < length (pGoroutines p) \<and> \<not> gDone (pGoroutines p ! i)}"
  by (auto simp: unfinished_def)

lemma length_unfinished: "length (unfinished p) = card (set (unfinished p))"
  by (rule distinct_card [symmetric]) (simp add: unfinished_def)

lemma unfinished_kept:
  "i < length (pGoroutines p) \<Longrightarrow> gDone g = gDone (pGoroutines p ! i) \<Longrightarrow>
   length (unfinished (setGoroutine i g p)) = length (unfinished p)"
  unfolding length_unfinished set_unfinished setGoroutine_def
  by (intro arg_cong [of _ _ card]) (auto simp: nth_list_update)

lemma unfinished_closed:
  assumes "i < length (pGoroutines p)" "\<not> gDone (pGoroutines p ! i)" "gDone g"
  shows "Suc (length (unfinished (setGoroutine i g p))) = length (unfinished p)"
proof -
  have "set (unfinished (setGoroutine i g p)) = set (unfinished p) - {i}" "i \<in> set (unfinished p)"
    using assms by (auto simp: set_unfinished setGoroutine_def nth_list_update split: if_splits)
  then show ?thesis unfolding length_unfinished by (metis card_Suc_Diff1 finite_set)
qed

lemma step_after_signal:
  assumes "processStep ev p = Some q" "pSignalled p" "\<And>i m. ev \<noteq> Fails i m"
  shows "pSignalled q" "(if isClosed ev then 1 else 0) + length (unfinished q) = length (unfinished p)"
    "pExit q = (if ev = WaitReturns then Some Stopped else None)"
  using assms
  by (cases ev; auto simp: processStep_def withGoroutine_def settle_def isClosed_def unfinished_kept unfinished_closed
      split: if_splits; auto simp: setGoroutine_def unfinished_def)+

lemma run_after_signal:
  assumes "runEvents evs p = Some q" "pSignalled p" "pExit p \<in> {None, Some Stopped}" "\<forall>i m. Fails i m \<notin> set evs"
  shows "pSignalled q \<and> pExit q \<in> {None, Some Stopped} \<and>
    length (filter isClosed evs) + length (unfinished q) = length (unfinished p)"
  using assms
proof (induction evs arbitrary: p)
  case (Cons ev evs)
  then obtain p' where p': "processStep ev p = Some p'" "runEvents evs p' = Some q" by (auto split: option.splits)
  have "\<And>i m. ev \<noteq> Fails i m" using Cons.prems(4) by auto
  note st = step_after_signal [OF p'(1) Cons.prems(2) this]
  from Cons.IH [OF p'(2) st(1)] Cons.prems(4) st show ?case by auto
qed simp

text \<open>
  C9: after a signal the program stops cleanly and does not wait for anybody, unless a listener fails by itself.
  Take any state reached after a signal and any further events in which no listener fails by itself: the process has
  not ended, or has stopped with status 0, and every listener that a shutdown goroutine closes brings it one
  closer.  As long as it has not ended, the closings that are left, in any order, followed by \<open>wg.Wait()\<close> are
  possible and stop it; no other step is needed, so every request in flight is still unanswered at
  that moment, although \<open>shutdownWith\<close> gives \<open>Shutdown\<close> five seconds to wait for them.
\<close>

theorem shutdown_stops_without_draining:
  assumes "runEvents before (launch (startAll goSuites e s)) = Some p" "pExit p = None" "Signal \<in> set before"
    and "runEvents evs p = Some q" "\<forall>i m. Fails i m \<notin> set evs"
  shows "pExit q \<in> {None, Some Stopped} \<and>
    length (filter isClosed evs) + length (unfinished q) = length (unfinished p) \<and>
    (pExit q = None \<longrightarrow> (\<forall>js. distinct js \<and> set js = set (unfinished q) \<longrightarrow>
      (\<exists>p'. runEvents (map Closed js @ [WaitReturns]) q = Some p' \<and> pExit p' = Some Stopped \<and>
         map gInFlight (pGoroutines p') = map gInFlight (pGoroutines q))))"
proof -
  have "pSignalled p" using explained_run [OF assms(1)] assms(3) by (simp add: explained_def)
  with run_after_signal [OF assms(4) this _ assms(5)] assms(2)
  have q: "pSignalled q" "pExit q \<in> {None, Some Stopped}"
    "length (filter isClosed evs) + length (unfinished q) = length (unfinished p)" by simp_all
  have "\<exists>p'. runEvents (map Closed js @ [WaitReturns]) q = Some p' \<and> pExit p' = Some Stopped \<and>
         map gInFlight (pGoroutines p') = map gInFlight (pGoroutines q)"
    if "pExit q = None" "distinct js" "set js = set (unfinished q)" for js
    by (rule shutdown_run [OF that(1) q(1) that(2,3)]) blast
  with q(2,3) show ?thesis by blast
qed

text \<open>One request in flight when the signal arrives, another after it.\<close>

lemma shutdown_stops_without_draining_witness:
  "\<exists>p q p'. runEvents [Request 0, Signal] (launch (startAll ([], []) onlyHTTP idleServer)) = Some p \<and>
     runEvents [Request 0] p = Some q \<and>
     runEvents [Closed 0, WaitReturns] q = Some p' \<and> pExit p' = Some Stopped \<and> map gInFlight (pGoroutines p') = [2]"
proof -
  let ?all = "startAll ([], []) onlyHTTP idleServer"
  obtain st where all: "?all = [st]" using onlyHTTP_starts by blast
  obtain p where run: "runEvents [Request 0, Signal] (launch ?all) = Some p" and p: "pExit p = None"
      "pGoroutines p = [\<lparr>gStarted = st, gDone = False, gInFlight = 1\<rparr>]"
    by (simp add: all launch_def processStep_def withGoroutine_def setGoroutine_def cong: conj_cong)
  obtain q where q: "runEvents [Request 0] p = Some q" "pExit q = None"
      "pGoroutines q = [\<lparr>gStarted = st, gDone = False, gInFlight = 2\<rparr>]"
    using p by (simp add: processStep_def withGoroutine_def setGoroutine_def)
  have "distinct [0 :: nat] \<and> set [0] = set (unfinished q)" by (simp add: unfinished_def q(3))
  moreover have "Signal \<in> set [Request 0, Signal]" "\<forall>i m. Fails i m \<notin> set [Request 0]" by simp_all
  note shutdown_stops_without_draining [OF run p(1) this(1) q(1) this(2)]
  ultimately have "\<exists>p'. runEvents (map Closed [0] @ [WaitReturns]) q = Some p' \<and> pExit p' = Some Stopped \<and>
         map gInFlight (pGoroutines p') = map gInFlight (pGoroutines q)"
    using q(2) by blast
  with run q(1,3) show ?thesis by auto
qed

end
