(* ===== verification/Spec2Isabelle.thy ===== *)
theory Spec2Isabelle
  imports Doh_Server Panic_Freedom Shutdown
begin

text \<open>
  A model of the two Go programs of okhttp-testbed and the theorems that make them correct.

  \<^bold>\<open>The programs.\<close>  \<open>test-server\<close> (\<open>src/test-server\<close>) is the server OkHttp is tested against: it mints
  its certificates, starts a plain, a raw and a dozen TLS listeners, echoes requests, reports
  handshakes, and offers responses and certificate chains that are wrong on purpose.  The ECH
  fixture (\<open>src/ech-fixture/src/main/resources/ech-fixture/main.go\<close>) has two modes: \<open>target\<close>, a TLS
  server with Encrypted Client Hello keys, and \<open>doh\<close>, a DNS-over-HTTPS resolver that publishes
  the configurations of those keys; the target's \<open>/metadata\<close> is the resolver's environment.

  \<^bold>\<open>Conventions.\<close>  Stateful code passes its state explicitly: the response under construction is a
  \<open>writer\<close>, randomness a supply of draws, the process a record.  An error return is \<open>Err\<close>, a run-time
  panic (index or slice out of range, a negative length for \<open>make\<close> or \<open>strings.Repeat\<close>, a division by zero,
  a status that \<open>WriteHeader\<close> refuses) is \<open>Panic\<close>, \<open>wPanic\<close> or, on a hijacked connection, \<open>Panics\<close>, so that its
  absence is a theorem; a pointer that may be nil is an option.  Strings are byte strings; 8-, 16- and 32-bit integers are words, \<open>int\<close> is mathematical
  within the bounds of \<open>strconv.Atoi\<close>.  What is not in the repository is a parameter: \<open>pemLib\<close> (PEM
  and DER), \<open>host\<close> (float parsing, dates, compression, digests, entropy, a client going away),
  \<open>tlsNames\<close> (names of suites, curves and schemes), \<open>loadX509KeyPair\<close>, \<open>isIP\<close>, \<open>listen\<close>, \<open>unescape\<close>,
  \<open>mapLower\<close> and \<open>quoteUnicode\<close> (Unicode tables beyond ASCII).

  \<^bold>\<open>Shared theories.\<close>
  \<^item> \<open>Go_Prelude\<close>: results, the expressions that may panic, \<open>strconv\<close> and \<open>strings\<close> (\<open>TrimSpace\<close> with the
    Unicode white space), the simp collections.
  \<^item> \<open>Base64\<close>: \<open>encoding/base64\<close> with its alphabets; locale \<open>base64_alphabet\<close>: decode after encode.
  \<^item> \<open>Json\<close>: \<open>encoding/json\<close> for the values the handlers build, and \<open>%q\<close>.
  \<^item> \<open>Http\<close>: headers, requests and the response writer of \<open>net/http\<close>; locale \<open>writer_step\<close>: what
    every writer operation keeps (what is committed stays).  101 is a final status there, as on HTTP/1.
  \<^item> \<open>Serve_Mux\<close>: what \<open>http.ServeMux\<close> does before it matches a pattern: \<open>cleanPath\<close>, the 301 to a clean path,
    the segments of the escaped path.
  \<^item> \<open>X509\<close>: symbolic certificates, calendar arithmetic of \<open>AddDate\<close>, and path validation as a
    specification (\<open>objections\<close>).

  \<^bold>\<open>The ECH fixture.\<close>
  \<^item> \<open>Wire\<close>, \<open>Svcb\<close>: \<open>appendUint16\<close> to \<open>appendUint16Length\<close>, \<open>appendDnsName\<close>, \<open>appendSvcParam\<close>,
    \<open>httpsRecord\<close>, \<open>svcParamFixture\<close>, against independent decoders; locale \<open>prefix_code\<close>: an encoder
    whose output can be read back from the front of any input.
  \<^item> \<open>Dns\<close>: \<open>dnsQuestion\<close>, \<open>stripAttrleafPort\<close> (\<open>bareName\<close> is the name it returns), \<open>dnsResponse\<close>: no panic, which
    queries are answered, what the answers decode to.
  \<^item> \<open>Ech_Config\<close>, \<open>Ech_Target\<close>: \<open>marshalECHConfig\<close>, \<open>newECHKey\<close>, \<open>runTarget\<close>, its TLS callbacks, \<open>runDoH\<close>:
    configurations decode, the two modes agree, each published name has its outcome (\<open>echOutcome\<close>, the
    specification of a handshake with a published configuration).
  \<^item> \<open>Doh_Server\<close>: \<open>main\<close>, the three HTTP servers with their handlers, and the way from key to DNS answer end to end.

  \<^bold>\<open>The test server.\<close>
  \<^item> \<open>Certs\<close>: \<open>loadCertificates\<close> and all minting code of \<open>tls.go\<close> and \<open>badchains.go\<close>.
  \<^item> \<open>Hello_Cache\<close>: \<open>helloCache\<close>; locale \<open>evicting_store\<close>: a bounded store refines a map; a step relation
    over connections says whose hello a request sees.
  \<^item> \<open>Handshake\<close>: the report of \<open>/tls\<close>.
  \<^item> \<open>Handlers\<close>, \<open>Handler_Facts\<close>: the handlers of \<open>handlers.go\<close>, one definition each, and their theorems;
    \<open>queryInt\<close> and \<open>queryDuration\<close> are the numbers that \<open>queryIntR\<close> and \<open>queryDurationR\<close>, which index the values of
    a parameter, return.
  \<^item> \<open>Hostile\<close>: \<open>hostile.go\<close>, against a strict reader of HTTP/1.1 responses; after \<open>SetLinger(0)\<close> any prefix of what was
    written may be all that arrives.
  \<^item> \<open>Router\<close>: the routes, the pattern matching of \<open>ServeMux\<close>, dispatch, and a client following redirects.
  \<^item> \<open>Panic_Freedom\<close>: no request makes a handler panic; locale \<open>quiet_operation\<close> for the loops over the writer.
  \<^item> \<open>Listeners\<close>: TLS configurations and \<open>main\<close> up to its \<open>wg.Wait()\<close>; locale \<open>listener_contract\<close>: what holds of
    each group of listeners holds of everything started.
  \<^item> \<open>Shutdown\<close>: the process after start-up as a transition system over interleaved events: why it ends, and
    what a signal leads to.  A listener may fail at any moment, also between the signal and its shutdown.
  \<^item> this theory: what each listener presents and whom \<open>mtls\<close> admits, from \<open>loadCertificates\<close> to \<open>main\<close>.

  \<^bold>\<open>Bounds and fuel.\<close>  Only specifications use fuel: \<open>hasPath\<close> (one signature suffices here, two for the
  completed chain, and the theorems hold for every larger bound), \<open>decodeAll\<close> (the length of the
  input, as every element read consumes a byte), \<open>readReply\<close> (one more than the length of the input)
  and \<open>follow\<close> (any number above the length of the redirect chain).  The loops of the programs are
  total functions; the label loop of \<open>dnsQuestion\<close> ends because the position grows.  Configuration lists
  are bounded by 65498 bytes where a 16-bit length must not wrap.

  \<^bold>\<open>Not modelled.\<close>  Sockets, deadlines and \<open>ReadHeaderTimeout\<close>; cryptography and the encodings of keys
  and certificates; what \<open>net/http\<close> does below the handlers (\<open>Content-Type\<close> sniffing, automatic
  \<open>Content-Length\<close>, dropping the body of a HEAD, the answer to \<open>OPTIONS *\<close>, HTTP/2 framing and its reading of
  101); the moments at which the code reads the clock twice for one certificate (one reading stands for both); log output
  but for \<open>logRequests\<close>; the Kotlin suites (\<open>containers\<close>, \<open>network\<close>, \<open>android-ech\<close>, the service of
  \<open>ech-fixture\<close>), the site, the workflows and the build.
\<close>

section \<open>Properties that span components\<close>

subsection \<open>From the minting code to what each listener presents and asks for\<close>

text \<open>The one objection a listener is there for; every other listener is meant to be accepted.\<close>

definition expectedObjections :: "string \<Rightarrow> objection list" where
  "expectedObjections name =
     (if name = ''badchain-expired'' then [OutsideValidity]
      else if name = ''badchain-wrong-host'' then [HostMismatch]
      else if name \<in> {''badchain-self-signed'', ''badchain-untrusted-root'', ''badchain-incomplete-chain''} then [NoPath]
      else [])"

definition tlsConfigOf :: "started \<Rightarrow> tlsConfig option" where
  "tlsConfigOf st = (case stRun st of ListenAndServeTLS srv \<Rightarrow> srvTLS srv | _ \<Rightarrow> None)"

text \<open>
  What \<open>crypto/tls\<close> does with the certificates a client sends: a server that merely requests one
  takes anything, also nothing; one that verifies wants a certificate for client authentication (its
  verification asks for that extended key usage), valid now, with a path to its own pool.
\<close>

definition acceptsClient :: "nat \<Rightarrow> tlsConfig \<Rightarrow> time \<Rightarrow> certificate list \<Rightarrow> bool" where
  "acceptsClient n c t sent =
     (case cfgClientAuth c of
        RequestClientCert \<Rightarrow> True
      | RequireAndVerifyClientCert \<Rightarrow>
          (case (sent, cfgClientCAs c) of
             (cert # intermediates, Some pool) \<Rightarrow>
               ExtKeyUsageClientAuth \<in> set (extKeyUsages (contents cert)) \<and> validAt t cert \<and>
               hasPath n pool intermediates t cert
           | _ \<Rightarrow> False))"

text \<open>Every listener but the bad chains presents the leaf; a pool to verify against is always the server's own.\<close>

definition leafNames :: "string set" where
  "leafNames = {''https'', ''tls10'', ''tls11'', ''tls12'', ''tls13'', ''pqc'', ''mtls''}"

definition usesLeaf :: "server \<Rightarrow> started \<Rightarrow> bool" where
  "usesLeaf s st \<longleftrightarrow> (\<forall>c. tlsConfigOf st = Some c \<longrightarrow>
     cfgCertificates c = [leaf (certs s)] \<and> lName (stEntry st) \<in> leafNames \<and>
     (cfgClientAuth c = RequireAndVerifyClientCert \<longrightarrow> cfgClientCAs c = clientCAs (certs s)))"

lemma leaf_http: "st \<in> set (httpListener e) \<Longrightarrow> usesLeaf s st"
  by (auto simp: httpListener_def start_def Let_def usesLeaf_def tlsConfigOf_def split: if_splits)

lemma leaf_raw: "st \<in> set (rawListener e) \<Longrightarrow> usesLeaf s st"
  by (auto simp: rawListener_def start_def Let_def usesLeaf_def tlsConfigOf_def split: if_splits)

lemma leaf_https: "st \<in> set (httpsListener g e s) \<Longrightarrow> usesLeaf s st"
  by (rule tlsServerWith_open [of g "env e ''HTTPS_ADDR'' '':8443''" True "leaf (certs s)"])
    (auto simp: httpsListener_def tlsServer_def start_def Let_def usesLeaf_def tlsConfigOf_def leafNames_def split: if_splits)

lemma leaf_pqc: "st \<in> set (pqcListener g e s) \<Longrightarrow> usesLeaf s st"
  by (rule tlsServerWith_pinned [of versionTLS13 g "env e ''PQC_ADDR'' '':8414''" False "leaf (certs s)"])
    (auto simp: pqcListener_def tlsServer_def pinned_def start_def Let_def usesLeaf_def tlsConfigOf_def leafNames_def
      split: if_splits)

lemma leaf_mtls: "st \<in> set (mtlsListener g e s) \<Longrightarrow> usesLeaf s st"
  by (rule tlsServerWith_open [of g "env e ''MTLS_ADDR'' '':8425''" False "leaf (certs s)"])
    (auto simp: mtlsListener_def mtlsServer_def start_def Let_def usesLeaf_def tlsConfigOf_def leafNames_def split: if_splits)

lemma leaf_versions: "st \<in> set (versionListeners g e s) \<Longrightarrow> usesLeaf s st"
  by (erule versionListener_cases)
    (auto simp: perVersionListeners_def usesLeaf_def tlsConfigOf_def leafNames_def start_def)

lemma badChain_uses:
  assumes "st \<in> set (badChainListener g e b)" "tlsConfigOf st = Some c"
  shows "cfgCertificates c = [served b]" "lName (stEntry st) = ''badchain-'' @ chainName b"
    "cfgClientAuth c = RequestClientCert"
  by (rule tlsServerWith_open [of g "badChainAddr e (chainName b)" False "served b"];
      use assms in \<open>auto simp: badChainListener_def start_def Let_def tlsConfigOf_def split: if_splits\<close>)+

definition usesBadChain :: "server \<Rightarrow> started \<Rightarrow> bool" where
  "usesBadChain s st \<longleftrightarrow> (\<exists>b \<in> set (badChains (certs s)). \<forall>c. tlsConfigOf st = Some c \<longrightarrow>
     cfgCertificates c = [served b] \<and> lName (stEntry st) = ''badchain-'' @ chainName b \<and>
     cfgClientAuth c = RequestClientCert)"

interpretation presented: listener_contract "\<lambda>s st. usesLeaf s st \<or> usesBadChain s st"
proof unfold_locales
  fix b st g e and s :: server
  assume "b \<in> set (badChains (certs s))" "st \<in> set (badChainListener g e b)"
  then show "usesLeaf s st \<or> usesBadChain s st"
    using badChain_uses unfolding usesBadChain_def by blast
qed (erule disjI1 [OF leaf_http] disjI1 [OF leaf_https] disjI1 [OF leaf_versions] disjI1 [OF leaf_pqc]
    disjI1 [OF leaf_mtls] disjI1 [OF leaf_raw])+

lemma expected_leaf: "name \<in> leafNames \<Longrightarrow> expectedObjections name = []"
  by (auto simp: leafNames_def expectedObjections_def)

lemma expected_badChain:
  assumes "b \<in> set bad"
    and "map (\<lambda>b. (chainName b, f (served b))) bad =
      [(''expired'', [OutsideValidity]), (''wrong-host'', [HostMismatch]), (''self-signed'', [NoPath]),
       (''untrusted-root'', [NoPath]), (''incomplete-chain'', [NoPath])]"
  shows "f (served b) = expectedObjections (''badchain-'' @ chainName b)"
proof -
  have "(chainName b, f (served b)) \<in> set (map (\<lambda>b. (chainName b, f (served b))) bad)"
    using assms(1) by simp
  then show ?thesis unfolding assms(2) by (auto simp: expectedObjections_def)
qed

text \<open>
  C4: from the minting code to the wire.  A server that made its own certificates, in any
  environment, presents on every TLS listener exactly one certificate, and a client that trusts
  what \<open>/ca.pem\<close> serves objects to it in exactly the way the listener's name says: not at all on
  the ordinary listeners, and for the one advertised reason on each bad-chain listener.
\<close>

theorem listeners_present_as_named:
  assumes "loadCertificates loadX509KeyPair isIP now e draws = Ok (cs, draws')" "selfMade cs"
    and "distinct (keyDraws draws)" "withinYear now t" "h \<in> set (hosts cs)" "h \<noteq> ''wrong.host.invalid''"
    and "mainServer listen g e cs = Ok (srv, all)"
  shows "\<exists>ca. caPEM cs = [CertificateBlock ca] \<and>
    (\<forall>st c. st \<in> set all \<longrightarrow> tlsConfigOf st = Some c \<longrightarrow>
      map (objections (Suc n) [ca] t h) (cfgCertificates c) = [expectedObjections (lName (stEntry st))])"
proof -
  obtain ca where ca: "caPEM cs = [CertificateBlock ca]" "objections (Suc n) [ca] t h (leaf cs) = []"
    and bad: "map (\<lambda>b. (chainName b, objections (Suc n) [ca] t h (served b))) (badChains cs) =
      [(''expired'', [OutsideValidity]), (''wrong-host'', [HostMismatch]), (''self-signed'', [NoPath]),
       (''untrusted-root'', [NoPath]), (''incomplete-chain'', [NoPath])]"
    using minted_objections [OF assms(1-6), of n] by (elim exE conjE) (rule that)
  let ?s = "\<lparr>certs = cs, serverHellos = newHelloCache, listeners = []\<rparr>"
  have "map (objections (Suc n) [ca] t h) (cfgCertificates c) = [expectedObjections (lName (stEntry st))]"
    if st: "st \<in> set all" and c: "tlsConfigOf st = Some c" for st c
  proof -
    from st have "st \<in> set (startAll g e ?s)" using mainServer_Ok(1) [OF assms(7)] by simp
    then have "usesLeaf ?s st \<or> usesBadChain ?s st" by (rule presented.startAll)
    then show ?thesis
    proof
      assume "usesLeaf ?s st"
      with c ca(2) show ?thesis by (simp add: usesLeaf_def expected_leaf)
    next
      assume "usesBadChain ?s st"
      with c expected_badChain [OF _ bad] show ?thesis by (auto simp: usesBadChain_def)
    qed
  qed
  with ca(1) show ?thesis by blast
qed

lemma example_starts:
  obtains cs draws' srv all where
    "loadCertificates (\<lambda>_ _. Panic) (\<lambda>_. False) 0 (\<lambda>_. None) exampleEntropy = Ok (cs, draws')" "selfMade cs"
    "''localhost'' \<in> set (hosts cs)" "mainServer (\<lambda>_. Ok ()) ([], []) (\<lambda>_. None) cs = Ok (srv, all)"
proof -
  obtain cs draws' where "loadCertificates (\<lambda>_ _. Panic) (\<lambda>_. False) 0 (\<lambda>_. None) exampleEntropy = Ok (cs, draws')"
      "selfMade cs" "''localhost'' \<in> set (hosts cs)"
    using exampleEntropy_loads by force
  then show thesis using that by (simp add: mainServer_def Let_def env_def)
qed

lemma distinct_example: "distinct (keyDraws exampleEntropy)"
  by (simp add: exampleEntropy_def)

lemma listeners_present_as_named_witness:
  "\<exists>cs draws' srv all ca. loadCertificates (\<lambda>_ _. Panic) (\<lambda>_. False) 0 (\<lambda>_. None) exampleEntropy = Ok (cs, draws') \<and>
     mainServer (\<lambda>_. Ok ()) ([], []) (\<lambda>_. None) cs = Ok (srv, all) \<and>
     (\<forall>st c. st \<in> set all \<longrightarrow> tlsConfigOf st = Some c \<longrightarrow>
       map (objections 1 [ca] 100 ''localhost'') (cfgCertificates c) = [expectedObjections (lName (stEntry st))])"
proof -
  obtain cs draws' srv all where
    ex: "loadCertificates (\<lambda>_ _. Panic) (\<lambda>_. False) 0 (\<lambda>_. None) exampleEntropy = Ok (cs, draws')" "selfMade cs"
      "''localhost'' \<in> set (hosts cs)" "mainServer (\<lambda>_. Ok ()) ([], []) (\<lambda>_. None) cs = Ok (srv, all)"
    by (rule example_starts)
  have "''localhost'' \<noteq> ''wrong.host.invalid''" by simp
  from listeners_present_as_named [OF ex(1,2) distinct_example withinYear_example ex(3) this ex(4), of 0] ex(1,4)
  show ?thesis unfolding One_nat_def by blast
qed

subsection \<open>Mutual TLS\<close>

lemma started_client:
  assumes "st \<in> set (startAll g e s)" "tlsConfigOf st = Some c"
  shows "cfgClientAuth c = RequireAndVerifyClientCert \<longleftrightarrow> lName (stEntry st) = ''mtls''"
    and "cfgClientAuth c = RequireAndVerifyClientCert \<Longrightarrow> cfgClientCAs c = clientCAs (certs s)"
proof -
  from policies.startAll [OF assms(1)] assms(2)
  show "cfgClientAuth c = RequireAndVerifyClientCert \<longleftrightarrow> lName (stEntry st) = ''mtls''"
    by (auto simp: policy_def tlsConfigOf_def split: runnable.splits)
  show "cfgClientCAs c = clientCAs (certs s)" if "cfgClientAuth c = RequireAndVerifyClientCert"
    using presented.startAll [OF assms(1)] assms(2) that by (auto simp: usesLeaf_def usesBadChain_def)
qed

text \<open>
  C16: mutual TLS can be satisfied, and only where it is meant to matter.  The identity that
  \<open>/client.pem\<close> serves, a certificate and its own key, is accepted by every TLS listener during
  the year, the verifying one included; a client that sends no certificate is turned away by the
  \<open>mtls\<close> listener and by no other.
\<close>

theorem client_identity_accepted:
  assumes "loadCertificates loadX509KeyPair isIP now e draws = Ok (cs, draws')" "selfMade cs"
    and "distinct (keyDraws draws)" "withinYear now t" "mainServer listen g e cs = Ok (srv, all)"
  shows "\<exists>client. clientPEM cs = [CertificateBlock client, PKCS8Block (publicKey client)] \<and>
    (\<forall>st c. st \<in> set all \<longrightarrow> tlsConfigOf st = Some c \<longrightarrow>
      acceptsClient (Suc n) c t [client] \<and> (acceptsClient (Suc n) c t [] \<longleftrightarrow> lName (stEntry st) \<noteq> ''mtls''))"
proof -
  obtain ca s1 s3 where ca: "newCA now draws = Ok ((ca, publicKey ca, caPEM cs), s1)" "clientCAs cs = Some [ca]"
    and client: "newClientIdentity now ca (publicKey ca) s3 = Ok (clientPEM cs, draws')"
    by (rule loadCertificates_minted [OF assms(1,2)])
  note anchor = minted_anchor [OF ca(1) assms(3)]
  obtain c k where c: "clientPEM cs = [CertificateBlock c, PKCS8Block k]" "publicKey c = k" "signedBy c = publicKey ca"
      "issuerCN c = subjectCN (contents ca)" "extKeyUsages (contents c) = [ExtKeyUsageClientAuth]"
      "notBefore (contents c) = now - 3600" "notAfter (contents c) = addDate1y now"
    by (rule newClientIdentity_Ok [OF client])
  have path: "validAt t c" "hasPath (Suc n) [ca] [] t c"
    using c anchor_validAt [OF anchor(1) assms(4)] withinYear_valid [OF assms(4)] anchor(1)
    by (simp_all add: validAt_def signs_def anchor_def)
  have "acceptsClient (Suc n) cfg t [c] \<and> (acceptsClient (Suc n) cfg t [] \<longleftrightarrow> lName (stEntry st) \<noteq> ''mtls'')"
    if st: "st \<in> set all" and cfg: "tlsConfigOf st = Some cfg" for st cfg
  proof -
    from st have "st \<in> set (startAll g e \<lparr>certs = cs, serverHellos = newHelloCache, listeners = []\<rparr>)"
      using mainServer_Ok(1) [OF assms(5)] by simp
    note started = started_client [OF this cfg]
    show ?thesis
      using started path c(5) ca(2) by (cases "cfgClientAuth cfg") (auto simp: acceptsClient_def)
  qed
  with c(1,2) show ?thesis by blast
qed

lemma client_identity_accepted_witness:
  "\<exists>cs draws' srv all client. loadCertificates (\<lambda>_ _. Panic) (\<lambda>_. False) 0 (\<lambda>_. None) exampleEntropy = Ok (cs, draws') \<and>
     mainServer (\<lambda>_. Ok ()) ([], []) (\<lambda>_. None) cs = Ok (srv, all) \<and>
     (\<forall>st c. st \<in> set all \<longrightarrow> tlsConfigOf st = Some c \<longrightarrow> acceptsClient 1 c 100 [client])"
proof -
  obtain cs draws' srv all where
    ex: "loadCertificates (\<lambda>_ _. Panic) (\<lambda>_. False) 0 (\<lambda>_. None) exampleEntropy = Ok (cs, draws')" "selfMade cs"
      "mainServer (\<lambda>_. Ok ()) ([], []) (\<lambda>_. None) cs = Ok (srv, all)"
    by (rule example_starts)
  from client_identity_accepted [OF ex(1,2) distinct_example withinYear_example ex(3), of 0] ex(1,3)
  show ?thesis unfolding One_nat_def by blast
qed

end
